theory Spec2Isabelle
  imports Complex_Main
begin

section \<open>The data the model holds\<close>

text \<open>
  The embedding follows \<^verbatim>\<open>src/bioviz/biorbd_vtk.py\<close>, class \<^verbatim>\<open>VtkModel\<close>.
  A Python float (a float64) is written as the \<open>real\<close> it denotes.  The code
  under study stores and copies floats; it computes with them in one place, the
  axis tips of \<^verbatim>\<open>update_rt\<close>, where every product and every sum is rounded to
  a float64 again.
\<close>

type_synonym vec3 = "real \<times> real \<times> real"

subsection \<open>Arithmetic in float64\<close>

text \<open>
  Rounding to the nearest float64, ties to the even significand: the exponent
  \<open>e\<close> of \<open>x\<close> is the largest one of a normal float64 with \<open>2 ^ e \<le> \<bar>x\<bar>\<close> (the
  least one, \<open>-1022\<close>, in the subnormal range and for zero), and \<open>x\<close> goes to the
  nearest multiple of \<open>2 ^ (e - 52)\<close>.  Infinities and NaN have no counterpart
  here: a result past the largest float64 stays a finite real.  A real that is
  no float64 stands for the float64 next to it, as a Python literal does, so
  the operands are rounded as well.
\<close>

definition pow2 :: "int \<Rightarrow> real" where
  "pow2 e = (if 0 \<le> e then 2 ^ nat e else 1 / 2 ^ nat (- e))"

definition float64_exponent :: "real \<Rightarrow> int" where
  "float64_exponent x =
     (case find (\<lambda>e. pow2 e \<le> \<bar>x\<bar>) (rev [-1022..1023]) of
        Some e \<Rightarrow> e
      | None \<Rightarrow> -1022)"

definition round_half_even :: "real \<Rightarrow> int" where
  "round_half_even y =
     (let f = \<lfloor>y\<rfloor>; d = y - of_int f
      in if d < 1 / 2 then f
         else if 1 / 2 < d then f + 1
         else if even f then f else f + 1)"

definition float64 :: "real \<Rightarrow> real" where
  "float64 x =
     (let q = pow2 (float64_exponent x - 52)
      in of_int (round_half_even (x / q)) * q)"

definition float64_add :: "real \<Rightarrow> real \<Rightarrow> real" where
  "float64_add x y = float64 (float64 x + float64 y)"

definition float64_mul :: "real \<Rightarrow> real \<Rightarrow> real" where
  "float64_mul x y = float64 (float64 x * float64 y)"

text \<open>The exceptions the class raises, by their Python names.\<close>

datatype error = IndexError | TypeError | RuntimeError | AttributeError

text \<open>
  A \<^verbatim>\<open>Markers\<close> array (axis \<times> channel \<times> time).  The code reads \<^verbatim>\<open>time.size\<close>,
  \<^verbatim>\<open>channel.size\<close> and, once \<^verbatim>\<open>time.size == 1\<close> is known, the xyz column
  \<^verbatim>\<open>[0:3, i]\<close> of channel \<open>i\<close>: \<open>points\<close> holds one entry per channel, the xyz of
  that channel at the single time sample (for another time size only its length,
  the channel count, is read).
\<close>

record frame =
  time_size :: nat
  points :: "vec3 list"

definition channel_size :: "'a frame_scheme \<Rightarrow> nat" where
  "channel_size f = length (points f)"

text \<open>
  A \<^verbatim>\<open>Mesh\<close> is a \<^verbatim>\<open>Markers\<close> array with a triangle table.  The table is a
  (rows \<times> columns) integer array, kept here column by column:
  \<^verbatim>\<open>triangles.shape[1]\<close> is the number of columns, \<^verbatim>\<open>triangles[:, j]\<close> is column
  \<open>j\<close> and \<^verbatim>\<open>triangles[k, j]\<close> its \<open>k\<close>-th entry.
\<close>

record mesh = frame +
  triangles :: "int list list"

text \<open>
  A \<^verbatim>\<open>Rototrans\<close>: its time size, \<^verbatim>\<open>rt.meca.translation\<close> and the three
  columns \<^verbatim>\<open>rt.isel(col=k)[0:3]\<close>.
\<close>

record rototrans =
  rt_time_size :: nat
  translation :: vec3
  col0 :: vec3
  col1 :: vec3
  col2 :: vec3

text \<open>
  What a caller hands to a method that takes ``one item or a list of items'':
  a bare array or a Python list of arrays.  The methods begin with
  \<^verbatim>\<open>if isinstance(x, Mesh)\<close> (or \<^verbatim>\<open>Rototrans\<close>), written to wrap a single item
  into a list of one.  The arrays this code reads (\<^verbatim>\<open>.time.size\<close>, \<^verbatim>\<open>.isel\<close>,
  \<^verbatim>\<open>.meca\<close>) are those of the xarray pyomeca, whose constructors return a
  \<^verbatim>\<open>DataArray\<close>, which is no instance of these classes: the test is false for
  every value, the branch is never taken, and a bare item goes on to
  \<^verbatim>\<open>if not isinstance(x, list): raise TypeError\<close>.
\<close>

datatype 'a one_or_list = One 'a | Many "'a list"

subsection \<open>VTK objects\<close>

text \<open>
  A cell (\<^verbatim>\<open>vtkPolyLine\<close>, \<^verbatim>\<open>vtkPolygon\<close>, \<^verbatim>\<open>vtkLine\<close>) is its list of point ids;
  \<^verbatim>\<open>SetNumberOfIds(n)\<close> gives \<open>n\<close> slots that hold nothing yet.
\<close>

datatype cell =
    PolyLine "int option list"
  | Polygon "int option list"
  | Line "int option list"

text \<open>
  What a mapper draws: nothing yet, the output of a \<^verbatim>\<open>vtkSphereSource\<close>
  (center, radius), or a \<^verbatim>\<open>vtkPolyData\<close> (points, lines, polygons, cell colours).
\<close>

datatype geom =
    NoInput
  | SphereSource vec3 real
  | PolyData "vec3 list" "cell list" "cell list" "(nat \<times> nat \<times> nat) list"

text \<open>
  A \<^verbatim>\<open>vtkActor\<close> with its mapper's input and the properties the code sets.
  \<open>aid\<close> is the identity of the object: the renderer holds actors by identity.
\<close>

record actor =
  aid :: nat
  a_input :: geom
  a_color :: vec3
  a_opacity :: real
  a_line_width :: real

text \<open>The calls made on the renderer and on the mappers' inputs, in order.\<close>

datatype vtk_call =
    RemoveActor nat
  | AddActor nat
  | ResetCamera
  | SetInputConnection nat
  | SetPoints nat

subsection \<open>The model object\<close>

text \<open>
  The attributes of \<^verbatim>\<open>VtkModel\<close> under their own names, followed by the part of
  \<^verbatim>\<open>parent_window.ren\<close> the class acts on: the renderer's actor collection, the
  counter that gives each new \<^verbatim>\<open>vtkActor()\<close> its identity, and the call trace.
\<close>

record model =
  markers :: frame
  markers_size :: real
  markers_color :: vec3
  markers_opacity :: real
  markers_actors :: "actor list"
  contacts :: frame
  contacts_size :: real
  contacts_color :: vec3
  contacts_opacity :: real
  contacts_actors :: "actor list"
  has_global_ref_frame :: bool
  global_ref_frame_length :: real
  global_ref_frame_width :: real
  global_center_of_mass :: frame
  global_center_of_mass_size :: real
  global_center_of_mass_color :: vec3
  global_center_of_mass_opacity :: real
  global_center_of_mass_actors :: "actor list"
  segments_center_of_mass :: frame
  segments_center_of_mass_size :: real
  segments_center_of_mass_color :: vec3
  segments_center_of_mass_opacity :: real
  segments_center_of_mass_actors :: "actor list"
  all_rt :: "rototrans list"
  n_rt :: nat
  rt_length :: real
  rt_width :: real
  rt_actors :: "actor list"
  all_meshes :: "mesh list"
  mesh_color :: vec3
  mesh_opacity :: real
  mesh_actors :: "actor list"
  all_muscles :: "mesh list"
  muscle_color :: vec3
  muscle_opacity :: real
  muscle_actors :: "actor list"
  all_wrappings :: "mesh list list"
  wrapping_color :: vec3
  wrapping_opacity :: real
  wrapping_actors :: "actor list list"
  ren_actors :: "nat list"
  next_actor :: nat
  vtk_calls :: "vtk_call list"

type_synonym 'a result = "error option \<times> 'a"

text \<open>
  A \<^verbatim>\<open>for\<close> loop whose body may raise: the loop stops at the first exception
  and keeps the state reached so far.
\<close>

fun for_each :: "('a \<Rightarrow> 's \<Rightarrow> 's result) \<Rightarrow> 'a list \<Rightarrow> 's \<Rightarrow> 's result" where
  "for_each body [] s = (None, s)"
| "for_each body (x # xs) s =
     (case body x s of
        (None, s') \<Rightarrow> for_each body xs s'
      | (Some e, s') \<Rightarrow> (Some e, s'))"

subsection \<open>The renderer\<close>

text \<open>
  \<^verbatim>\<open>ren.RemoveActor\<close> takes the actor out of the collection, \<^verbatim>\<open>ren.AddActor\<close>
  puts it in unless it is there already, \<^verbatim>\<open>ren.ResetCamera\<close> leaves the
  collection alone.  \<^verbatim>\<open>vtkActor()\<close> makes an actor that no list holds yet, with
  VTK's default properties; \<^verbatim>\<open>SetMapper\<close> gives it a mapper without input.
\<close>

definition ren_RemoveActor :: "actor \<Rightarrow> model \<Rightarrow> model" where
  "ren_RemoveActor a m =
     m\<lparr>ren_actors := remove1 (aid a) (ren_actors m),
       vtk_calls := vtk_calls m @ [RemoveActor (aid a)]\<rparr>"

definition add_item :: "nat \<Rightarrow> nat list \<Rightarrow> nat list" where
  "add_item x xs = (if x \<in> set xs then xs else xs @ [x])"

definition ren_AddActor :: "actor \<Rightarrow> model \<Rightarrow> model" where
  "ren_AddActor a m =
     m\<lparr>ren_actors := add_item (aid a) (ren_actors m),
       vtk_calls := vtk_calls m @ [AddActor (aid a)]\<rparr>"

definition ren_ResetCamera :: "model \<Rightarrow> model" where
  "ren_ResetCamera m = m\<lparr>vtk_calls := vtk_calls m @ [ResetCamera]\<rparr>"

definition vtkActor :: "model \<Rightarrow> actor \<times> model" where
  "vtkActor m =
     (\<lparr>aid = next_actor m, a_input = NoInput, a_color = (1, 1, 1),
       a_opacity = 1, a_line_width = 1\<rparr>,
      m\<lparr>next_actor := Suc (next_actor m)\<rparr>)"

text \<open>
  The four point categories (markers, contacts, global and segments centre of mass)
  are written out four times in the source, and so here.  In each:
  \<^item> one round of the loop of the \<^verbatim>\<open>new_..._set\<close> method: the list was emptied
    before the loop and each round appends one actor, so \<^verbatim>\<open>..._actors[i]\<close> is
    the actor just appended;
  \<^item> one round of the loop of the \<^verbatim>\<open>update_...\<close> method over
    \<^verbatim>\<open>enumerate(self..._actors)\<close>: colour and opacity are set first, then
    column \<^verbatim>\<open>[0:3, i]\<close> of the frame is read, which raises IndexError past the
    last channel;
  \<^item> the two methods, which call each other: \<^verbatim>\<open>update_...\<close> calls
    \<^verbatim>\<open>new_..._set\<close> when the channel counts differ, and \<^verbatim>\<open>new_..._set\<close> ends
    with a call of \<^verbatim>\<open>update_...\<close> on the frame it has just stored;
  \<^item> the setters, which store the value and call \<^verbatim>\<open>update_...\<close> on the stored
    frame.
\<close>

section \<open>Markers\<close>

definition new_marker_actor :: "nat \<Rightarrow> model \<Rightarrow> model" where
  "new_marker_actor i m =
     (case vtkActor m of (a, m1) \<Rightarrow>
        ren_ResetCamera (ren_AddActor a
          (m1\<lparr>markers_actors := markers_actors m1 @ [a]\<rparr>)))"

definition update_marker_actor :: "frame \<Rightarrow> nat \<Rightarrow> model \<Rightarrow> model result" where
  "update_marker_actor mk i m =
     (let a = (markers_actors m ! i)
                \<lparr>a_color := markers_color m, a_opacity := markers_opacity m\<rparr>;
          m1 = m\<lparr>markers_actors := (markers_actors m)[i := a]\<rparr>
      in if i < channel_size mk
         then (None,
               m1\<lparr>markers_actors := (markers_actors m1)
                      [i := a\<lparr>a_input := SphereSource (points mk ! i) (markers_size m1)\<rparr>],
                  vtk_calls := vtk_calls m1 @ [SetInputConnection (aid a)]\<rparr>)
         else (Some IndexError, m1))"

function new_marker_set :: "frame \<Rightarrow> model \<Rightarrow> model result"
  and update_markers :: "frame \<Rightarrow> model \<Rightarrow> model result" where
  "new_marker_set mk m =
     (if time_size mk \<noteq> 1 then (Some IndexError, m)
      else
        let m1 = m\<lparr>markers := mk\<rparr>;
            m2 = fold ren_RemoveActor (markers_actors m1) m1;
            m3 = m2\<lparr>markers_actors := []\<rparr>;
            m4 = fold new_marker_actor [0..<channel_size mk] m3
        in update_markers (markers m4) m4)"
| "update_markers mk m =
     (if time_size mk \<noteq> 1 then (Some IndexError, m)
      else if channel_size mk \<noteq> channel_size (markers m) then new_marker_set mk m
      else
        let m1 = m\<lparr>markers := mk\<rparr>
        in for_each (update_marker_actor mk) [0..<length (markers_actors m1)] m1)"
  by pat_completeness auto
termination
proof -
  have removed: "markers (fold ren_RemoveActor as m) = markers m" for as m
    by (induction as arbitrary: m) (simp_all add: ren_RemoveActor_def)
  have created: "markers (fold new_marker_actor js m) = markers m" for js m
    by (induction js arbitrary: m)
       (simp_all add: new_marker_actor_def vtkActor_def ren_AddActor_def ren_ResetCamera_def)
  show ?thesis
    by (relation "measure (\<lambda>x. case x of
          Inl (mk, m) \<Rightarrow> 1
        | Inr (mk, m) \<Rightarrow>
            if time_size mk = 1 \<and> channel_size mk \<noteq> channel_size (markers m) then 2 else 0)")
       (simp_all add: removed created)
qed

definition set_markers_color :: "vec3 \<Rightarrow> model \<Rightarrow> model result" where
  "set_markers_color c m =
     (let m1 = m\<lparr>markers_color := c\<rparr> in update_markers (markers m1) m1)"

definition set_markers_size :: "real \<Rightarrow> model \<Rightarrow> model result" where
  "set_markers_size s m =
     (let m1 = m\<lparr>markers_size := s\<rparr> in update_markers (markers m1) m1)"

definition set_markers_opacity :: "real \<Rightarrow> model \<Rightarrow> model result" where
  "set_markers_opacity opa m =
     (let m1 = m\<lparr>markers_opacity := opa\<rparr> in update_markers (markers m1) m1)"

section \<open>Contacts\<close>

definition new_contact_actor :: "nat \<Rightarrow> model \<Rightarrow> model" where
  "new_contact_actor i m =
     (case vtkActor m of (a, m1) \<Rightarrow>
        ren_ResetCamera (ren_AddActor a
          (m1\<lparr>contacts_actors := contacts_actors m1 @ [a]\<rparr>)))"

definition update_contact_actor :: "frame \<Rightarrow> nat \<Rightarrow> model \<Rightarrow> model result" where
  "update_contact_actor mk i m =
     (let a = (contacts_actors m ! i)
                \<lparr>a_color := contacts_color m, a_opacity := contacts_opacity m\<rparr>;
          m1 = m\<lparr>contacts_actors := (contacts_actors m)[i := a]\<rparr>
      in if i < channel_size mk
         then (None,
               m1\<lparr>contacts_actors := (contacts_actors m1)
                      [i := a\<lparr>a_input := SphereSource (points mk ! i) (contacts_size m1)\<rparr>],
                  vtk_calls := vtk_calls m1 @ [SetInputConnection (aid a)]\<rparr>)
         else (Some IndexError, m1))"

function new_contact_set :: "frame \<Rightarrow> model \<Rightarrow> model result"
  and update_contacts :: "frame \<Rightarrow> model \<Rightarrow> model result" where
  "new_contact_set mk m =
     (if time_size mk \<noteq> 1 then (Some IndexError, m)
      else
        let m1 = m\<lparr>contacts := mk\<rparr>;
            m2 = fold ren_RemoveActor (contacts_actors m1) m1;
            m3 = m2\<lparr>contacts_actors := []\<rparr>;
            m4 = fold new_contact_actor [0..<channel_size mk] m3
        in update_contacts (contacts m4) m4)"
| "update_contacts mk m =
     (if time_size mk \<noteq> 1 then (Some IndexError, m)
      else if channel_size mk \<noteq> channel_size (contacts m) then new_contact_set mk m
      else
        let m1 = m\<lparr>contacts := mk\<rparr>
        in for_each (update_contact_actor mk) [0..<length (contacts_actors m1)] m1)"
  by pat_completeness auto
termination
proof -
  have removed: "contacts (fold ren_RemoveActor as m) = contacts m" for as m
    by (induction as arbitrary: m) (simp_all add: ren_RemoveActor_def)
  have created: "contacts (fold new_contact_actor js m) = contacts m" for js m
    by (induction js arbitrary: m)
       (simp_all add: new_contact_actor_def vtkActor_def ren_AddActor_def ren_ResetCamera_def)
  show ?thesis
    by (relation "measure (\<lambda>x. case x of
          Inl (mk, m) \<Rightarrow> 1
        | Inr (mk, m) \<Rightarrow>
            if time_size mk = 1 \<and> channel_size mk \<noteq> channel_size (contacts m) then 2 else 0)")
       (simp_all add: removed created)
qed

definition set_contacts_color :: "vec3 \<Rightarrow> model \<Rightarrow> model result" where
  "set_contacts_color c m =
     (let m1 = m\<lparr>contacts_color := c\<rparr> in update_contacts (contacts m1) m1)"

definition set_contacts_size :: "real \<Rightarrow> model \<Rightarrow> model result" where
  "set_contacts_size s m =
     (let m1 = m\<lparr>contacts_size := s\<rparr> in update_contacts (contacts m1) m1)"

definition set_contacts_opacity :: "real \<Rightarrow> model \<Rightarrow> model result" where
  "set_contacts_opacity opa m =
     (let m1 = m\<lparr>contacts_opacity := opa\<rparr> in update_contacts (contacts m1) m1)"

section \<open>Global center of mass\<close>

definition new_global_center_of_mass_actor :: "nat \<Rightarrow> model \<Rightarrow> model" where
  "new_global_center_of_mass_actor i m =
     (case vtkActor m of (a, m1) \<Rightarrow>
        ren_ResetCamera (ren_AddActor a
          (m1\<lparr>global_center_of_mass_actors := global_center_of_mass_actors m1 @ [a]\<rparr>)))"

definition update_global_center_of_mass_actor :: "frame \<Rightarrow> nat \<Rightarrow> model \<Rightarrow> model result" where
  "update_global_center_of_mass_actor mk i m =
     (let a = (global_center_of_mass_actors m ! i)
                \<lparr>a_color := global_center_of_mass_color m, a_opacity := global_center_of_mass_opacity m\<rparr>;
          m1 = m\<lparr>global_center_of_mass_actors := (global_center_of_mass_actors m)[i := a]\<rparr>
      in if i < channel_size mk
         then (None,
               m1\<lparr>global_center_of_mass_actors := (global_center_of_mass_actors m1)
                      [i := a\<lparr>a_input := SphereSource (points mk ! i) (global_center_of_mass_size m1)\<rparr>],
                  vtk_calls := vtk_calls m1 @ [SetInputConnection (aid a)]\<rparr>)
         else (Some IndexError, m1))"

function new_global_center_of_mass_set :: "frame \<Rightarrow> model \<Rightarrow> model result"
  and update_global_center_of_mass :: "frame \<Rightarrow> model \<Rightarrow> model result" where
  "new_global_center_of_mass_set mk m =
     (if channel_size mk \<noteq> 1 then (Some IndexError, m)
      else
        let m1 = m\<lparr>global_center_of_mass := mk\<rparr>;
            m2 = fold ren_RemoveActor (global_center_of_mass_actors m1) m1;
            m3 = m2\<lparr>global_center_of_mass_actors := []\<rparr>;
            m4 = fold new_global_center_of_mass_actor [0..<channel_size mk] m3
        in update_global_center_of_mass (global_center_of_mass m4) m4)"
| "update_global_center_of_mass mk m =
     (if time_size mk \<noteq> 1 then (Some IndexError, m)
      else if channel_size mk \<noteq> channel_size (global_center_of_mass m) then new_global_center_of_mass_set mk m
      else
        let m1 = m\<lparr>global_center_of_mass := mk\<rparr>
        in for_each (update_global_center_of_mass_actor mk) [0..<length (global_center_of_mass_actors m1)] m1)"
  by pat_completeness auto
termination
proof -
  have removed: "global_center_of_mass (fold ren_RemoveActor as m) = global_center_of_mass m" for as m
    by (induction as arbitrary: m) (simp_all add: ren_RemoveActor_def)
  have created: "global_center_of_mass (fold new_global_center_of_mass_actor js m) = global_center_of_mass m" for js m
    by (induction js arbitrary: m)
       (simp_all add: new_global_center_of_mass_actor_def vtkActor_def ren_AddActor_def ren_ResetCamera_def)
  show ?thesis
    by (relation "measure (\<lambda>x. case x of
          Inl (mk, m) \<Rightarrow> 1
        | Inr (mk, m) \<Rightarrow>
            if time_size mk = 1 \<and> channel_size mk \<noteq> channel_size (global_center_of_mass m) then 2 else 0)")
       (simp_all add: removed created)
qed

definition set_global_center_of_mass_color :: "vec3 \<Rightarrow> model \<Rightarrow> model result" where
  "set_global_center_of_mass_color c m =
     (let m1 = m\<lparr>global_center_of_mass_color := c\<rparr> in update_global_center_of_mass (global_center_of_mass m1) m1)"

definition set_global_center_of_mass_size :: "real \<Rightarrow> model \<Rightarrow> model result" where
  "set_global_center_of_mass_size s m =
     (let m1 = m\<lparr>global_center_of_mass_size := s\<rparr> in update_global_center_of_mass (global_center_of_mass m1) m1)"

definition set_global_center_of_mass_opacity :: "real \<Rightarrow> model \<Rightarrow> model result" where
  "set_global_center_of_mass_opacity opa m =
     (let m1 = m\<lparr>global_center_of_mass_opacity := opa\<rparr> in update_global_center_of_mass (global_center_of_mass m1) m1)"

section \<open>Segments center of mass\<close>

definition new_segments_center_of_mass_actor :: "nat \<Rightarrow> model \<Rightarrow> model" where
  "new_segments_center_of_mass_actor i m =
     (case vtkActor m of (a, m1) \<Rightarrow>
        ren_ResetCamera (ren_AddActor a
          (m1\<lparr>segments_center_of_mass_actors := segments_center_of_mass_actors m1 @ [a]\<rparr>)))"

definition update_segments_center_of_mass_actor :: "frame \<Rightarrow> nat \<Rightarrow> model \<Rightarrow> model result" where
  "update_segments_center_of_mass_actor mk i m =
     (let a = (segments_center_of_mass_actors m ! i)
                \<lparr>a_color := segments_center_of_mass_color m, a_opacity := segments_center_of_mass_opacity m\<rparr>;
          m1 = m\<lparr>segments_center_of_mass_actors := (segments_center_of_mass_actors m)[i := a]\<rparr>
      in if i < channel_size mk
         then (None,
               m1\<lparr>segments_center_of_mass_actors := (segments_center_of_mass_actors m1)
                      [i := a\<lparr>a_input := SphereSource (points mk ! i) (segments_center_of_mass_size m1)\<rparr>],
                  vtk_calls := vtk_calls m1 @ [SetInputConnection (aid a)]\<rparr>)
         else (Some IndexError, m1))"

function new_segments_center_of_mass_set :: "frame \<Rightarrow> model \<Rightarrow> model result"
  and update_segments_center_of_mass :: "frame \<Rightarrow> model \<Rightarrow> model result" where
  "new_segments_center_of_mass_set mk m =
     (if time_size mk \<noteq> 1 then (Some IndexError, m)
      else
        let m1 = m\<lparr>segments_center_of_mass := mk\<rparr>;
            m2 = fold ren_RemoveActor (segments_center_of_mass_actors m1) m1;
            m3 = m2\<lparr>segments_center_of_mass_actors := []\<rparr>;
            m4 = fold new_segments_center_of_mass_actor [0..<channel_size mk] m3
        in update_segments_center_of_mass (segments_center_of_mass m4) m4)"
| "update_segments_center_of_mass mk m =
     (if time_size mk \<noteq> 1 then (Some IndexError, m)
      else if channel_size mk \<noteq> channel_size (segments_center_of_mass m) then new_segments_center_of_mass_set mk m
      else
        let m1 = m\<lparr>segments_center_of_mass := mk\<rparr>
        in for_each (update_segments_center_of_mass_actor mk) [0..<length (segments_center_of_mass_actors m1)] m1)"
  by pat_completeness auto
termination
proof -
  have removed: "segments_center_of_mass (fold ren_RemoveActor as m) = segments_center_of_mass m" for as m
    by (induction as arbitrary: m) (simp_all add: ren_RemoveActor_def)
  have created: "segments_center_of_mass (fold new_segments_center_of_mass_actor js m) = segments_center_of_mass m" for js m
    by (induction js arbitrary: m)
       (simp_all add: new_segments_center_of_mass_actor_def vtkActor_def ren_AddActor_def ren_ResetCamera_def)
  show ?thesis
    by (relation "measure (\<lambda>x. case x of
          Inl (mk, m) \<Rightarrow> 1
        | Inr (mk, m) \<Rightarrow>
            if time_size mk = 1 \<and> channel_size mk \<noteq> channel_size (segments_center_of_mass m) then 2 else 0)")
       (simp_all add: removed created)
qed

definition set_segments_center_of_mass_color :: "vec3 \<Rightarrow> model \<Rightarrow> model result" where
  "set_segments_center_of_mass_color c m =
     (let m1 = m\<lparr>segments_center_of_mass_color := c\<rparr> in update_segments_center_of_mass (segments_center_of_mass m1) m1)"

definition set_segments_center_of_mass_size :: "real \<Rightarrow> model \<Rightarrow> model result" where
  "set_segments_center_of_mass_size s m =
     (let m1 = m\<lparr>segments_center_of_mass_size := s\<rparr> in update_segments_center_of_mass (segments_center_of_mass m1) m1)"

definition set_segments_center_of_mass_opacity :: "real \<Rightarrow> model \<Rightarrow> model result" where
  "set_segments_center_of_mass_opacity opa m =
     (let m1 = m\<lparr>segments_center_of_mass_opacity := opa\<rparr> in update_segments_center_of_mass (segments_center_of_mass m1) m1)"

section \<open>Meshes\<close>

text \<open>
  \<^verbatim>\<open>np.unique\<close> returns the sorted distinct entries.  The test of
  \<^verbatim>\<open>new_mesh_set\<close> is
  \<^verbatim>\<open>mesh.triangles.shape[1]==0 or len(np.unique(mesh.triangles[:,0]))\<close>:
  the second operand, read only when there is a column, is an integer, true when
  it is not zero.
\<close>

definition np_unique :: "int list \<Rightarrow> int list" where
  "np_unique xs = sort (remdups xs)"

definition outline_branch :: "mesh \<Rightarrow> bool" where
  "outline_branch mesh =
     (if length (triangles mesh) = 0 then True
      else length (np_unique (triangles mesh ! 0)) \<noteq> 0)"

text \<open>
  The closed polyline of one column of the table: four id slots, slot \<open>k\<close> set
  to \<^verbatim>\<open>triangles[k, j]\<close> for every row \<open>k\<close>, slot 3 set to \<^verbatim>\<open>triangles[0, j]\<close>,
  which numpy refuses with IndexError when the table has no row.  (A write to a
  slot past the fourth is out of the id list's bounds in VTK; a table has three
  rows, and the model leaves the list as it is there.)
\<close>

fun closed_polyline :: "int list \<Rightarrow> cell option" where
  "closed_polyline [] = None"
| "closed_polyline (c # cs) =
     Some (PolyLine
       ((fold (\<lambda>k ids. ids[k := Some ((c # cs) ! k)]) [0..<length (c # cs)]
          (replicate 4 None))[3 := Some c]))"

fun closed_polylines :: "int list list \<Rightarrow> cell list option" where
  "closed_polylines [] = Some []"
| "closed_polylines (col # cols) =
     (case closed_polyline col of
        None \<Rightarrow> None
      | Some line \<Rightarrow>
          (case closed_polylines cols of
             None \<Rightarrow> None
           | Some cells \<Rightarrow> Some (line # cells)))"

text \<open>The polygon of one column: three id slots, slot \<open>jj\<close> set to \<^verbatim>\<open>nodeId[jj]\<close>.\<close>

definition triangle_polygon :: "int list \<Rightarrow> cell" where
  "triangle_polygon nodeId =
     Polygon (fold (\<lambda>jj ids. ids[jj := Some (nodeId ! jj)]) [0..<length nodeId]
       (replicate 3 None))"

text \<open>\<^verbatim>\<open>poly_line.SetPoints(points)\<close> on the input of a mapper.\<close>

fun geom_SetPoints :: "vec3 list \<Rightarrow> geom \<Rightarrow> geom" where
  "geom_SetPoints pts (PolyData _ ls ps cs) = PolyData pts ls ps cs"
| "geom_SetPoints pts g = g"

text \<open>
  The end of one round of the loop of \<^verbatim>\<open>new_mesh_set\<close>: the new actor gets its
  mapper, the colour and the opacity stored in the model at that moment, and
  goes to the renderer.
\<close>

definition add_mesh_actor :: "geom \<Rightarrow> model \<Rightarrow> model" where
  "add_mesh_actor g m =
     (case vtkActor m of (a, m1) \<Rightarrow>
        let a1 = a\<lparr>a_input := g, a_color := mesh_color m1, a_opacity := mesh_opacity m1\<rparr>
        in ren_ResetCamera (ren_AddActor a1
             (m1\<lparr>mesh_actors := mesh_actors m1 @ [a1]\<rparr>)))"

definition new_mesh_actor :: "mesh \<Rightarrow> model \<Rightarrow> model result" where
  "new_mesh_actor mesh m =
     (if time_size mesh \<noteq> 1 then (Some IndexError, m)
      else if outline_branch mesh then
        (case closed_polylines (triangles mesh) of
           None \<Rightarrow> (Some IndexError, m)
         | Some cells \<Rightarrow>
             (None, add_mesh_actor (PolyData (points mesh) cells [] [])
                      (m\<lparr>mesh_color := (0, 0, 0)\<rparr>)))
      else
        (None, add_mesh_actor
                 (PolyData (points mesh) [] (map triangle_polygon (triangles mesh)) []) m))"

text \<open>
  The first loop of \<^verbatim>\<open>update_mesh\<close> and \<^verbatim>\<open>update_muscle\<close>, which leaves by an
  exception, by the call of the rebuild, or at the end of the list.  It detects
  a list that is longer than the stored one (\<^verbatim>\<open>len(self.all_meshes) <= i\<close>), not
  one that is shorter.
\<close>

datatype scan = ScanRaise | ScanRebuild | ScanDone

fun scan_meshes :: "mesh list \<Rightarrow> nat \<Rightarrow> mesh list \<Rightarrow> scan" where
  "scan_meshes stored i [] = ScanDone"
| "scan_meshes stored i (mesh # rest) =
     (if time_size mesh \<noteq> 1 then ScanRaise
      else if length stored \<le> i \<or> channel_size mesh \<noteq> channel_size (stored ! i)
      then ScanRebuild
      else scan_meshes stored (Suc i) rest)"

text \<open>
  One round of the second loop of \<^verbatim>\<open>update_mesh\<close>: \<^verbatim>\<open>self.mesh_actors[i]\<close>
  raises IndexError past the last actor.

  On a bare array the first loop of \<^verbatim>\<open>update_mesh\<close> comes before the list test
  and runs over the rows of the array, which have the time and channel sizes of
  the array: a time size other than one raises IndexError at the first row;
  otherwise either a row asks for the rebuild, which raises TypeError at its
  list test, or the loop ends and the list test of \<^verbatim>\<open>update_mesh\<close> raises it.
  The model is as it was in each case.
\<close>

definition update_mesh_actor :: "nat \<Rightarrow> model \<Rightarrow> model result" where
  "update_mesh_actor i m =
     (if i < length (mesh_actors m)
      then
        let a = mesh_actors m ! i
        in (None,
            m\<lparr>mesh_actors := (mesh_actors m)
                 [i := a\<lparr>a_input := geom_SetPoints (points (all_meshes m ! i)) (a_input a)\<rparr>],
              vtk_calls := vtk_calls m @ [SetPoints (aid a)]\<rparr>)
      else (Some IndexError, m))"

function new_mesh_set :: "mesh one_or_list \<Rightarrow> model \<Rightarrow> model result"
  and update_mesh :: "mesh one_or_list \<Rightarrow> model \<Rightarrow> model result" where
  "new_mesh_set (One x) m = (Some TypeError, m)"
| "new_mesh_set (Many ms) m =
     (let m1 = m\<lparr>all_meshes := ms\<rparr>;
          m2 = fold ren_RemoveActor (mesh_actors m1) m1;
          m3 = m2\<lparr>mesh_actors := []\<rparr>
      in case for_each new_mesh_actor (all_meshes m3) m3 of
           (Some e, m4) \<Rightarrow> (Some e, m4)
         | (None, m4) \<Rightarrow> update_mesh (Many (all_meshes m4)) m4)"
| "update_mesh (One x) m =
     (if time_size x \<noteq> 1 then (Some IndexError, m) else (Some TypeError, m))"
| "update_mesh (Many ms) m =
     (case scan_meshes (all_meshes m) 0 ms of
        ScanRaise \<Rightarrow> (Some IndexError, m)
      | ScanRebuild \<Rightarrow> new_mesh_set (Many ms) m
      | ScanDone \<Rightarrow>
          let m1 = m\<lparr>all_meshes := ms\<rparr>
          in for_each update_mesh_actor [0..<length (all_meshes m1)] m1)"
  by pat_completeness auto
termination
proof -
  have self: "scan_meshes (pre @ ms) (length pre) ms \<noteq> ScanRebuild" for pre ms
  proof (induction ms arbitrary: pre)
    case Nil
    show ?case by simp
  next
    case (Cons x ms)
    from Cons.IH [of "pre @ [x]"] show ?case by simp
  qed
  have same: "scan_meshes ms 0 ms \<noteq> ScanRebuild" for ms
    using self [of "[]" ms] by simp
  show ?thesis
    by (relation "measure (\<lambda>x. case x of
          Inl (arg, m) \<Rightarrow> 1
        | Inr (arg, m) \<Rightarrow>
            (case arg of
               One x \<Rightarrow> 0
             | Many ms \<Rightarrow> if scan_meshes (all_meshes m) 0 ms = ScanRebuild then 2 else 0))")
       (simp_all add: same)
qed

definition set_mesh_color :: "vec3 \<Rightarrow> model \<Rightarrow> model result" where
  "set_mesh_color c m =
     (let m1 = m\<lparr>mesh_color := c\<rparr> in update_mesh (Many (all_meshes m1)) m1)"

definition set_mesh_opacity :: "real \<Rightarrow> model \<Rightarrow> model result" where
  "set_mesh_opacity opa m =
     (let m1 = m\<lparr>mesh_opacity := opa\<rparr> in update_mesh (Many (all_meshes m1)) m1)"

section \<open>Muscles\<close>

text \<open>
  \<^verbatim>\<open>new_muscle_set\<close> builds closed polylines over placeholder points
  \<^verbatim>\<open>[0, 0, 0]\<close>, one per channel.  \<^verbatim>\<open>set_muscle_color\<close> stores the colour and
  then calls \<^verbatim>\<open>self.update_muscles\<close>, a name the class does not define (the
  method is \<^verbatim>\<open>update_muscle\<close>): the attribute lookup raises AttributeError.
\<close>

definition add_muscle_actor :: "geom \<Rightarrow> model \<Rightarrow> model" where
  "add_muscle_actor g m =
     (case vtkActor m of (a, m1) \<Rightarrow>
        let a1 = a\<lparr>a_input := g, a_color := muscle_color m1,
                   a_opacity := muscle_opacity m1, a_line_width := 5\<rparr>
        in ren_ResetCamera (ren_AddActor a1
             (m1\<lparr>muscle_actors := muscle_actors m1 @ [a1]\<rparr>)))"

definition new_muscle_actor :: "mesh \<Rightarrow> model \<Rightarrow> model result" where
  "new_muscle_actor mesh m =
     (if time_size mesh \<noteq> 1 then (Some IndexError, m)
      else
        (case closed_polylines (triangles mesh) of
           None \<Rightarrow> (Some IndexError, m)
         | Some cells \<Rightarrow>
             (None, add_muscle_actor
                      (PolyData (replicate (channel_size mesh) (0, 0, 0)) cells [] []) m)))"

definition update_muscle_actor :: "nat \<Rightarrow> model \<Rightarrow> model result" where
  "update_muscle_actor i m =
     (if i < length (muscle_actors m)
      then
        let a = muscle_actors m ! i
        in (None,
            m\<lparr>muscle_actors := (muscle_actors m)
                 [i := a\<lparr>a_input := geom_SetPoints (points (all_muscles m ! i)) (a_input a)\<rparr>],
              vtk_calls := vtk_calls m @ [SetPoints (aid a)]\<rparr>)
      else (Some IndexError, m))"

function new_muscle_set :: "mesh one_or_list \<Rightarrow> model \<Rightarrow> model result"
  and update_muscle :: "mesh one_or_list \<Rightarrow> model \<Rightarrow> model result" where
  "new_muscle_set (One x) m = (Some TypeError, m)"
| "new_muscle_set (Many ms) m =
     (let m1 = m\<lparr>all_muscles := ms\<rparr>;
          m2 = fold ren_RemoveActor (muscle_actors m1) m1;
          m3 = m2\<lparr>muscle_actors := []\<rparr>
      in case for_each new_muscle_actor (all_muscles m3) m3 of
           (Some e, m4) \<Rightarrow> (Some e, m4)
         | (None, m4) \<Rightarrow> update_muscle (Many (all_muscles m4)) m4)"
| "update_muscle (One x) m =
     (if time_size x \<noteq> 1 then (Some IndexError, m) else (Some TypeError, m))"
| "update_muscle (Many ms) m =
     (case scan_meshes (all_muscles m) 0 ms of
        ScanRaise \<Rightarrow> (Some IndexError, m)
      | ScanRebuild \<Rightarrow> new_muscle_set (Many ms) m
      | ScanDone \<Rightarrow>
          let m1 = m\<lparr>all_muscles := ms\<rparr>
          in for_each update_muscle_actor [0..<length (all_muscles m1)] m1)"
  by pat_completeness auto
termination
proof -
  have self: "scan_meshes (pre @ ms) (length pre) ms \<noteq> ScanRebuild" for pre ms
  proof (induction ms arbitrary: pre)
    case Nil
    show ?case by simp
  next
    case (Cons x ms)
    from Cons.IH [of "pre @ [x]"] show ?case by simp
  qed
  have same: "scan_meshes ms 0 ms \<noteq> ScanRebuild" for ms
    using self [of "[]" ms] by simp
  show ?thesis
    by (relation "measure (\<lambda>x. case x of
          Inl (arg, m) \<Rightarrow> 1
        | Inr (arg, m) \<Rightarrow>
            (case arg of
               One x \<Rightarrow> 0
             | Many ms \<Rightarrow> if scan_meshes (all_muscles m) 0 ms = ScanRebuild then 2 else 0))")
       (simp_all add: same)
qed

definition set_muscle_color :: "vec3 \<Rightarrow> model \<Rightarrow> model result" where
  "set_muscle_color c m = (Some AttributeError, m\<lparr>muscle_color := c\<rparr>)"

definition set_muscle_opacity :: "real \<Rightarrow> model \<Rightarrow> model result" where
  "set_muscle_opacity opa m =
     (let m1 = m\<lparr>muscle_opacity := opa\<rparr> in update_muscle (Many (all_muscles m1)) m1)"

section \<open>Wrappings\<close>

text \<open>
  The wrappings are kept per segment.  \<^verbatim>\<open>self.all_wrappings[seg]\<close> and
  \<^verbatim>\<open>self.wrapping_actors[seg]\<close> raise IndexError for a segment past the end of
  the list, on a read and on an assignment alike.  \<^verbatim>\<open>new_wrapping_set\<close> does not
  call \<^verbatim>\<open>update_wrapping\<close> (the call is commented out in the source).
\<close>

definition add_wrapping_actor :: "nat \<Rightarrow> geom \<Rightarrow> model \<Rightarrow> model" where
  "add_wrapping_actor seg g m =
     (case vtkActor m of (a, m1) \<Rightarrow>
        let a1 = a\<lparr>a_input := g, a_color := wrapping_color m1,
                   a_opacity := wrapping_opacity m1\<rparr>
        in ren_ResetCamera (ren_AddActor a1
             (m1\<lparr>wrapping_actors :=
                   (wrapping_actors m1)[seg := wrapping_actors m1 ! seg @ [a1]]\<rparr>)))"

definition new_wrapping_actor :: "nat \<Rightarrow> mesh \<Rightarrow> model \<Rightarrow> model result" where
  "new_wrapping_actor seg wrapping m =
     (if time_size wrapping \<noteq> 1 then (Some IndexError, m)
      else
        (case closed_polylines (triangles wrapping) of
           None \<Rightarrow> (Some IndexError, m)
         | Some cells \<Rightarrow>
             (None, add_wrapping_actor seg
                      (PolyData (replicate (channel_size wrapping) (0, 0, 0)) cells [] []) m)))"

fun new_wrapping_set :: "mesh one_or_list \<Rightarrow> nat \<Rightarrow> model \<Rightarrow> model result" where
  "new_wrapping_set (One x) seg m = (Some TypeError, m)"
| "new_wrapping_set (Many ws) seg m =
     (if length (all_wrappings m) \<le> seg then (Some IndexError, m)
      else
        let m1 = m\<lparr>all_wrappings := (all_wrappings m)[seg := ws]\<rparr>
        in if length (wrapping_actors m1) \<le> seg then (Some IndexError, m1)
           else
             let m2 = fold ren_RemoveActor (wrapping_actors m1 ! seg) m1;
                 m3 = m2\<lparr>wrapping_actors := (wrapping_actors m2)[seg := []]\<rparr>
             in for_each (new_wrapping_actor seg) (all_wrappings m3 ! seg) m3)"

text \<open>
  One round of the inner loop of \<^verbatim>\<open>update_wrapping\<close>; after the rebuild the loop
  goes on (the \<^verbatim>\<open>return\<close> is commented out in the source).  For a segment
  whose payload is a bare array the inner loop runs over the rows of the array
  and ends in an exception as in \<^verbatim>\<open>update_mesh\<close>: IndexError for a time size
  other than one or a segment the model does not have, TypeError otherwise.
\<close>

definition check_wrapping :: "mesh list \<Rightarrow> nat \<Rightarrow> nat \<times> mesh \<Rightarrow> model \<Rightarrow> model result" where
  "check_wrapping wrappings seg iw m =
     (case iw of (i, wrapping) \<Rightarrow>
        if time_size wrapping \<noteq> 1 then (Some IndexError, m)
        else if length (all_wrappings m) \<le> seg then (Some IndexError, m)
        else if length (all_wrappings m ! seg) \<le> i
                \<or> channel_size wrapping \<noteq> channel_size (all_wrappings m ! seg ! i)
        then new_wrapping_set (Many wrappings) seg m
        else (None, m))"

definition update_wrapping_actor :: "nat \<Rightarrow> nat \<Rightarrow> model \<Rightarrow> model result" where
  "update_wrapping_actor seg i m =
     (if length (wrapping_actors m) \<le> seg then (Some IndexError, m)
      else if length (wrapping_actors m ! seg) \<le> i then (Some IndexError, m)
      else
        let a = wrapping_actors m ! seg ! i;
            a1 = a\<lparr>a_input := geom_SetPoints (points (all_wrappings m ! seg ! i)) (a_input a)\<rparr>
        in (None,
            m\<lparr>wrapping_actors := (wrapping_actors m)[seg := (wrapping_actors m ! seg)[i := a1]],
              vtk_calls := vtk_calls m @ [SetPoints (aid a)]\<rparr>))"

fun update_wrapping_seg :: "nat \<times> mesh one_or_list \<Rightarrow> model \<Rightarrow> model result" where
  "update_wrapping_seg (seg, One x) m =
     (if time_size x \<noteq> 1 \<or> length (all_wrappings m) \<le> seg then (Some IndexError, m)
      else (Some TypeError, m))"
| "update_wrapping_seg (seg, Many wrappings) m =
     (case for_each (check_wrapping wrappings seg) (enumerate 0 wrappings) m of
        (Some e, m1) \<Rightarrow> (Some e, m1)
      | (None, m1) \<Rightarrow>
          if length (all_wrappings m1) \<le> seg then (Some IndexError, m1)
          else
            let m2 = m1\<lparr>all_wrappings := (all_wrappings m1)[seg := wrappings]\<rparr>
            in for_each (update_wrapping_actor seg)
                 [0..<length (all_wrappings m2 ! seg)] m2)"

text \<open>
  \<^verbatim>\<open>update_wrapping\<close> takes a list with one payload per segment.  The setters
  hand it the stored lists.
\<close>

definition update_wrapping :: "mesh one_or_list list \<Rightarrow> model \<Rightarrow> model result" where
  "update_wrapping aw m =
     (let m1 = (if all_wrappings m = []
                then m\<lparr>all_wrappings := replicate (length aw) [],
                       wrapping_actors := replicate (length aw) []\<rparr>
                else m)
      in for_each update_wrapping_seg (enumerate 0 aw) m1)"

definition set_wrapping_color :: "vec3 \<Rightarrow> model \<Rightarrow> model result" where
  "set_wrapping_color c m =
     (let m1 = m\<lparr>wrapping_color := c\<rparr> in update_wrapping (map Many (all_wrappings m1)) m1)"

definition set_wrapping_opacity :: "real \<Rightarrow> model \<Rightarrow> model result" where
  "set_wrapping_opacity opa m =
     (let m1 = m\<lparr>wrapping_opacity := opa\<rparr>
      in update_wrapping (map Many (all_wrappings m1)) m1)"

section \<open>Systems of axes\<close>

text \<open>
  \<^verbatim>\<open>u + v\<close> and \<^verbatim>\<open>u * k\<close> on arrays of three float64, entry by entry.
\<close>

definition vadd :: "vec3 \<Rightarrow> vec3 \<Rightarrow> vec3" where
  "vadd u v =
     (case u of (a, b, c) \<Rightarrow> case v of (x, y, z) \<Rightarrow>
        (float64_add a x, float64_add b y, float64_add c z))"

definition vscale :: "vec3 \<Rightarrow> real \<Rightarrow> vec3" where
  "vscale u k =
     (case u of (a, b, c) \<Rightarrow> (float64_mul a k, float64_mul b k, float64_mul c k))"

text \<open>
  The three lines origin--X, origin--Y, origin--Z and their colours, as
  \<^verbatim>\<open>new_rt_set\<close> and \<^verbatim>\<open>create_global_ref_frame\<close> build them.
\<close>

definition axes_lines :: "cell list" where
  "axes_lines = [Line [Some 0, Some 1], Line [Some 0, Some 2], Line [Some 0, Some 3]]"

definition axes_colors :: "(nat \<times> nat \<times> nat) list" where
  "axes_colors = [(255, 0, 0), (0, 255, 0), (0, 0, 255)]"

definition new_rt_actor :: "rototrans \<Rightarrow> model \<Rightarrow> model result" where
  "new_rt_actor rt m =
     (if rt_time_size rt \<noteq> 1 then (Some IndexError, m)
      else
        (case vtkActor m of (a, m1) \<Rightarrow>
           let a1 = a\<lparr>a_input := PolyData [(0, 0, 0), (1, 0, 0), (0, 1, 0), (0, 0, 1)]
                                       axes_lines [] axes_colors,
                      a_line_width := rt_width m1\<rparr>
           in (None, ren_ResetCamera (ren_AddActor a1
                       (m1\<lparr>rt_actors := rt_actors m1 @ [a1]\<rparr>)))))"

text \<open>
  One round of the loop of \<^verbatim>\<open>update_rt\<close>: the time size is tested, the four
  points are computed, then \<^verbatim>\<open>self.rt_actors[i]\<close> is read.

  On a bare array \<^verbatim>\<open>len(all_rt)\<close> is the number of its rows: when it differs
  from \<^verbatim>\<open>n_rt\<close> the rebuild is called and raises TypeError at its list test,
  and when it does not, the list test of \<^verbatim>\<open>update_rt\<close> raises it.
\<close>

definition update_rt_actor :: "nat \<Rightarrow> model \<Rightarrow> model result" where
  "update_rt_actor i m =
     (let rt = all_rt m ! i
      in if rt_time_size rt \<noteq> 1 then (Some IndexError, m)
         else
           let pts = [translation rt,
                      vadd (translation rt) (vscale (col0 rt) (rt_length m)),
                      vadd (translation rt) (vscale (col1 rt) (rt_length m)),
                      vadd (translation rt) (vscale (col2 rt) (rt_length m))]
           in if i < length (rt_actors m)
              then
                let a = rt_actors m ! i
                in (None,
                    m\<lparr>rt_actors := (rt_actors m)
                         [i := a\<lparr>a_input := geom_SetPoints pts (a_input a)\<rparr>],
                      vtk_calls := vtk_calls m @ [SetPoints (aid a)]\<rparr>)
              else (Some IndexError, m))"

function new_rt_set :: "rototrans one_or_list \<Rightarrow> model \<Rightarrow> model result"
  and update_rt :: "rototrans one_or_list \<Rightarrow> model \<Rightarrow> model result" where
  "new_rt_set (One x) m = (Some TypeError, m)"
| "new_rt_set (Many rts) m =
     (let m1 = fold ren_RemoveActor (rt_actors m) m;
          m2 = m1\<lparr>rt_actors := []\<rparr>
      in case for_each new_rt_actor rts m2 of
           (Some e, m3) \<Rightarrow> (Some e, m3)
         | (None, m3) \<Rightarrow>
             let m4 = m3\<lparr>n_rt := length rts\<rparr>
             in update_rt (Many rts) m4)"
| "update_rt (One x) m = (Some TypeError, m)"
| "update_rt (Many rts) m =
     (if length rts \<noteq> n_rt m then new_rt_set (Many rts) m
      else
        let m1 = m\<lparr>all_rt := rts\<rparr>
        in for_each update_rt_actor [0..<length (all_rt m1)] m1)"
  by pat_completeness auto
termination
  by (relation "measure (\<lambda>x. case x of
        Inl (arg, m) \<Rightarrow> 1
      | Inr (arg, m) \<Rightarrow>
          (case arg of
             One x \<Rightarrow> 0
           | Many rts \<Rightarrow> if length rts \<noteq> n_rt m then 2 else 0))")
     simp_all

text \<open>
  \<^verbatim>\<open>create_global_ref_frame\<close>: the actor it makes is handed to the renderer and
  kept in no list of the model.
\<close>

definition create_global_ref_frame :: "model \<Rightarrow> model result" where
  "create_global_ref_frame m =
     (if has_global_ref_frame m then (Some RuntimeError, m)
      else
        let m1 = m\<lparr>has_global_ref_frame := True\<rparr>
        in (case vtkActor m1 of (a, m2) \<Rightarrow>
              let a1 = a\<lparr>a_input := PolyData
                           [(0, 0, 0),
                            (global_ref_frame_length m2, 0, 0),
                            (0, global_ref_frame_length m2, 0),
                            (0, 0, global_ref_frame_length m2)]
                           axes_lines [] axes_colors,
                         a_line_width := global_ref_frame_width m2\<rparr>
              in (None, ren_ResetCamera (ren_AddActor a1 m2))))"

section \<open>A new model and the calls on it\<close>

text \<open>
  \<^verbatim>\<open>__init__\<close> with its default arguments, on a renderer that holds no actor.
  The four point categories start from the library's empty \<^verbatim>\<open>Markers()\<close>, an
  array without channels; its time size is not fixed by this repository and is
  the parameter \<open>t0\<close>.
\<close>

definition Markers_empty :: "nat \<Rightarrow> frame" where
  "Markers_empty t0 = \<lparr>time_size = t0, points = []\<rparr>"

definition VtkModel_init :: "nat \<Rightarrow> model" where
  "VtkModel_init t0 =
     \<lparr>markers = Markers_empty t0,
      markers_size = 0.010,
      markers_color = (1, 1, 1),
      markers_opacity = 1.0,
      markers_actors = [],
      contacts = Markers_empty t0,
      contacts_size = 0.01,
      contacts_color = (0, 1, 0),
      contacts_opacity = 1.0,
      contacts_actors = [],
      has_global_ref_frame = False,
      global_ref_frame_length = 0.15,
      global_ref_frame_width = 5,
      global_center_of_mass = Markers_empty t0,
      global_center_of_mass_size = 0.0075,
      global_center_of_mass_color = (0, 0, 0),
      global_center_of_mass_opacity = 1.0,
      global_center_of_mass_actors = [],
      segments_center_of_mass = Markers_empty t0,
      segments_center_of_mass_size = 0.005,
      segments_center_of_mass_color = (0, 0, 0),
      segments_center_of_mass_opacity = 1.0,
      segments_center_of_mass_actors = [],
      all_rt = [],
      n_rt = 0,
      rt_length = 0.1,
      rt_width = 2,
      rt_actors = [],
      all_meshes = [],
      mesh_color = (0.89, 0.855, 0.788),
      mesh_opacity = 0.8,
      mesh_actors = [],
      all_muscles = [],
      muscle_color = (150 / 255, 15 / 255, 15 / 255),
      muscle_opacity = 1.0,
      muscle_actors = [],
      all_wrappings = [],
      wrapping_color = (0, 0, 1),
      wrapping_opacity = 1.0,
      wrapping_actors = [],
      ren_actors = [],
      next_actor = 0,
      vtk_calls = []\<rparr>"

text \<open>The methods of the class a caller may invoke, and a sequence of such calls:
  an exception ends the call that raised it and the caller goes on with the
  model as that call left it.\<close>

datatype call =
    Update_markers frame
  | New_marker_set frame
  | Set_markers_color vec3
  | Set_markers_size real
  | Set_markers_opacity real
  | Update_contacts frame
  | New_contact_set frame
  | Set_contacts_color vec3
  | Set_contacts_size real
  | Set_contacts_opacity real
  | Update_global_center_of_mass frame
  | New_global_center_of_mass_set frame
  | Set_global_center_of_mass_color vec3
  | Set_global_center_of_mass_size real
  | Set_global_center_of_mass_opacity real
  | Update_segments_center_of_mass frame
  | New_segments_center_of_mass_set frame
  | Set_segments_center_of_mass_color vec3
  | Set_segments_center_of_mass_size real
  | Set_segments_center_of_mass_opacity real
  | Update_mesh "mesh one_or_list"
  | New_mesh_set "mesh one_or_list"
  | Set_mesh_color vec3
  | Set_mesh_opacity real
  | Update_muscle "mesh one_or_list"
  | New_muscle_set "mesh one_or_list"
  | Set_muscle_color vec3
  | Set_muscle_opacity real
  | Update_wrapping "mesh one_or_list list"
  | New_wrapping_set "mesh one_or_list" nat
  | Set_wrapping_color vec3
  | Set_wrapping_opacity real
  | Update_rt "rototrans one_or_list"
  | New_rt_set "rototrans one_or_list"
  | Create_global_ref_frame

fun run :: "call \<Rightarrow> model \<Rightarrow> model result" where
  "run (Update_markers f) m = update_markers f m"
| "run (New_marker_set f) m = new_marker_set f m"
| "run (Set_markers_color c) m = set_markers_color c m"
| "run (Set_markers_size x) m = set_markers_size x m"
| "run (Set_markers_opacity x) m = set_markers_opacity x m"
| "run (Update_contacts f) m = update_contacts f m"
| "run (New_contact_set f) m = new_contact_set f m"
| "run (Set_contacts_color c) m = set_contacts_color c m"
| "run (Set_contacts_size x) m = set_contacts_size x m"
| "run (Set_contacts_opacity x) m = set_contacts_opacity x m"
| "run (Update_global_center_of_mass f) m = update_global_center_of_mass f m"
| "run (New_global_center_of_mass_set f) m = new_global_center_of_mass_set f m"
| "run (Set_global_center_of_mass_color c) m = set_global_center_of_mass_color c m"
| "run (Set_global_center_of_mass_size x) m = set_global_center_of_mass_size x m"
| "run (Set_global_center_of_mass_opacity x) m = set_global_center_of_mass_opacity x m"
| "run (Update_segments_center_of_mass f) m = update_segments_center_of_mass f m"
| "run (New_segments_center_of_mass_set f) m = new_segments_center_of_mass_set f m"
| "run (Set_segments_center_of_mass_color c) m = set_segments_center_of_mass_color c m"
| "run (Set_segments_center_of_mass_size x) m = set_segments_center_of_mass_size x m"
| "run (Set_segments_center_of_mass_opacity x) m = set_segments_center_of_mass_opacity x m"
| "run (Update_mesh a) m = update_mesh a m"
| "run (New_mesh_set a) m = new_mesh_set a m"
| "run (Set_mesh_color c) m = set_mesh_color c m"
| "run (Set_mesh_opacity x) m = set_mesh_opacity x m"
| "run (Update_muscle a) m = update_muscle a m"
| "run (New_muscle_set a) m = new_muscle_set a m"
| "run (Set_muscle_color c) m = set_muscle_color c m"
| "run (Set_muscle_opacity x) m = set_muscle_opacity x m"
| "run (Update_wrapping aw) m = update_wrapping aw m"
| "run (New_wrapping_set a seg) m = new_wrapping_set a seg m"
| "run (Set_wrapping_color c) m = set_wrapping_color c m"
| "run (Set_wrapping_opacity x) m = set_wrapping_opacity x m"
| "run (Update_rt a) m = update_rt a m"
| "run (New_rt_set a) m = new_rt_set a m"
| "run Create_global_ref_frame m = create_global_ref_frame m"

definition runs :: "call list \<Rightarrow> model \<Rightarrow> model" where
  "runs cs m = fold (\<lambda>c s. snd (run c s)) cs m"

section \<open>Vocabulary of the proofs\<close>

text \<open>
  Masks (what a category of calls may write), the models and actors the loops
  leave behind, and the conditions under which a loop goes through.
\<close>

text \<open>
  The actor \<^verbatim>\<open>vtkActor()\<close> returns, the calls the rebuild loops make for \<open>n\<close>
  new actors, and the actor as one round of a point category's update leaves it.
\<close>

definition fresh_actor :: "nat \<Rightarrow> actor" where
  "fresh_actor i =
     \<lparr>aid = i, a_input = NoInput, a_color = (1, 1, 1), a_opacity = 1, a_line_width = 1\<rparr>"

definition created_calls :: "nat \<Rightarrow> nat \<Rightarrow> vtk_call list" where
  "created_calls first n = concat (map (\<lambda>j. [AddActor (first + j), ResetCamera]) [0..<n])"

definition sphere_actor :: "frame \<Rightarrow> vec3 \<Rightarrow> real \<Rightarrow> real \<Rightarrow> nat \<Rightarrow> actor \<Rightarrow> actor" where
  "sphere_actor mk c opa r i a =
     a\<lparr>a_color := c, a_opacity := opa, a_input := SphereSource (points mk ! i) r\<rparr>"

definition mask_markers :: "model \<Rightarrow> model" where
  "mask_markers m =
     m\<lparr>markers := Markers_empty 0, markers_size := 0,
       markers_color := (0, 0, 0), markers_opacity := 0, markers_actors := [],
       ren_actors := [], next_actor := 0, vtk_calls := []\<rparr>"

text \<open>The model when the loop of the rebuild of the category has made its actors.\<close>

definition markers_created :: "frame \<Rightarrow> model \<Rightarrow> model" where
  "markers_created mk m =
     m\<lparr>markers := mk,
       markers_actors := map (\<lambda>j. fresh_actor (next_actor m + j)) [0..<channel_size mk],
       ren_actors := fold add_item (map (\<lambda>j. next_actor m + j) [0..<channel_size mk])
                       (fold remove1 (map aid (markers_actors m)) (ren_actors m)),
       next_actor := next_actor m + channel_size mk,
       vtk_calls := vtk_calls m @ map (\<lambda>a. RemoveActor (aid a)) (markers_actors m)
                    @ created_calls (next_actor m) (channel_size mk)\<rparr>"

definition mask_contacts :: "model \<Rightarrow> model" where
  "mask_contacts m =
     m\<lparr>contacts := Markers_empty 0, contacts_size := 0,
       contacts_color := (0, 0, 0), contacts_opacity := 0, contacts_actors := [],
       ren_actors := [], next_actor := 0, vtk_calls := []\<rparr>"

text \<open>The model when the loop of the rebuild of the category has made its actors.\<close>

definition contacts_created :: "frame \<Rightarrow> model \<Rightarrow> model" where
  "contacts_created mk m =
     m\<lparr>contacts := mk,
       contacts_actors := map (\<lambda>j. fresh_actor (next_actor m + j)) [0..<channel_size mk],
       ren_actors := fold add_item (map (\<lambda>j. next_actor m + j) [0..<channel_size mk])
                       (fold remove1 (map aid (contacts_actors m)) (ren_actors m)),
       next_actor := next_actor m + channel_size mk,
       vtk_calls := vtk_calls m @ map (\<lambda>a. RemoveActor (aid a)) (contacts_actors m)
                    @ created_calls (next_actor m) (channel_size mk)\<rparr>"

definition mask_global_center_of_mass :: "model \<Rightarrow> model" where
  "mask_global_center_of_mass m =
     m\<lparr>global_center_of_mass := Markers_empty 0, global_center_of_mass_size := 0,
       global_center_of_mass_color := (0, 0, 0), global_center_of_mass_opacity := 0, global_center_of_mass_actors := [],
       ren_actors := [], next_actor := 0, vtk_calls := []\<rparr>"

text \<open>The model when the loop of the rebuild of the category has made its actors.\<close>

definition global_center_of_mass_created :: "frame \<Rightarrow> model \<Rightarrow> model" where
  "global_center_of_mass_created mk m =
     m\<lparr>global_center_of_mass := mk,
       global_center_of_mass_actors := map (\<lambda>j. fresh_actor (next_actor m + j)) [0..<channel_size mk],
       ren_actors := fold add_item (map (\<lambda>j. next_actor m + j) [0..<channel_size mk])
                       (fold remove1 (map aid (global_center_of_mass_actors m)) (ren_actors m)),
       next_actor := next_actor m + channel_size mk,
       vtk_calls := vtk_calls m @ map (\<lambda>a. RemoveActor (aid a)) (global_center_of_mass_actors m)
                    @ created_calls (next_actor m) (channel_size mk)\<rparr>"

definition mask_segments_center_of_mass :: "model \<Rightarrow> model" where
  "mask_segments_center_of_mass m =
     m\<lparr>segments_center_of_mass := Markers_empty 0, segments_center_of_mass_size := 0,
       segments_center_of_mass_color := (0, 0, 0), segments_center_of_mass_opacity := 0, segments_center_of_mass_actors := [],
       ren_actors := [], next_actor := 0, vtk_calls := []\<rparr>"

text \<open>The model when the loop of the rebuild of the category has made its actors.\<close>

definition segments_center_of_mass_created :: "frame \<Rightarrow> model \<Rightarrow> model" where
  "segments_center_of_mass_created mk m =
     m\<lparr>segments_center_of_mass := mk,
       segments_center_of_mass_actors := map (\<lambda>j. fresh_actor (next_actor m + j)) [0..<channel_size mk],
       ren_actors := fold add_item (map (\<lambda>j. next_actor m + j) [0..<channel_size mk])
                       (fold remove1 (map aid (segments_center_of_mass_actors m)) (ren_actors m)),
       next_actor := next_actor m + channel_size mk,
       vtk_calls := vtk_calls m @ map (\<lambda>a. RemoveActor (aid a)) (segments_center_of_mass_actors m)
                    @ created_calls (next_actor m) (channel_size mk)\<rparr>"

definition mask_mesh :: "model \<Rightarrow> model" where
  "mask_mesh m =
     m\<lparr>all_meshes := [], mesh_color := (0, 0, 0), mesh_opacity := 0, mesh_actors := [],
       ren_actors := [], next_actor := 0, vtk_calls := []\<rparr>"

text \<open>
  A mesh the rebuild accepts, the input of the mapper it builds for it, the
  stored colour after the meshes \<open>ms\<close>, and the actor it makes for mesh \<open>j\<close>.
\<close>

definition mesh_ok :: "mesh \<Rightarrow> bool" where
  "mesh_ok mesh \<longleftrightarrow>
     time_size mesh = 1
     \<and> (if outline_branch mesh then closed_polylines (triangles mesh) \<noteq> None else True)"

definition mesh_geom :: "mesh \<Rightarrow> geom" where
  "mesh_geom mesh =
     (if outline_branch mesh
      then PolyData (points mesh)
             (case closed_polylines (triangles mesh) of None \<Rightarrow> [] | Some cells \<Rightarrow> cells) [] []
      else PolyData (points mesh) [] (map triangle_polygon (triangles mesh)) [])"

definition mesh_color_after :: "vec3 \<Rightarrow> mesh list \<Rightarrow> vec3" where
  "mesh_color_after c ms = (if list_ex outline_branch ms then (0, 0, 0) else c)"

definition mesh_actor_built :: "vec3 \<Rightarrow> real \<Rightarrow> nat \<Rightarrow> mesh list \<Rightarrow> nat \<Rightarrow> actor" where
  "mesh_actor_built c opa first ms j =
     (fresh_actor (first + j))
       \<lparr>a_input := mesh_geom (ms ! j),
        a_color := mesh_color_after c (take (Suc j) ms),
        a_opacity := opa\<rparr>"

text \<open>The model when the loop of \<^verbatim>\<open>new_mesh_set\<close> has made its actors.\<close>

definition meshes_created :: "mesh list \<Rightarrow> model \<Rightarrow> model" where
  "meshes_created ms m =
     m\<lparr>all_meshes := ms,
       mesh_color := mesh_color_after (mesh_color m) ms,
       mesh_actors :=
         map (mesh_actor_built (mesh_color m) (mesh_opacity m) (next_actor m) ms) [0..<length ms],
       ren_actors := fold add_item (map (\<lambda>j. next_actor m + j) [0..<length ms])
                       (fold remove1 (map aid (mesh_actors m)) (ren_actors m)),
       next_actor := next_actor m + length ms,
       vtk_calls := vtk_calls m @ map (\<lambda>a. RemoveActor (aid a)) (mesh_actors m)
                    @ created_calls (next_actor m) (length ms)\<rparr>"

text \<open>
  An actor whose points have been set anew, as the second loop of an update
  leaves it, and a list of actors so treated by a list of meshes.
\<close>

definition moved_actor :: "vec3 list \<Rightarrow> actor \<Rightarrow> actor" where
  "moved_actor pts a = a\<lparr>a_input := geom_SetPoints pts (a_input a)\<rparr>"

definition moved_actors :: "mesh list \<Rightarrow> actor list \<Rightarrow> actor list" where
  "moved_actors ms as =
     map (\<lambda>j. if j < length ms then moved_actor (points (ms ! j)) (as ! j) else as ! j)
       [0..<length as]"

definition mask_muscle :: "model \<Rightarrow> model" where
  "mask_muscle m =
     m\<lparr>all_muscles := [], muscle_color := (0, 0, 0), muscle_opacity := 0, muscle_actors := [],
       ren_actors := [], next_actor := 0, vtk_calls := []\<rparr>"

text \<open>
  A muscle the rebuild accepts, the input of the mapper it builds for it (over
  placeholder points), and the actor it makes for muscle \<open>j\<close>.
\<close>

definition muscle_ok :: "mesh \<Rightarrow> bool" where
  "muscle_ok mesh \<longleftrightarrow> time_size mesh = 1 \<and> closed_polylines (triangles mesh) \<noteq> None"

definition outline_cells :: "mesh \<Rightarrow> cell list" where
  "outline_cells mesh =
     (case closed_polylines (triangles mesh) of None \<Rightarrow> [] | Some cells \<Rightarrow> cells)"

definition muscle_geom :: "mesh \<Rightarrow> geom" where
  "muscle_geom mesh =
     PolyData (replicate (channel_size mesh) (0, 0, 0)) (outline_cells mesh) [] []"

definition muscle_actor_built :: "vec3 \<Rightarrow> real \<Rightarrow> nat \<Rightarrow> mesh list \<Rightarrow> nat \<Rightarrow> actor" where
  "muscle_actor_built c opa first ms j =
     (fresh_actor (first + j))
       \<lparr>a_input := muscle_geom (ms ! j), a_color := c, a_opacity := opa, a_line_width := 5\<rparr>"

text \<open>The model when the loop of \<^verbatim>\<open>new_muscle_set\<close> has made its actors.\<close>

definition muscles_created :: "mesh list \<Rightarrow> model \<Rightarrow> model" where
  "muscles_created ms m =
     m\<lparr>all_muscles := ms,
       muscle_actors :=
         map (muscle_actor_built (muscle_color m) (muscle_opacity m) (next_actor m) ms)
           [0..<length ms],
       ren_actors := fold add_item (map (\<lambda>j. next_actor m + j) [0..<length ms])
                       (fold remove1 (map aid (muscle_actors m)) (ren_actors m)),
       next_actor := next_actor m + length ms,
       vtk_calls := vtk_calls m @ map (\<lambda>a. RemoveActor (aid a)) (muscle_actors m)
                    @ created_calls (next_actor m) (length ms)\<rparr>"

definition mask_rt :: "model \<Rightarrow> model" where
  "mask_rt m =
     m\<lparr>all_rt := [], n_rt := 0, rt_actors := [],
       ren_actors := [], next_actor := 0, vtk_calls := []\<rparr>"

text \<open>
  A transform the rebuild accepts, the actor it makes for the \<open>j\<close>-th one, and
  the four points the update computes.
\<close>

definition rt_ok :: "rototrans \<Rightarrow> bool" where
  "rt_ok rt \<longleftrightarrow> rt_time_size rt = 1"

definition rt_actor_built :: "real \<Rightarrow> nat \<Rightarrow> nat \<Rightarrow> actor" where
  "rt_actor_built w first j =
     (fresh_actor (first + j))
       \<lparr>a_input := PolyData [(0, 0, 0), (1, 0, 0), (0, 1, 0), (0, 0, 1)]
                    axes_lines [] axes_colors,
        a_line_width := w\<rparr>"

definition rt_points :: "real \<Rightarrow> rototrans \<Rightarrow> vec3 list" where
  "rt_points len rt =
     [translation rt,
      vadd (translation rt) (vscale (col0 rt) len),
      vadd (translation rt) (vscale (col1 rt) len),
      vadd (translation rt) (vscale (col2 rt) len)]"

text \<open>The model when the loop of \<^verbatim>\<open>new_rt_set\<close> has made its actors.\<close>

definition rts_created :: "rototrans list \<Rightarrow> model \<Rightarrow> model" where
  "rts_created rts m =
     m\<lparr>rt_actors := map (rt_actor_built (rt_width m) (next_actor m)) [0..<length rts],
       ren_actors := fold add_item (map (\<lambda>j. next_actor m + j) [0..<length rts])
                       (fold remove1 (map aid (rt_actors m)) (ren_actors m)),
       next_actor := next_actor m + length rts,
       vtk_calls := vtk_calls m @ map (\<lambda>a. RemoveActor (aid a)) (rt_actors m)
                    @ created_calls (next_actor m) (length rts)\<rparr>"

definition moved_rt_actors :: "real \<Rightarrow> rototrans list \<Rightarrow> actor list \<Rightarrow> actor list" where
  "moved_rt_actors len rts as =
     map (\<lambda>j. if j < length rts then moved_actor (rt_points len (rts ! j)) (as ! j) else as ! j)
       [0..<length as]"

definition mask_wrapping :: "model \<Rightarrow> model" where
  "mask_wrapping m =
     m\<lparr>all_wrappings := [], wrapping_color := (0, 0, 0), wrapping_opacity := 0,
       wrapping_actors := [], ren_actors := [], next_actor := 0, vtk_calls := []\<rparr>"

definition mask_ref_frame :: "model \<Rightarrow> model" where
  "mask_ref_frame m =
     m\<lparr>has_global_ref_frame := False, ren_actors := [], next_actor := 0, vtk_calls := []\<rparr>"

text \<open>
  Every call belongs to one category and writes only the attributes of that
  category and the renderer.
\<close>

datatype category =
    CMarkers | CContacts | CGlobalCoM | CSegmentsCoM
  | CMesh | CMuscle | CWrapping | CRt | CRefFrame

fun category_of :: "call \<Rightarrow> category" where
  "category_of (Update_markers f) = CMarkers"
| "category_of (New_marker_set f) = CMarkers"
| "category_of (Set_markers_color c) = CMarkers"
| "category_of (Set_markers_size x) = CMarkers"
| "category_of (Set_markers_opacity x) = CMarkers"
| "category_of (Update_contacts f) = CContacts"
| "category_of (New_contact_set f) = CContacts"
| "category_of (Set_contacts_color c) = CContacts"
| "category_of (Set_contacts_size x) = CContacts"
| "category_of (Set_contacts_opacity x) = CContacts"
| "category_of (Update_global_center_of_mass f) = CGlobalCoM"
| "category_of (New_global_center_of_mass_set f) = CGlobalCoM"
| "category_of (Set_global_center_of_mass_color c) = CGlobalCoM"
| "category_of (Set_global_center_of_mass_size x) = CGlobalCoM"
| "category_of (Set_global_center_of_mass_opacity x) = CGlobalCoM"
| "category_of (Update_segments_center_of_mass f) = CSegmentsCoM"
| "category_of (New_segments_center_of_mass_set f) = CSegmentsCoM"
| "category_of (Set_segments_center_of_mass_color c) = CSegmentsCoM"
| "category_of (Set_segments_center_of_mass_size x) = CSegmentsCoM"
| "category_of (Set_segments_center_of_mass_opacity x) = CSegmentsCoM"
| "category_of (Update_mesh a) = CMesh"
| "category_of (New_mesh_set a) = CMesh"
| "category_of (Set_mesh_color c) = CMesh"
| "category_of (Set_mesh_opacity x) = CMesh"
| "category_of (Update_muscle a) = CMuscle"
| "category_of (New_muscle_set a) = CMuscle"
| "category_of (Set_muscle_color c) = CMuscle"
| "category_of (Set_muscle_opacity x) = CMuscle"
| "category_of (Update_wrapping aw) = CWrapping"
| "category_of (New_wrapping_set a seg) = CWrapping"
| "category_of (Set_wrapping_color c) = CWrapping"
| "category_of (Set_wrapping_opacity x) = CWrapping"
| "category_of (Update_rt a) = CRt"
| "category_of (New_rt_set a) = CRt"
| "category_of Create_global_ref_frame = CRefFrame"

fun mask_of :: "category \<Rightarrow> model \<Rightarrow> model" where
  "mask_of CMarkers = mask_markers"
| "mask_of CContacts = mask_contacts"
| "mask_of CGlobalCoM = mask_global_center_of_mass"
| "mask_of CSegmentsCoM = mask_segments_center_of_mass"
| "mask_of CMesh = mask_mesh"
| "mask_of CMuscle = mask_muscle"
| "mask_of CWrapping = mask_wrapping"
| "mask_of CRt = mask_rt"
| "mask_of CRefFrame = mask_ref_frame"

text \<open>
  A push on the fast path of every segment: no more segments than stored, every
  wrapping with one time sample and the channel count of the stored one in its
  place, and an actor for each.  The model such a push leaves.
\<close>

definition wrapping_fast :: "mesh list list \<Rightarrow> model \<Rightarrow> bool" where
  "wrapping_fast aw m \<longleftrightarrow>
     length aw \<le> length (all_wrappings m)
     \<and> length aw \<le> length (wrapping_actors m)
     \<and> list_all (\<lambda>seg. scan_meshes (all_wrappings m ! seg) 0 (aw ! seg) = ScanDone
                       \<and> length (aw ! seg) \<le> length (wrapping_actors m ! seg))
         [0..<length aw]"

definition wrappings_moved :: "mesh list list \<Rightarrow> model \<Rightarrow> model" where
  "wrappings_moved aw m =
     m\<lparr>all_wrappings :=
         map (\<lambda>j. if j < length aw then aw ! j else all_wrappings m ! j)
           [0..<length (all_wrappings m)],
       wrapping_actors :=
         map (\<lambda>j. if j < length aw then moved_actors (aw ! j) (wrapping_actors m ! j)
                   else wrapping_actors m ! j)
           [0..<length (wrapping_actors m)],
       vtk_calls := vtk_calls m
         @ concat (map (\<lambda>j. map (\<lambda>a. SetPoints (aid a))
                               (take (length (aw ! j)) (wrapping_actors m ! j)))
                    [0..<length aw])\<rparr>"

text \<open>
  A wrapping the rebuild accepts and the actor it makes for wrapping \<open>j\<close>, over
  placeholder points.
\<close>

definition wrapping_ok :: "mesh \<Rightarrow> bool" where
  "wrapping_ok w \<longleftrightarrow> time_size w = 1 \<and> closed_polylines (triangles w) \<noteq> None"

definition wrapping_actor_built :: "vec3 \<Rightarrow> real \<Rightarrow> nat \<Rightarrow> mesh list \<Rightarrow> nat \<Rightarrow> actor" where
  "wrapping_actor_built c opa first ws j =
     (fresh_actor (first + j))
       \<lparr>a_input := PolyData (replicate (channel_size (ws ! j)) (0, 0, 0))
                    (outline_cells (ws ! j)) [] [],
        a_color := c, a_opacity := opa\<rparr>"





fun is_set_mesh_color :: "call \<Rightarrow> bool" where
  "is_set_mesh_color (Set_mesh_color c) = True"
| "is_set_mesh_color _ = False"

section \<open>Rounding in float64\<close>

lemma pow2_powr: "pow2 e = 2 powr (real_of_int e)"
  by (simp add: pow2_def powr_real_of_int inverse_eq_divide)

lemma pow2_mono: "a \<le> b \<Longrightarrow> pow2 a \<le> pow2 b"
  by (simp add: pow2_powr)

lemma pow2_pos: "0 < pow2 e"
  by (simp add: pow2_powr)

lemma find_append_none:
  "find P xs = None \<Longrightarrow> find P (xs @ ys) = find P ys"
  by (induction xs) (simp_all split: if_splits)

lemma find_rev_upto:
  assumes "P e" and "a \<le> e" and "e \<le> b" and "\<And>k. e < k \<Longrightarrow> k \<le> b \<Longrightarrow> \<not> P k"
  shows "find P (rev [a..b]) = Some e"
proof -
  from assms(2,3) have "[a..b] = [a..e - 1] @ e # [e + 1..b]" by (rule upto_split3)
  then have r: "rev [a..b] = rev [e + 1..b] @ (e # rev [a..e - 1])" by simp
  have "find P (rev [e + 1..b]) = None"
    using assms(4) by (auto simp: find_None_iff)
  from find_append_none [OF this] assms(1) show ?thesis by (simp add: r)
qed

text \<open>
  The rounding of a number whose exponent is known, and of zero.
\<close>

lemma float64_exponent_eq:
  assumes "pow2 e \<le> \<bar>x\<bar>" and "\<bar>x\<bar> < pow2 (e + 1)" and "-1022 \<le> e" and "e \<le> 1023"
  shows "float64_exponent x = e"
proof -
  have "find (\<lambda>e. pow2 e \<le> \<bar>x\<bar>) (rev [-1022..1023]) = Some e"
  proof (rule find_rev_upto)
    fix k assume "e < k"
    then have "pow2 (e + 1) \<le> pow2 k" by (intro pow2_mono) simp
    with assms(2) show "\<not> pow2 k \<le> \<bar>x\<bar>" by simp
  qed (use assms in simp_all)
  then show ?thesis unfolding float64_exponent_def by (simp only: option.case)
qed

lemma float64_eval:
  assumes "pow2 e \<le> \<bar>x\<bar>" and "\<bar>x\<bar> < pow2 (e + 1)" and "-1022 \<le> e" and "e \<le> 1023"
  shows "float64 x = of_int (round_half_even (x / pow2 (e - 52))) * pow2 (e - 52)"
  by (simp add: float64_def float64_exponent_eq [OF assms] Let_def)

lemma float64_zero: "float64 0 = 0"
  by (simp add: float64_def round_half_even_def Let_def)

text \<open>
  An axis tip that is not the exact sum: with the translation 0.1, the column
  entry -0.8 and the axis length 0.1, Python computes
  \<^verbatim>\<open>0.1 + (-0.8) * 0.1 = 0.01999999999999999\<close>, which is
  \<open>720575940379279 / 2 ^ 55\<close>, and not 0.02.
\<close>

lemma float64_tenth: "float64 (1 / 10) = 3602879701896397 / 2 ^ 55"
  by (subst float64_eval [of "-4"]) (simp_all add: pow2_def round_half_even_def Let_def)

lemma float64_tenth_again: "float64 (3602879701896397 / 2 ^ 55) = 3602879701896397 / 2 ^ 55"
  by (subst float64_eval [of "-4"]) (simp_all add: pow2_def round_half_even_def Let_def)

lemma float64_four_fifths: "float64 (- 4 / 5) = - 3602879701896397 / 2 ^ 52"
  by (subst float64_eval [of "-1"]) (simp_all add: pow2_def round_half_even_def Let_def)

lemma float64_product:
  "float64 ((- 3602879701896397 / 2 ^ 52) * (3602879701896397 / 2 ^ 55))
   = - 1441151880758559 / 2 ^ 54"
  by (subst float64_eval [of "-4"]) (simp_all add: pow2_def round_half_even_def Let_def)

lemma float64_product_again:
  "float64 (- 1441151880758559 / 2 ^ 54) = - 1441151880758559 / 2 ^ 54"
  by (subst float64_eval [of "-4"]) (simp_all add: pow2_def round_half_even_def Let_def)

lemma float64_sum:
  "float64 (3602879701896397 / 2 ^ 55 + (- 1441151880758559 / 2 ^ 54))
   = 720575940379279 / 2 ^ 55"
  by (subst float64_eval [of "-6"]) (simp_all add: pow2_def round_half_even_def Let_def)

lemma axis_tip_is_rounded:
  "vadd (1 / 10, 0, 0) (vscale (- 4 / 5, 0, 0) (1 / 10)) = (720575940379279 / 2 ^ 55, 0, 0)"
  "vadd (1 / 10, 0, 0) (vscale (- 4 / 5, 0, 0) (1 / 10)) \<noteq> (1 / 50, 0, 0)"
proof -
  show "vadd (1 / 10, 0, 0) (vscale (- 4 / 5, 0, 0) (1 / 10)) = (720575940379279 / 2 ^ 55, 0, 0)"
    unfolding vadd_def vscale_def float64_add_def float64_mul_def
    by (simp only: prod.case float64_tenth float64_tenth_again float64_four_fifths
        float64_product float64_product_again float64_sum float64_zero mult_zero_left add_0_left)
  then show "vadd (1 / 10, 0, 0) (vscale (- 4 / 5, 0, 0) (1 / 10)) \<noteq> (1 / 50, 0, 0)"
    by simp
qed

section \<open>Loops\<close>

text \<open>
  A loop over \<open>0, \<dots>, n - 1\<close> whose \<open>k\<close>-th round takes the state \<open>S k\<close> to
  \<open>S (k + 1)\<close> ends in \<open>S n\<close>; if round \<open>j\<close> raises, the loop raises there.
\<close>

lemma for_each_upt:
  assumes "\<And>k. k < n \<Longrightarrow> body k (S k) = (None, S (Suc k))"
  shows "for_each body [0..<n] (S 0) = (None, S n)"
proof -
  have "for_each body [j..<n] (S j) = (None, S n)" if "j \<le> n" for j
    using that
  proof (induction "n - j" arbitrary: j)
    case 0
    then show ?case by simp
  next
    case (Suc d)
    then have lt: "j < n" by simp
    from Suc have "for_each body [Suc j..<n] (S (Suc j)) = (None, S n)" by simp
    with assms [OF lt] lt show ?case by (simp add: upt_conv_Cons)
  qed
  from this [of 0] show ?thesis by simp
qed

lemma for_each_upt_raise:
  assumes "\<And>k. k < j \<Longrightarrow> body k (S k) = (None, S (Suc k))"
    and "j < n" and "body j (S j) = (Some e, s')"
  shows "for_each body [0..<n] (S 0) = (Some e, s')"
proof -
  have "for_each body [i..<n] (S i) = (Some e, s')" if "i \<le> j" for i
    using that
  proof (induction "j - i" arbitrary: i)
    case 0
    then have "i = j" by simp
    with assms(2,3) show ?case by (simp add: upt_conv_Cons)
  next
    case (Suc d)
    then have lt: "i < j" by simp
    from Suc have "for_each body [Suc i..<n] (S (Suc i)) = (Some e, s')" by simp
    with assms(1) [OF lt] lt assms(2) show ?case by (simp add: upt_conv_Cons)
  qed
  from this [of 0] show ?thesis by simp
qed

lemma fold_upt:
  assumes "\<And>k. k < n \<Longrightarrow> step k (S k) = S (Suc k)"
  shows "fold step [0..<n] (S 0) = S n"
proof -
  have "fold step [j..<n] (S j) = S n" if "j \<le> n" for j
    using that
  proof (induction "n - j" arbitrary: j)
    case 0
    then show ?case by simp
  next
    case (Suc d)
    then have lt: "j < n" by simp
    from Suc have "fold step [Suc j..<n] (S (Suc j)) = S n" by simp
    with assms [OF lt] lt show ?case by (simp add: upt_conv_Cons)
  qed
  from this [of 0] show ?thesis by simp
qed

text \<open>What every round of a loop keeps, the loop keeps, whether it raises or not.\<close>

lemma for_each_preserves:
  assumes "\<And>x s. P (snd (body x s)) = P s"
  shows "P (snd (for_each body xs s)) = P s"
proof (induction xs arbitrary: s)
  case Nil
  show ?case by simp
next
  case (Cons x xs)
  obtain r s' where b: "body x s = (r, s')" by (cases "body x s")
  from assms [of x s] b have p: "P s' = P s" by simp
  show ?case
  proof (cases r)
    case None
    with b Cons.IH [of s'] p show ?thesis by simp
  next
    case (Some e)
    with b p show ?thesis by simp
  qed
qed

lemma fold_ren_RemoveActor:
  "fold ren_RemoveActor as m =
     m\<lparr>ren_actors := fold remove1 (map aid as) (ren_actors m),
       vtk_calls := vtk_calls m @ map (\<lambda>a. RemoveActor (aid a)) as\<rparr>"
  by (induction as arbitrary: m) (simp_all add: ren_RemoveActor_def)

section \<open>The point categories, step by step\<close>

subsection \<open>Markers\<close>

declare new_marker_set.simps [simp del] update_markers.simps [simp del]

lemma fold_new_marker_actor:
  "fold new_marker_actor [0..<n] m =
     m\<lparr>markers_actors := markers_actors m @ map (\<lambda>j. fresh_actor (next_actor m + j)) [0..<n],
       ren_actors := fold add_item (map (\<lambda>j. next_actor m + j) [0..<n]) (ren_actors m),
       next_actor := next_actor m + n,
       vtk_calls := vtk_calls m @ created_calls (next_actor m) n\<rparr>"
proof -
  let ?S = "\<lambda>k. m\<lparr>markers_actors := markers_actors m @ map (\<lambda>j. fresh_actor (next_actor m + j)) [0..<k],
       ren_actors := fold add_item (map (\<lambda>j. next_actor m + j) [0..<k]) (ren_actors m),
       next_actor := next_actor m + k,
       vtk_calls := vtk_calls m @ created_calls (next_actor m) k\<rparr>"
  have "fold new_marker_actor [0..<n] (?S 0) = ?S n"
    by (rule fold_upt)
       (simp add: new_marker_actor_def vtkActor_def ren_AddActor_def ren_ResetCamera_def
          fresh_actor_def created_calls_def)
  then show ?thesis by (simp add: created_calls_def)
qed

lemma update_marker_actor_step:
  "k < channel_size mk \<Longrightarrow>
   update_marker_actor mk k s =
     (None,
      s\<lparr>markers_actors := (markers_actors s)
           [k := sphere_actor mk (markers_color s) (markers_opacity s) (markers_size s) k
                   (markers_actors s ! k)],
        vtk_calls := vtk_calls s @ [SetInputConnection (aid (markers_actors s ! k))]\<rparr>)"
  by (simp add: update_marker_actor_def Let_def sphere_actor_def)

lemma update_marker_actor_stop:
  "\<not> k < channel_size mk \<Longrightarrow> fst (update_marker_actor mk k s) = Some IndexError"
  by (simp add: update_marker_actor_def Let_def)

lemma update_marker_actor_rounds:
  fixes m :: model and mk :: frame
  defines "as \<equiv> markers_actors m"
  defines "G \<equiv> sphere_actor mk (markers_color m) (markers_opacity m) (markers_size m)"
  defines "S \<equiv> \<lambda>k. m\<lparr>markers_actors := map (\<lambda>j. if j < k then G j (as ! j) else as ! j) [0..<length as],
             vtk_calls := vtk_calls m @ map (\<lambda>j. SetInputConnection (aid (as ! j))) [0..<k]\<rparr>"
  assumes "k < length as" and "k < channel_size mk"
  shows "update_marker_actor mk k (S k) = (None, S (Suc k))"
proof -
  have l: "(map (\<lambda>j. if j < k then G j (as ! j) else as ! j) [0..<length as])[k := G k (as ! k)]
          = map (\<lambda>j. if j < Suc k then G j (as ! j) else as ! j) [0..<length as]"
    using assms(4) by (intro nth_equalityI) (auto simp: nth_list_update less_Suc_eq)
  from update_marker_actor_step [OF assms(5), of "S k"]
  have "update_marker_actor mk k (S k) =
     (None, (S k)\<lparr>markers_actors := (markers_actors (S k))[k := G k (markers_actors (S k) ! k)],
                  vtk_calls := vtk_calls (S k) @ [SetInputConnection (aid (markers_actors (S k) ! k))]\<rparr>)"
    by (simp add: S_def G_def)
  also have "\<dots> = (None, S (Suc k))"
    using assms(4) by (simp add: S_def l)
  finally show ?thesis .
qed

lemma update_marker_actor_pass:
  assumes "length (markers_actors m) \<le> channel_size mk"
  shows "for_each (update_marker_actor mk) [0..<length (markers_actors m)] m =
     (None,
      m\<lparr>markers_actors :=
          map (\<lambda>j. sphere_actor mk (markers_color m) (markers_opacity m) (markers_size m) j
                     (markers_actors m ! j)) [0..<length (markers_actors m)],
        vtk_calls := vtk_calls m @ map (\<lambda>a. SetInputConnection (aid a)) (markers_actors m)\<rparr>)"
proof -
  define as where "as = markers_actors m"
  define G where "G = sphere_actor mk (markers_color m) (markers_opacity m) (markers_size m)"
  define S where "S = (\<lambda>k. m\<lparr>markers_actors := map (\<lambda>j. if j < k then G j (as ! j) else as ! j) [0..<length as],
             vtk_calls := vtk_calls m @ map (\<lambda>j. SetInputConnection (aid (as ! j))) [0..<k]\<rparr>)"
  have "for_each (update_marker_actor mk) [0..<length as] (S 0) = (None, S (length as))"
  proof (rule for_each_upt)
    fix k assume "k < length as"
    moreover from this assms have "k < channel_size mk" by (simp add: as_def)
    ultimately show "update_marker_actor mk k (S k) = (None, S (Suc k))"
      unfolding S_def G_def as_def by (rule update_marker_actor_rounds)
  qed
  moreover have "S 0 = m"
    unfolding S_def as_def by (simp add: map_nth)
  moreover have "S (length as) =
      m\<lparr>markers_actors := map (\<lambda>j. G j (as ! j)) [0..<length as],
        vtk_calls := vtk_calls m @ map (\<lambda>a. SetInputConnection (aid a)) as\<rparr>"
  proof -
    have "map (\<lambda>j. if j < length as then G j (as ! j) else as ! j) [0..<length as]
          = map (\<lambda>j. G j (as ! j)) [0..<length as]"
      by simp
    moreover have "map (\<lambda>j. SetInputConnection (aid (as ! j))) [0..<length as]
          = map (\<lambda>a. SetInputConnection (aid a)) as"
      by (intro nth_equalityI) simp_all
    ultimately show ?thesis unfolding S_def by (simp only:)
  qed
  ultimately show ?thesis unfolding G_def as_def by (simp only:)
qed

lemma update_marker_actor_pass_raise:
  assumes "channel_size mk < length (markers_actors m)"
  shows "fst (for_each (update_marker_actor mk) [0..<length (markers_actors m)] m) = Some IndexError"
proof -
  define as where "as = markers_actors m"
  define G where "G = sphere_actor mk (markers_color m) (markers_opacity m) (markers_size m)"
  define S where "S = (\<lambda>k. m\<lparr>markers_actors := map (\<lambda>j. if j < k then G j (as ! j) else as ! j) [0..<length as],
             vtk_calls := vtk_calls m @ map (\<lambda>j. SetInputConnection (aid (as ! j))) [0..<k]\<rparr>)"
  obtain e s' where last: "update_marker_actor mk (channel_size mk) (S (channel_size mk)) = (e, s')"
    by (cases "update_marker_actor mk (channel_size mk) (S (channel_size mk))")
  with update_marker_actor_stop [of "channel_size mk" mk "S (channel_size mk)"]
  have last': "update_marker_actor mk (channel_size mk) (S (channel_size mk)) = (Some IndexError, s')"
    by simp
  have "for_each (update_marker_actor mk) [0..<length as] (S 0) = (Some IndexError, s')"
  proof (rule for_each_upt_raise [where j = "channel_size mk"])
    fix k assume k: "k < channel_size mk"
    with assms have "k < length as" by (simp add: as_def)
    then show "update_marker_actor mk k (S k) = (None, S (Suc k))"
      using k unfolding S_def G_def as_def by (rule update_marker_actor_rounds)
  next
    show "channel_size mk < length as" using assms by (simp add: as_def)
  next
    show "update_marker_actor mk (channel_size mk) (S (channel_size mk)) = (Some IndexError, s')"
      by (rule last')
  qed
  moreover have "S 0 = m"
    unfolding S_def as_def by (simp add: map_nth)
  ultimately show ?thesis unfolding as_def by (simp only: fst_conv)
qed

lemma update_marker_actor_keeps:
  "markers (snd (update_marker_actor mk i m)) = markers m"
  "length (markers_actors (snd (update_marker_actor mk i m))) = length (markers_actors m)"
  "mask_markers (snd (update_marker_actor mk i m)) = mask_markers m"
  by (simp_all add: update_marker_actor_def Let_def mask_markers_def)

lemma new_marker_set_unfold:
  "new_marker_set mk m =
     (if time_size mk \<noteq> 1 then (Some IndexError, m)
      else update_markers mk (markers_created mk m))"
proof -
  have "fold new_marker_actor [0..<channel_size mk]
          ((fold ren_RemoveActor (markers_actors (m\<lparr>markers := mk\<rparr>)) (m\<lparr>markers := mk\<rparr>))
             \<lparr>markers_actors := []\<rparr>) = markers_created mk m"
    by (simp add: fold_ren_RemoveActor fold_new_marker_actor markers_created_def)
  moreover have "markers (markers_created mk m) = mk"
    by (simp add: markers_created_def)
  ultimately show ?thesis
    by (subst new_marker_set.simps) (simp only: Let_def)
qed

lemma update_markers_raise:
  "time_size mk \<noteq> 1 \<Longrightarrow> update_markers mk m = (Some IndexError, m)"
  by (subst update_markers.simps) simp

lemma update_markers_rebuild:
  "time_size mk = 1 \<Longrightarrow> channel_size mk \<noteq> channel_size (markers m) \<Longrightarrow>
   update_markers mk m = new_marker_set mk m"
  by (subst update_markers.simps) simp

lemma update_markers_pass:
  "time_size mk = 1 \<Longrightarrow> channel_size mk = channel_size (markers m) \<Longrightarrow>
   update_markers mk m =
     for_each (update_marker_actor mk) [0..<length (markers_actors m)] (m\<lparr>markers := mk\<rparr>)"
  by (subst update_markers.simps) (simp add: Let_def)

lemma update_markers_fast:
  assumes "time_size mk = 1" and "channel_size mk = channel_size (markers m)"
    and "length (markers_actors m) \<le> channel_size mk"
  shows "update_markers mk m =
     (None,
      m\<lparr>markers := mk,
        markers_actors :=
          map (\<lambda>j. sphere_actor mk (markers_color m) (markers_opacity m) (markers_size m) j
                     (markers_actors m ! j)) [0..<length (markers_actors m)],
        vtk_calls := vtk_calls m @ map (\<lambda>a. SetInputConnection (aid a)) (markers_actors m)\<rparr>)"
proof -
  from assms(3) have "length (markers_actors (m\<lparr>markers := mk\<rparr>)) \<le> channel_size mk" by simp
  from update_marker_actor_pass [OF this] update_markers_pass [OF assms(1,2)] show ?thesis by simp
qed

lemma new_marker_set_exact:
  assumes "time_size mk = 1" and "time_size mk = 1"
  shows "new_marker_set mk m =
     (None,
      m\<lparr>markers := mk,
        markers_actors :=
          map (\<lambda>j. sphere_actor mk (markers_color m) (markers_opacity m) (markers_size m) j
                     (fresh_actor (next_actor m + j))) [0..<channel_size mk],
        ren_actors := fold add_item (map (\<lambda>j. next_actor m + j) [0..<channel_size mk])
                        (fold remove1 (map aid (markers_actors m)) (ren_actors m)),
        next_actor := next_actor m + channel_size mk,
        vtk_calls := vtk_calls m @ map (\<lambda>a. RemoveActor (aid a)) (markers_actors m)
                     @ created_calls (next_actor m) (channel_size mk)
                     @ map (\<lambda>j. SetInputConnection (next_actor m + j)) [0..<channel_size mk]\<rparr>)"
proof -
  let ?c = "markers_created mk m"
  have "new_marker_set mk m = update_markers mk ?c"
    using assms(1) by (simp add: new_marker_set_unfold)
  also have "\<dots> = (None,
      ?c\<lparr>markers := mk,
        markers_actors :=
          map (\<lambda>j. sphere_actor mk (markers_color ?c) (markers_opacity ?c) (markers_size ?c) j
                     (markers_actors ?c ! j)) [0..<length (markers_actors ?c)],
        vtk_calls := vtk_calls ?c @ map (\<lambda>a. SetInputConnection (aid a)) (markers_actors ?c)\<rparr>)"
    using assms(2) by (intro update_markers_fast) (simp_all add: markers_created_def)
  finally show ?thesis
    by (simp add: markers_created_def fresh_actor_def o_def)
qed

lemma new_marker_set_raise_late:
  assumes "time_size mk = 1" and "time_size mk \<noteq> 1"
  shows "new_marker_set mk m = (Some IndexError, markers_created mk m)"
  using assms by (simp add: new_marker_set_unfold update_markers_raise)

lemma mask_markers_created: "mask_markers (markers_created mk m) = mask_markers m"
  by (simp add: mask_markers_def markers_created_def)

lemma mask_update_markers_pass:
  "mask_markers (snd (for_each (update_marker_actor mk) is m)) = mask_markers m"
  by (rule for_each_preserves) (rule update_marker_actor_keeps)

lemma mask_update_markers: "mask_markers (snd (update_markers mk m)) = mask_markers m"
proof -
  have pass: "mask_markers (snd (update_markers mk s)) = mask_markers s"
    if "channel_size mk = channel_size (markers s)" for s
  proof (cases "time_size mk = 1")
    case True
    from update_markers_pass [OF True that] show ?thesis
      by (simp add: mask_update_markers_pass) (simp add: mask_markers_def)
  next
    case False
    then show ?thesis by (simp add: update_markers_raise)
  qed
  show ?thesis
  proof (cases "time_size mk = 1 \<and> channel_size mk \<noteq> channel_size (markers m)")
    case True
    then have "update_markers mk m = new_marker_set mk m" by (simp add: update_markers_rebuild)
    moreover have "mask_markers (snd (update_markers mk (markers_created mk m))) = mask_markers m"
      using pass [of "markers_created mk m"] by (simp add: markers_created_def mask_markers_created [unfolded markers_created_def])
    ultimately show ?thesis by (simp add: new_marker_set_unfold)
  next
    case False
    then consider "time_size mk \<noteq> 1" | "channel_size mk = channel_size (markers m)" by blast
    then show ?thesis
    proof cases
      case 1
      then show ?thesis by (simp add: update_markers_raise)
    next
      case 2
      then show ?thesis by (rule pass)
    qed
  qed
qed

lemma mask_new_marker_set: "mask_markers (snd (new_marker_set mk m)) = mask_markers m"
  by (simp add: new_marker_set_unfold mask_update_markers mask_markers_created)





lemma mask_set_markers:
  "mask_markers (snd (set_markers_color c m)) = mask_markers m"
  "mask_markers (snd (set_markers_size x m)) = mask_markers m"
  "mask_markers (snd (set_markers_opacity x m)) = mask_markers m"
  using mask_update_markers [of "markers m" "m\<lparr>markers_color := c\<rparr>"]
    mask_update_markers [of "markers m" "m\<lparr>markers_size := x\<rparr>"]
    mask_update_markers [of "markers m" "m\<lparr>markers_opacity := x\<rparr>"]
  by (simp_all add: set_markers_color_def set_markers_size_def set_markers_opacity_def mask_markers_def)


subsection \<open>Contacts\<close>

declare new_contact_set.simps [simp del] update_contacts.simps [simp del]

lemma fold_new_contact_actor:
  "fold new_contact_actor [0..<n] m =
     m\<lparr>contacts_actors := contacts_actors m @ map (\<lambda>j. fresh_actor (next_actor m + j)) [0..<n],
       ren_actors := fold add_item (map (\<lambda>j. next_actor m + j) [0..<n]) (ren_actors m),
       next_actor := next_actor m + n,
       vtk_calls := vtk_calls m @ created_calls (next_actor m) n\<rparr>"
proof -
  let ?S = "\<lambda>k. m\<lparr>contacts_actors := contacts_actors m @ map (\<lambda>j. fresh_actor (next_actor m + j)) [0..<k],
       ren_actors := fold add_item (map (\<lambda>j. next_actor m + j) [0..<k]) (ren_actors m),
       next_actor := next_actor m + k,
       vtk_calls := vtk_calls m @ created_calls (next_actor m) k\<rparr>"
  have "fold new_contact_actor [0..<n] (?S 0) = ?S n"
    by (rule fold_upt)
       (simp add: new_contact_actor_def vtkActor_def ren_AddActor_def ren_ResetCamera_def
          fresh_actor_def created_calls_def)
  then show ?thesis by (simp add: created_calls_def)
qed

lemma update_contact_actor_step:
  "k < channel_size mk \<Longrightarrow>
   update_contact_actor mk k s =
     (None,
      s\<lparr>contacts_actors := (contacts_actors s)
           [k := sphere_actor mk (contacts_color s) (contacts_opacity s) (contacts_size s) k
                   (contacts_actors s ! k)],
        vtk_calls := vtk_calls s @ [SetInputConnection (aid (contacts_actors s ! k))]\<rparr>)"
  by (simp add: update_contact_actor_def Let_def sphere_actor_def)

lemma update_contact_actor_stop:
  "\<not> k < channel_size mk \<Longrightarrow> fst (update_contact_actor mk k s) = Some IndexError"
  by (simp add: update_contact_actor_def Let_def)

lemma update_contact_actor_rounds:
  fixes m :: model and mk :: frame
  defines "as \<equiv> contacts_actors m"
  defines "G \<equiv> sphere_actor mk (contacts_color m) (contacts_opacity m) (contacts_size m)"
  defines "S \<equiv> \<lambda>k. m\<lparr>contacts_actors := map (\<lambda>j. if j < k then G j (as ! j) else as ! j) [0..<length as],
             vtk_calls := vtk_calls m @ map (\<lambda>j. SetInputConnection (aid (as ! j))) [0..<k]\<rparr>"
  assumes "k < length as" and "k < channel_size mk"
  shows "update_contact_actor mk k (S k) = (None, S (Suc k))"
proof -
  have l: "(map (\<lambda>j. if j < k then G j (as ! j) else as ! j) [0..<length as])[k := G k (as ! k)]
          = map (\<lambda>j. if j < Suc k then G j (as ! j) else as ! j) [0..<length as]"
    using assms(4) by (intro nth_equalityI) (auto simp: nth_list_update less_Suc_eq)
  from update_contact_actor_step [OF assms(5), of "S k"]
  have "update_contact_actor mk k (S k) =
     (None, (S k)\<lparr>contacts_actors := (contacts_actors (S k))[k := G k (contacts_actors (S k) ! k)],
                  vtk_calls := vtk_calls (S k) @ [SetInputConnection (aid (contacts_actors (S k) ! k))]\<rparr>)"
    by (simp add: S_def G_def)
  also have "\<dots> = (None, S (Suc k))"
    using assms(4) by (simp add: S_def l)
  finally show ?thesis .
qed

lemma update_contact_actor_pass:
  assumes "length (contacts_actors m) \<le> channel_size mk"
  shows "for_each (update_contact_actor mk) [0..<length (contacts_actors m)] m =
     (None,
      m\<lparr>contacts_actors :=
          map (\<lambda>j. sphere_actor mk (contacts_color m) (contacts_opacity m) (contacts_size m) j
                     (contacts_actors m ! j)) [0..<length (contacts_actors m)],
        vtk_calls := vtk_calls m @ map (\<lambda>a. SetInputConnection (aid a)) (contacts_actors m)\<rparr>)"
proof -
  define as where "as = contacts_actors m"
  define G where "G = sphere_actor mk (contacts_color m) (contacts_opacity m) (contacts_size m)"
  define S where "S = (\<lambda>k. m\<lparr>contacts_actors := map (\<lambda>j. if j < k then G j (as ! j) else as ! j) [0..<length as],
             vtk_calls := vtk_calls m @ map (\<lambda>j. SetInputConnection (aid (as ! j))) [0..<k]\<rparr>)"
  have "for_each (update_contact_actor mk) [0..<length as] (S 0) = (None, S (length as))"
  proof (rule for_each_upt)
    fix k assume "k < length as"
    moreover from this assms have "k < channel_size mk" by (simp add: as_def)
    ultimately show "update_contact_actor mk k (S k) = (None, S (Suc k))"
      unfolding S_def G_def as_def by (rule update_contact_actor_rounds)
  qed
  moreover have "S 0 = m"
    unfolding S_def as_def by (simp add: map_nth)
  moreover have "S (length as) =
      m\<lparr>contacts_actors := map (\<lambda>j. G j (as ! j)) [0..<length as],
        vtk_calls := vtk_calls m @ map (\<lambda>a. SetInputConnection (aid a)) as\<rparr>"
  proof -
    have "map (\<lambda>j. if j < length as then G j (as ! j) else as ! j) [0..<length as]
          = map (\<lambda>j. G j (as ! j)) [0..<length as]"
      by simp
    moreover have "map (\<lambda>j. SetInputConnection (aid (as ! j))) [0..<length as]
          = map (\<lambda>a. SetInputConnection (aid a)) as"
      by (intro nth_equalityI) simp_all
    ultimately show ?thesis unfolding S_def by (simp only:)
  qed
  ultimately show ?thesis unfolding G_def as_def by (simp only:)
qed

lemma update_contact_actor_pass_raise:
  assumes "channel_size mk < length (contacts_actors m)"
  shows "fst (for_each (update_contact_actor mk) [0..<length (contacts_actors m)] m) = Some IndexError"
proof -
  define as where "as = contacts_actors m"
  define G where "G = sphere_actor mk (contacts_color m) (contacts_opacity m) (contacts_size m)"
  define S where "S = (\<lambda>k. m\<lparr>contacts_actors := map (\<lambda>j. if j < k then G j (as ! j) else as ! j) [0..<length as],
             vtk_calls := vtk_calls m @ map (\<lambda>j. SetInputConnection (aid (as ! j))) [0..<k]\<rparr>)"
  obtain e s' where last: "update_contact_actor mk (channel_size mk) (S (channel_size mk)) = (e, s')"
    by (cases "update_contact_actor mk (channel_size mk) (S (channel_size mk))")
  with update_contact_actor_stop [of "channel_size mk" mk "S (channel_size mk)"]
  have last': "update_contact_actor mk (channel_size mk) (S (channel_size mk)) = (Some IndexError, s')"
    by simp
  have "for_each (update_contact_actor mk) [0..<length as] (S 0) = (Some IndexError, s')"
  proof (rule for_each_upt_raise [where j = "channel_size mk"])
    fix k assume k: "k < channel_size mk"
    with assms have "k < length as" by (simp add: as_def)
    then show "update_contact_actor mk k (S k) = (None, S (Suc k))"
      using k unfolding S_def G_def as_def by (rule update_contact_actor_rounds)
  next
    show "channel_size mk < length as" using assms by (simp add: as_def)
  next
    show "update_contact_actor mk (channel_size mk) (S (channel_size mk)) = (Some IndexError, s')"
      by (rule last')
  qed
  moreover have "S 0 = m"
    unfolding S_def as_def by (simp add: map_nth)
  ultimately show ?thesis unfolding as_def by (simp only: fst_conv)
qed

lemma update_contact_actor_keeps:
  "contacts (snd (update_contact_actor mk i m)) = contacts m"
  "length (contacts_actors (snd (update_contact_actor mk i m))) = length (contacts_actors m)"
  "mask_contacts (snd (update_contact_actor mk i m)) = mask_contacts m"
  by (simp_all add: update_contact_actor_def Let_def mask_contacts_def)

lemma new_contact_set_unfold:
  "new_contact_set mk m =
     (if time_size mk \<noteq> 1 then (Some IndexError, m)
      else update_contacts mk (contacts_created mk m))"
proof -
  have "fold new_contact_actor [0..<channel_size mk]
          ((fold ren_RemoveActor (contacts_actors (m\<lparr>contacts := mk\<rparr>)) (m\<lparr>contacts := mk\<rparr>))
             \<lparr>contacts_actors := []\<rparr>) = contacts_created mk m"
    by (simp add: fold_ren_RemoveActor fold_new_contact_actor contacts_created_def)
  moreover have "contacts (contacts_created mk m) = mk"
    by (simp add: contacts_created_def)
  ultimately show ?thesis
    by (subst new_contact_set.simps) (simp only: Let_def)
qed

lemma update_contacts_raise:
  "time_size mk \<noteq> 1 \<Longrightarrow> update_contacts mk m = (Some IndexError, m)"
  by (subst update_contacts.simps) simp

lemma update_contacts_rebuild:
  "time_size mk = 1 \<Longrightarrow> channel_size mk \<noteq> channel_size (contacts m) \<Longrightarrow>
   update_contacts mk m = new_contact_set mk m"
  by (subst update_contacts.simps) simp

lemma update_contacts_pass:
  "time_size mk = 1 \<Longrightarrow> channel_size mk = channel_size (contacts m) \<Longrightarrow>
   update_contacts mk m =
     for_each (update_contact_actor mk) [0..<length (contacts_actors m)] (m\<lparr>contacts := mk\<rparr>)"
  by (subst update_contacts.simps) (simp add: Let_def)

lemma update_contacts_fast:
  assumes "time_size mk = 1" and "channel_size mk = channel_size (contacts m)"
    and "length (contacts_actors m) \<le> channel_size mk"
  shows "update_contacts mk m =
     (None,
      m\<lparr>contacts := mk,
        contacts_actors :=
          map (\<lambda>j. sphere_actor mk (contacts_color m) (contacts_opacity m) (contacts_size m) j
                     (contacts_actors m ! j)) [0..<length (contacts_actors m)],
        vtk_calls := vtk_calls m @ map (\<lambda>a. SetInputConnection (aid a)) (contacts_actors m)\<rparr>)"
proof -
  from assms(3) have "length (contacts_actors (m\<lparr>contacts := mk\<rparr>)) \<le> channel_size mk" by simp
  from update_contact_actor_pass [OF this] update_contacts_pass [OF assms(1,2)] show ?thesis by simp
qed

lemma new_contact_set_exact:
  assumes "time_size mk = 1" and "time_size mk = 1"
  shows "new_contact_set mk m =
     (None,
      m\<lparr>contacts := mk,
        contacts_actors :=
          map (\<lambda>j. sphere_actor mk (contacts_color m) (contacts_opacity m) (contacts_size m) j
                     (fresh_actor (next_actor m + j))) [0..<channel_size mk],
        ren_actors := fold add_item (map (\<lambda>j. next_actor m + j) [0..<channel_size mk])
                        (fold remove1 (map aid (contacts_actors m)) (ren_actors m)),
        next_actor := next_actor m + channel_size mk,
        vtk_calls := vtk_calls m @ map (\<lambda>a. RemoveActor (aid a)) (contacts_actors m)
                     @ created_calls (next_actor m) (channel_size mk)
                     @ map (\<lambda>j. SetInputConnection (next_actor m + j)) [0..<channel_size mk]\<rparr>)"
proof -
  let ?c = "contacts_created mk m"
  have "new_contact_set mk m = update_contacts mk ?c"
    using assms(1) by (simp add: new_contact_set_unfold)
  also have "\<dots> = (None,
      ?c\<lparr>contacts := mk,
        contacts_actors :=
          map (\<lambda>j. sphere_actor mk (contacts_color ?c) (contacts_opacity ?c) (contacts_size ?c) j
                     (contacts_actors ?c ! j)) [0..<length (contacts_actors ?c)],
        vtk_calls := vtk_calls ?c @ map (\<lambda>a. SetInputConnection (aid a)) (contacts_actors ?c)\<rparr>)"
    using assms(2) by (intro update_contacts_fast) (simp_all add: contacts_created_def)
  finally show ?thesis
    by (simp add: contacts_created_def fresh_actor_def o_def)
qed

lemma new_contact_set_raise_late:
  assumes "time_size mk = 1" and "time_size mk \<noteq> 1"
  shows "new_contact_set mk m = (Some IndexError, contacts_created mk m)"
  using assms by (simp add: new_contact_set_unfold update_contacts_raise)

lemma mask_contacts_created: "mask_contacts (contacts_created mk m) = mask_contacts m"
  by (simp add: mask_contacts_def contacts_created_def)

lemma mask_update_contacts_pass:
  "mask_contacts (snd (for_each (update_contact_actor mk) is m)) = mask_contacts m"
  by (rule for_each_preserves) (rule update_contact_actor_keeps)

lemma mask_update_contacts: "mask_contacts (snd (update_contacts mk m)) = mask_contacts m"
proof -
  have pass: "mask_contacts (snd (update_contacts mk s)) = mask_contacts s"
    if "channel_size mk = channel_size (contacts s)" for s
  proof (cases "time_size mk = 1")
    case True
    from update_contacts_pass [OF True that] show ?thesis
      by (simp add: mask_update_contacts_pass) (simp add: mask_contacts_def)
  next
    case False
    then show ?thesis by (simp add: update_contacts_raise)
  qed
  show ?thesis
  proof (cases "time_size mk = 1 \<and> channel_size mk \<noteq> channel_size (contacts m)")
    case True
    then have "update_contacts mk m = new_contact_set mk m" by (simp add: update_contacts_rebuild)
    moreover have "mask_contacts (snd (update_contacts mk (contacts_created mk m))) = mask_contacts m"
      using pass [of "contacts_created mk m"] by (simp add: contacts_created_def mask_contacts_created [unfolded contacts_created_def])
    ultimately show ?thesis by (simp add: new_contact_set_unfold)
  next
    case False
    then consider "time_size mk \<noteq> 1" | "channel_size mk = channel_size (contacts m)" by blast
    then show ?thesis
    proof cases
      case 1
      then show ?thesis by (simp add: update_contacts_raise)
    next
      case 2
      then show ?thesis by (rule pass)
    qed
  qed
qed

lemma mask_new_contact_set: "mask_contacts (snd (new_contact_set mk m)) = mask_contacts m"
  by (simp add: new_contact_set_unfold mask_update_contacts mask_contacts_created)





lemma mask_set_contacts:
  "mask_contacts (snd (set_contacts_color c m)) = mask_contacts m"
  "mask_contacts (snd (set_contacts_size x m)) = mask_contacts m"
  "mask_contacts (snd (set_contacts_opacity x m)) = mask_contacts m"
  using mask_update_contacts [of "contacts m" "m\<lparr>contacts_color := c\<rparr>"]
    mask_update_contacts [of "contacts m" "m\<lparr>contacts_size := x\<rparr>"]
    mask_update_contacts [of "contacts m" "m\<lparr>contacts_opacity := x\<rparr>"]
  by (simp_all add: set_contacts_color_def set_contacts_size_def set_contacts_opacity_def mask_contacts_def)


subsection \<open>Global center of mass\<close>

declare new_global_center_of_mass_set.simps [simp del] update_global_center_of_mass.simps [simp del]

lemma fold_new_global_center_of_mass_actor:
  "fold new_global_center_of_mass_actor [0..<n] m =
     m\<lparr>global_center_of_mass_actors := global_center_of_mass_actors m @ map (\<lambda>j. fresh_actor (next_actor m + j)) [0..<n],
       ren_actors := fold add_item (map (\<lambda>j. next_actor m + j) [0..<n]) (ren_actors m),
       next_actor := next_actor m + n,
       vtk_calls := vtk_calls m @ created_calls (next_actor m) n\<rparr>"
proof -
  let ?S = "\<lambda>k. m\<lparr>global_center_of_mass_actors := global_center_of_mass_actors m @ map (\<lambda>j. fresh_actor (next_actor m + j)) [0..<k],
       ren_actors := fold add_item (map (\<lambda>j. next_actor m + j) [0..<k]) (ren_actors m),
       next_actor := next_actor m + k,
       vtk_calls := vtk_calls m @ created_calls (next_actor m) k\<rparr>"
  have "fold new_global_center_of_mass_actor [0..<n] (?S 0) = ?S n"
    by (rule fold_upt)
       (simp add: new_global_center_of_mass_actor_def vtkActor_def ren_AddActor_def ren_ResetCamera_def
          fresh_actor_def created_calls_def)
  then show ?thesis by (simp add: created_calls_def)
qed

lemma update_global_center_of_mass_actor_step:
  "k < channel_size mk \<Longrightarrow>
   update_global_center_of_mass_actor mk k s =
     (None,
      s\<lparr>global_center_of_mass_actors := (global_center_of_mass_actors s)
           [k := sphere_actor mk (global_center_of_mass_color s) (global_center_of_mass_opacity s) (global_center_of_mass_size s) k
                   (global_center_of_mass_actors s ! k)],
        vtk_calls := vtk_calls s @ [SetInputConnection (aid (global_center_of_mass_actors s ! k))]\<rparr>)"
  by (simp add: update_global_center_of_mass_actor_def Let_def sphere_actor_def)

lemma update_global_center_of_mass_actor_stop:
  "\<not> k < channel_size mk \<Longrightarrow> fst (update_global_center_of_mass_actor mk k s) = Some IndexError"
  by (simp add: update_global_center_of_mass_actor_def Let_def)

lemma update_global_center_of_mass_actor_rounds:
  fixes m :: model and mk :: frame
  defines "as \<equiv> global_center_of_mass_actors m"
  defines "G \<equiv> sphere_actor mk (global_center_of_mass_color m) (global_center_of_mass_opacity m) (global_center_of_mass_size m)"
  defines "S \<equiv> \<lambda>k. m\<lparr>global_center_of_mass_actors := map (\<lambda>j. if j < k then G j (as ! j) else as ! j) [0..<length as],
             vtk_calls := vtk_calls m @ map (\<lambda>j. SetInputConnection (aid (as ! j))) [0..<k]\<rparr>"
  assumes "k < length as" and "k < channel_size mk"
  shows "update_global_center_of_mass_actor mk k (S k) = (None, S (Suc k))"
proof -
  have l: "(map (\<lambda>j. if j < k then G j (as ! j) else as ! j) [0..<length as])[k := G k (as ! k)]
          = map (\<lambda>j. if j < Suc k then G j (as ! j) else as ! j) [0..<length as]"
    using assms(4) by (intro nth_equalityI) (auto simp: nth_list_update less_Suc_eq)
  from update_global_center_of_mass_actor_step [OF assms(5), of "S k"]
  have "update_global_center_of_mass_actor mk k (S k) =
     (None, (S k)\<lparr>global_center_of_mass_actors := (global_center_of_mass_actors (S k))[k := G k (global_center_of_mass_actors (S k) ! k)],
                  vtk_calls := vtk_calls (S k) @ [SetInputConnection (aid (global_center_of_mass_actors (S k) ! k))]\<rparr>)"
    by (simp add: S_def G_def)
  also have "\<dots> = (None, S (Suc k))"
    using assms(4) by (simp add: S_def l)
  finally show ?thesis .
qed

lemma update_global_center_of_mass_actor_pass:
  assumes "length (global_center_of_mass_actors m) \<le> channel_size mk"
  shows "for_each (update_global_center_of_mass_actor mk) [0..<length (global_center_of_mass_actors m)] m =
     (None,
      m\<lparr>global_center_of_mass_actors :=
          map (\<lambda>j. sphere_actor mk (global_center_of_mass_color m) (global_center_of_mass_opacity m) (global_center_of_mass_size m) j
                     (global_center_of_mass_actors m ! j)) [0..<length (global_center_of_mass_actors m)],
        vtk_calls := vtk_calls m @ map (\<lambda>a. SetInputConnection (aid a)) (global_center_of_mass_actors m)\<rparr>)"
proof -
  define as where "as = global_center_of_mass_actors m"
  define G where "G = sphere_actor mk (global_center_of_mass_color m) (global_center_of_mass_opacity m) (global_center_of_mass_size m)"
  define S where "S = (\<lambda>k. m\<lparr>global_center_of_mass_actors := map (\<lambda>j. if j < k then G j (as ! j) else as ! j) [0..<length as],
             vtk_calls := vtk_calls m @ map (\<lambda>j. SetInputConnection (aid (as ! j))) [0..<k]\<rparr>)"
  have "for_each (update_global_center_of_mass_actor mk) [0..<length as] (S 0) = (None, S (length as))"
  proof (rule for_each_upt)
    fix k assume "k < length as"
    moreover from this assms have "k < channel_size mk" by (simp add: as_def)
    ultimately show "update_global_center_of_mass_actor mk k (S k) = (None, S (Suc k))"
      unfolding S_def G_def as_def by (rule update_global_center_of_mass_actor_rounds)
  qed
  moreover have "S 0 = m"
    unfolding S_def as_def by (simp add: map_nth)
  moreover have "S (length as) =
      m\<lparr>global_center_of_mass_actors := map (\<lambda>j. G j (as ! j)) [0..<length as],
        vtk_calls := vtk_calls m @ map (\<lambda>a. SetInputConnection (aid a)) as\<rparr>"
  proof -
    have "map (\<lambda>j. if j < length as then G j (as ! j) else as ! j) [0..<length as]
          = map (\<lambda>j. G j (as ! j)) [0..<length as]"
      by simp
    moreover have "map (\<lambda>j. SetInputConnection (aid (as ! j))) [0..<length as]
          = map (\<lambda>a. SetInputConnection (aid a)) as"
      by (intro nth_equalityI) simp_all
    ultimately show ?thesis unfolding S_def by (simp only:)
  qed
  ultimately show ?thesis unfolding G_def as_def by (simp only:)
qed

lemma update_global_center_of_mass_actor_pass_raise:
  assumes "channel_size mk < length (global_center_of_mass_actors m)"
  shows "fst (for_each (update_global_center_of_mass_actor mk) [0..<length (global_center_of_mass_actors m)] m) = Some IndexError"
proof -
  define as where "as = global_center_of_mass_actors m"
  define G where "G = sphere_actor mk (global_center_of_mass_color m) (global_center_of_mass_opacity m) (global_center_of_mass_size m)"
  define S where "S = (\<lambda>k. m\<lparr>global_center_of_mass_actors := map (\<lambda>j. if j < k then G j (as ! j) else as ! j) [0..<length as],
             vtk_calls := vtk_calls m @ map (\<lambda>j. SetInputConnection (aid (as ! j))) [0..<k]\<rparr>)"
  obtain e s' where last: "update_global_center_of_mass_actor mk (channel_size mk) (S (channel_size mk)) = (e, s')"
    by (cases "update_global_center_of_mass_actor mk (channel_size mk) (S (channel_size mk))")
  with update_global_center_of_mass_actor_stop [of "channel_size mk" mk "S (channel_size mk)"]
  have last': "update_global_center_of_mass_actor mk (channel_size mk) (S (channel_size mk)) = (Some IndexError, s')"
    by simp
  have "for_each (update_global_center_of_mass_actor mk) [0..<length as] (S 0) = (Some IndexError, s')"
  proof (rule for_each_upt_raise [where j = "channel_size mk"])
    fix k assume k: "k < channel_size mk"
    with assms have "k < length as" by (simp add: as_def)
    then show "update_global_center_of_mass_actor mk k (S k) = (None, S (Suc k))"
      using k unfolding S_def G_def as_def by (rule update_global_center_of_mass_actor_rounds)
  next
    show "channel_size mk < length as" using assms by (simp add: as_def)
  next
    show "update_global_center_of_mass_actor mk (channel_size mk) (S (channel_size mk)) = (Some IndexError, s')"
      by (rule last')
  qed
  moreover have "S 0 = m"
    unfolding S_def as_def by (simp add: map_nth)
  ultimately show ?thesis unfolding as_def by (simp only: fst_conv)
qed

lemma update_global_center_of_mass_actor_keeps:
  "global_center_of_mass (snd (update_global_center_of_mass_actor mk i m)) = global_center_of_mass m"
  "length (global_center_of_mass_actors (snd (update_global_center_of_mass_actor mk i m))) = length (global_center_of_mass_actors m)"
  "mask_global_center_of_mass (snd (update_global_center_of_mass_actor mk i m)) = mask_global_center_of_mass m"
  by (simp_all add: update_global_center_of_mass_actor_def Let_def mask_global_center_of_mass_def)

lemma new_global_center_of_mass_set_unfold:
  "new_global_center_of_mass_set mk m =
     (if channel_size mk \<noteq> 1 then (Some IndexError, m)
      else update_global_center_of_mass mk (global_center_of_mass_created mk m))"
proof -
  have "fold new_global_center_of_mass_actor [0..<channel_size mk]
          ((fold ren_RemoveActor (global_center_of_mass_actors (m\<lparr>global_center_of_mass := mk\<rparr>)) (m\<lparr>global_center_of_mass := mk\<rparr>))
             \<lparr>global_center_of_mass_actors := []\<rparr>) = global_center_of_mass_created mk m"
    by (simp add: fold_ren_RemoveActor fold_new_global_center_of_mass_actor global_center_of_mass_created_def)
  moreover have "global_center_of_mass (global_center_of_mass_created mk m) = mk"
    by (simp add: global_center_of_mass_created_def)
  ultimately show ?thesis
    by (subst new_global_center_of_mass_set.simps) (simp only: Let_def)
qed

lemma update_global_center_of_mass_raise:
  "time_size mk \<noteq> 1 \<Longrightarrow> update_global_center_of_mass mk m = (Some IndexError, m)"
  by (subst update_global_center_of_mass.simps) simp

lemma update_global_center_of_mass_rebuild:
  "time_size mk = 1 \<Longrightarrow> channel_size mk \<noteq> channel_size (global_center_of_mass m) \<Longrightarrow>
   update_global_center_of_mass mk m = new_global_center_of_mass_set mk m"
  by (subst update_global_center_of_mass.simps) simp

lemma update_global_center_of_mass_pass:
  "time_size mk = 1 \<Longrightarrow> channel_size mk = channel_size (global_center_of_mass m) \<Longrightarrow>
   update_global_center_of_mass mk m =
     for_each (update_global_center_of_mass_actor mk) [0..<length (global_center_of_mass_actors m)] (m\<lparr>global_center_of_mass := mk\<rparr>)"
  by (subst update_global_center_of_mass.simps) (simp add: Let_def)

lemma update_global_center_of_mass_fast:
  assumes "time_size mk = 1" and "channel_size mk = channel_size (global_center_of_mass m)"
    and "length (global_center_of_mass_actors m) \<le> channel_size mk"
  shows "update_global_center_of_mass mk m =
     (None,
      m\<lparr>global_center_of_mass := mk,
        global_center_of_mass_actors :=
          map (\<lambda>j. sphere_actor mk (global_center_of_mass_color m) (global_center_of_mass_opacity m) (global_center_of_mass_size m) j
                     (global_center_of_mass_actors m ! j)) [0..<length (global_center_of_mass_actors m)],
        vtk_calls := vtk_calls m @ map (\<lambda>a. SetInputConnection (aid a)) (global_center_of_mass_actors m)\<rparr>)"
proof -
  from assms(3) have "length (global_center_of_mass_actors (m\<lparr>global_center_of_mass := mk\<rparr>)) \<le> channel_size mk" by simp
  from update_global_center_of_mass_actor_pass [OF this] update_global_center_of_mass_pass [OF assms(1,2)] show ?thesis by simp
qed

lemma new_global_center_of_mass_set_exact:
  assumes "channel_size mk = 1" and "time_size mk = 1"
  shows "new_global_center_of_mass_set mk m =
     (None,
      m\<lparr>global_center_of_mass := mk,
        global_center_of_mass_actors :=
          map (\<lambda>j. sphere_actor mk (global_center_of_mass_color m) (global_center_of_mass_opacity m) (global_center_of_mass_size m) j
                     (fresh_actor (next_actor m + j))) [0..<channel_size mk],
        ren_actors := fold add_item (map (\<lambda>j. next_actor m + j) [0..<channel_size mk])
                        (fold remove1 (map aid (global_center_of_mass_actors m)) (ren_actors m)),
        next_actor := next_actor m + channel_size mk,
        vtk_calls := vtk_calls m @ map (\<lambda>a. RemoveActor (aid a)) (global_center_of_mass_actors m)
                     @ created_calls (next_actor m) (channel_size mk)
                     @ map (\<lambda>j. SetInputConnection (next_actor m + j)) [0..<channel_size mk]\<rparr>)"
proof -
  let ?c = "global_center_of_mass_created mk m"
  have "new_global_center_of_mass_set mk m = update_global_center_of_mass mk ?c"
    using assms(1) by (simp add: new_global_center_of_mass_set_unfold)
  also have "\<dots> = (None,
      ?c\<lparr>global_center_of_mass := mk,
        global_center_of_mass_actors :=
          map (\<lambda>j. sphere_actor mk (global_center_of_mass_color ?c) (global_center_of_mass_opacity ?c) (global_center_of_mass_size ?c) j
                     (global_center_of_mass_actors ?c ! j)) [0..<length (global_center_of_mass_actors ?c)],
        vtk_calls := vtk_calls ?c @ map (\<lambda>a. SetInputConnection (aid a)) (global_center_of_mass_actors ?c)\<rparr>)"
    using assms(2) by (intro update_global_center_of_mass_fast) (simp_all add: global_center_of_mass_created_def)
  finally show ?thesis
    by (simp add: global_center_of_mass_created_def fresh_actor_def o_def)
qed

lemma new_global_center_of_mass_set_raise_late:
  assumes "channel_size mk = 1" and "time_size mk \<noteq> 1"
  shows "new_global_center_of_mass_set mk m = (Some IndexError, global_center_of_mass_created mk m)"
  using assms by (simp add: new_global_center_of_mass_set_unfold update_global_center_of_mass_raise)

lemma mask_global_center_of_mass_created: "mask_global_center_of_mass (global_center_of_mass_created mk m) = mask_global_center_of_mass m"
  by (simp add: mask_global_center_of_mass_def global_center_of_mass_created_def)

lemma mask_update_global_center_of_mass_pass:
  "mask_global_center_of_mass (snd (for_each (update_global_center_of_mass_actor mk) is m)) = mask_global_center_of_mass m"
  by (rule for_each_preserves) (rule update_global_center_of_mass_actor_keeps)

lemma mask_update_global_center_of_mass: "mask_global_center_of_mass (snd (update_global_center_of_mass mk m)) = mask_global_center_of_mass m"
proof -
  have pass: "mask_global_center_of_mass (snd (update_global_center_of_mass mk s)) = mask_global_center_of_mass s"
    if "channel_size mk = channel_size (global_center_of_mass s)" for s
  proof (cases "time_size mk = 1")
    case True
    from update_global_center_of_mass_pass [OF True that] show ?thesis
      by (simp add: mask_update_global_center_of_mass_pass) (simp add: mask_global_center_of_mass_def)
  next
    case False
    then show ?thesis by (simp add: update_global_center_of_mass_raise)
  qed
  show ?thesis
  proof (cases "time_size mk = 1 \<and> channel_size mk \<noteq> channel_size (global_center_of_mass m)")
    case True
    then have "update_global_center_of_mass mk m = new_global_center_of_mass_set mk m" by (simp add: update_global_center_of_mass_rebuild)
    moreover have "mask_global_center_of_mass (snd (update_global_center_of_mass mk (global_center_of_mass_created mk m))) = mask_global_center_of_mass m"
      using pass [of "global_center_of_mass_created mk m"] by (simp add: global_center_of_mass_created_def mask_global_center_of_mass_created [unfolded global_center_of_mass_created_def])
    ultimately show ?thesis by (simp add: new_global_center_of_mass_set_unfold)
  next
    case False
    then consider "time_size mk \<noteq> 1" | "channel_size mk = channel_size (global_center_of_mass m)" by blast
    then show ?thesis
    proof cases
      case 1
      then show ?thesis by (simp add: update_global_center_of_mass_raise)
    next
      case 2
      then show ?thesis by (rule pass)
    qed
  qed
qed

lemma mask_new_global_center_of_mass_set: "mask_global_center_of_mass (snd (new_global_center_of_mass_set mk m)) = mask_global_center_of_mass m"
  by (simp add: new_global_center_of_mass_set_unfold mask_update_global_center_of_mass mask_global_center_of_mass_created)





lemma mask_set_global_center_of_mass:
  "mask_global_center_of_mass (snd (set_global_center_of_mass_color c m)) = mask_global_center_of_mass m"
  "mask_global_center_of_mass (snd (set_global_center_of_mass_size x m)) = mask_global_center_of_mass m"
  "mask_global_center_of_mass (snd (set_global_center_of_mass_opacity x m)) = mask_global_center_of_mass m"
  using mask_update_global_center_of_mass [of "global_center_of_mass m" "m\<lparr>global_center_of_mass_color := c\<rparr>"]
    mask_update_global_center_of_mass [of "global_center_of_mass m" "m\<lparr>global_center_of_mass_size := x\<rparr>"]
    mask_update_global_center_of_mass [of "global_center_of_mass m" "m\<lparr>global_center_of_mass_opacity := x\<rparr>"]
  by (simp_all add: set_global_center_of_mass_color_def set_global_center_of_mass_size_def set_global_center_of_mass_opacity_def mask_global_center_of_mass_def)


subsection \<open>Segments center of mass\<close>

declare new_segments_center_of_mass_set.simps [simp del] update_segments_center_of_mass.simps [simp del]

lemma fold_new_segments_center_of_mass_actor:
  "fold new_segments_center_of_mass_actor [0..<n] m =
     m\<lparr>segments_center_of_mass_actors := segments_center_of_mass_actors m @ map (\<lambda>j. fresh_actor (next_actor m + j)) [0..<n],
       ren_actors := fold add_item (map (\<lambda>j. next_actor m + j) [0..<n]) (ren_actors m),
       next_actor := next_actor m + n,
       vtk_calls := vtk_calls m @ created_calls (next_actor m) n\<rparr>"
proof -
  let ?S = "\<lambda>k. m\<lparr>segments_center_of_mass_actors := segments_center_of_mass_actors m @ map (\<lambda>j. fresh_actor (next_actor m + j)) [0..<k],
       ren_actors := fold add_item (map (\<lambda>j. next_actor m + j) [0..<k]) (ren_actors m),
       next_actor := next_actor m + k,
       vtk_calls := vtk_calls m @ created_calls (next_actor m) k\<rparr>"
  have "fold new_segments_center_of_mass_actor [0..<n] (?S 0) = ?S n"
    by (rule fold_upt)
       (simp add: new_segments_center_of_mass_actor_def vtkActor_def ren_AddActor_def ren_ResetCamera_def
          fresh_actor_def created_calls_def)
  then show ?thesis by (simp add: created_calls_def)
qed

lemma update_segments_center_of_mass_actor_step:
  "k < channel_size mk \<Longrightarrow>
   update_segments_center_of_mass_actor mk k s =
     (None,
      s\<lparr>segments_center_of_mass_actors := (segments_center_of_mass_actors s)
           [k := sphere_actor mk (segments_center_of_mass_color s) (segments_center_of_mass_opacity s) (segments_center_of_mass_size s) k
                   (segments_center_of_mass_actors s ! k)],
        vtk_calls := vtk_calls s @ [SetInputConnection (aid (segments_center_of_mass_actors s ! k))]\<rparr>)"
  by (simp add: update_segments_center_of_mass_actor_def Let_def sphere_actor_def)

lemma update_segments_center_of_mass_actor_stop:
  "\<not> k < channel_size mk \<Longrightarrow> fst (update_segments_center_of_mass_actor mk k s) = Some IndexError"
  by (simp add: update_segments_center_of_mass_actor_def Let_def)

lemma update_segments_center_of_mass_actor_rounds:
  fixes m :: model and mk :: frame
  defines "as \<equiv> segments_center_of_mass_actors m"
  defines "G \<equiv> sphere_actor mk (segments_center_of_mass_color m) (segments_center_of_mass_opacity m) (segments_center_of_mass_size m)"
  defines "S \<equiv> \<lambda>k. m\<lparr>segments_center_of_mass_actors := map (\<lambda>j. if j < k then G j (as ! j) else as ! j) [0..<length as],
             vtk_calls := vtk_calls m @ map (\<lambda>j. SetInputConnection (aid (as ! j))) [0..<k]\<rparr>"
  assumes "k < length as" and "k < channel_size mk"
  shows "update_segments_center_of_mass_actor mk k (S k) = (None, S (Suc k))"
proof -
  have l: "(map (\<lambda>j. if j < k then G j (as ! j) else as ! j) [0..<length as])[k := G k (as ! k)]
          = map (\<lambda>j. if j < Suc k then G j (as ! j) else as ! j) [0..<length as]"
    using assms(4) by (intro nth_equalityI) (auto simp: nth_list_update less_Suc_eq)
  from update_segments_center_of_mass_actor_step [OF assms(5), of "S k"]
  have "update_segments_center_of_mass_actor mk k (S k) =
     (None, (S k)\<lparr>segments_center_of_mass_actors := (segments_center_of_mass_actors (S k))[k := G k (segments_center_of_mass_actors (S k) ! k)],
                  vtk_calls := vtk_calls (S k) @ [SetInputConnection (aid (segments_center_of_mass_actors (S k) ! k))]\<rparr>)"
    by (simp add: S_def G_def)
  also have "\<dots> = (None, S (Suc k))"
    using assms(4) by (simp add: S_def l)
  finally show ?thesis .
qed

lemma update_segments_center_of_mass_actor_pass:
  assumes "length (segments_center_of_mass_actors m) \<le> channel_size mk"
  shows "for_each (update_segments_center_of_mass_actor mk) [0..<length (segments_center_of_mass_actors m)] m =
     (None,
      m\<lparr>segments_center_of_mass_actors :=
          map (\<lambda>j. sphere_actor mk (segments_center_of_mass_color m) (segments_center_of_mass_opacity m) (segments_center_of_mass_size m) j
                     (segments_center_of_mass_actors m ! j)) [0..<length (segments_center_of_mass_actors m)],
        vtk_calls := vtk_calls m @ map (\<lambda>a. SetInputConnection (aid a)) (segments_center_of_mass_actors m)\<rparr>)"
proof -
  define as where "as = segments_center_of_mass_actors m"
  define G where "G = sphere_actor mk (segments_center_of_mass_color m) (segments_center_of_mass_opacity m) (segments_center_of_mass_size m)"
  define S where "S = (\<lambda>k. m\<lparr>segments_center_of_mass_actors := map (\<lambda>j. if j < k then G j (as ! j) else as ! j) [0..<length as],
             vtk_calls := vtk_calls m @ map (\<lambda>j. SetInputConnection (aid (as ! j))) [0..<k]\<rparr>)"
  have "for_each (update_segments_center_of_mass_actor mk) [0..<length as] (S 0) = (None, S (length as))"
  proof (rule for_each_upt)
    fix k assume "k < length as"
    moreover from this assms have "k < channel_size mk" by (simp add: as_def)
    ultimately show "update_segments_center_of_mass_actor mk k (S k) = (None, S (Suc k))"
      unfolding S_def G_def as_def by (rule update_segments_center_of_mass_actor_rounds)
  qed
  moreover have "S 0 = m"
    unfolding S_def as_def by (simp add: map_nth)
  moreover have "S (length as) =
      m\<lparr>segments_center_of_mass_actors := map (\<lambda>j. G j (as ! j)) [0..<length as],
        vtk_calls := vtk_calls m @ map (\<lambda>a. SetInputConnection (aid a)) as\<rparr>"
  proof -
    have "map (\<lambda>j. if j < length as then G j (as ! j) else as ! j) [0..<length as]
          = map (\<lambda>j. G j (as ! j)) [0..<length as]"
      by simp
    moreover have "map (\<lambda>j. SetInputConnection (aid (as ! j))) [0..<length as]
          = map (\<lambda>a. SetInputConnection (aid a)) as"
      by (intro nth_equalityI) simp_all
    ultimately show ?thesis unfolding S_def by (simp only:)
  qed
  ultimately show ?thesis unfolding G_def as_def by (simp only:)
qed

lemma update_segments_center_of_mass_actor_pass_raise:
  assumes "channel_size mk < length (segments_center_of_mass_actors m)"
  shows "fst (for_each (update_segments_center_of_mass_actor mk) [0..<length (segments_center_of_mass_actors m)] m) = Some IndexError"
proof -
  define as where "as = segments_center_of_mass_actors m"
  define G where "G = sphere_actor mk (segments_center_of_mass_color m) (segments_center_of_mass_opacity m) (segments_center_of_mass_size m)"
  define S where "S = (\<lambda>k. m\<lparr>segments_center_of_mass_actors := map (\<lambda>j. if j < k then G j (as ! j) else as ! j) [0..<length as],
             vtk_calls := vtk_calls m @ map (\<lambda>j. SetInputConnection (aid (as ! j))) [0..<k]\<rparr>)"
  obtain e s' where last: "update_segments_center_of_mass_actor mk (channel_size mk) (S (channel_size mk)) = (e, s')"
    by (cases "update_segments_center_of_mass_actor mk (channel_size mk) (S (channel_size mk))")
  with update_segments_center_of_mass_actor_stop [of "channel_size mk" mk "S (channel_size mk)"]
  have last': "update_segments_center_of_mass_actor mk (channel_size mk) (S (channel_size mk)) = (Some IndexError, s')"
    by simp
  have "for_each (update_segments_center_of_mass_actor mk) [0..<length as] (S 0) = (Some IndexError, s')"
  proof (rule for_each_upt_raise [where j = "channel_size mk"])
    fix k assume k: "k < channel_size mk"
    with assms have "k < length as" by (simp add: as_def)
    then show "update_segments_center_of_mass_actor mk k (S k) = (None, S (Suc k))"
      using k unfolding S_def G_def as_def by (rule update_segments_center_of_mass_actor_rounds)
  next
    show "channel_size mk < length as" using assms by (simp add: as_def)
  next
    show "update_segments_center_of_mass_actor mk (channel_size mk) (S (channel_size mk)) = (Some IndexError, s')"
      by (rule last')
  qed
  moreover have "S 0 = m"
    unfolding S_def as_def by (simp add: map_nth)
  ultimately show ?thesis unfolding as_def by (simp only: fst_conv)
qed

lemma update_segments_center_of_mass_actor_keeps:
  "segments_center_of_mass (snd (update_segments_center_of_mass_actor mk i m)) = segments_center_of_mass m"
  "length (segments_center_of_mass_actors (snd (update_segments_center_of_mass_actor mk i m))) = length (segments_center_of_mass_actors m)"
  "mask_segments_center_of_mass (snd (update_segments_center_of_mass_actor mk i m)) = mask_segments_center_of_mass m"
  by (simp_all add: update_segments_center_of_mass_actor_def Let_def mask_segments_center_of_mass_def)

lemma new_segments_center_of_mass_set_unfold:
  "new_segments_center_of_mass_set mk m =
     (if time_size mk \<noteq> 1 then (Some IndexError, m)
      else update_segments_center_of_mass mk (segments_center_of_mass_created mk m))"
proof -
  have "fold new_segments_center_of_mass_actor [0..<channel_size mk]
          ((fold ren_RemoveActor (segments_center_of_mass_actors (m\<lparr>segments_center_of_mass := mk\<rparr>)) (m\<lparr>segments_center_of_mass := mk\<rparr>))
             \<lparr>segments_center_of_mass_actors := []\<rparr>) = segments_center_of_mass_created mk m"
    by (simp add: fold_ren_RemoveActor fold_new_segments_center_of_mass_actor segments_center_of_mass_created_def)
  moreover have "segments_center_of_mass (segments_center_of_mass_created mk m) = mk"
    by (simp add: segments_center_of_mass_created_def)
  ultimately show ?thesis
    by (subst new_segments_center_of_mass_set.simps) (simp only: Let_def)
qed

lemma update_segments_center_of_mass_raise:
  "time_size mk \<noteq> 1 \<Longrightarrow> update_segments_center_of_mass mk m = (Some IndexError, m)"
  by (subst update_segments_center_of_mass.simps) simp

lemma update_segments_center_of_mass_rebuild:
  "time_size mk = 1 \<Longrightarrow> channel_size mk \<noteq> channel_size (segments_center_of_mass m) \<Longrightarrow>
   update_segments_center_of_mass mk m = new_segments_center_of_mass_set mk m"
  by (subst update_segments_center_of_mass.simps) simp

lemma update_segments_center_of_mass_pass:
  "time_size mk = 1 \<Longrightarrow> channel_size mk = channel_size (segments_center_of_mass m) \<Longrightarrow>
   update_segments_center_of_mass mk m =
     for_each (update_segments_center_of_mass_actor mk) [0..<length (segments_center_of_mass_actors m)] (m\<lparr>segments_center_of_mass := mk\<rparr>)"
  by (subst update_segments_center_of_mass.simps) (simp add: Let_def)

lemma update_segments_center_of_mass_fast:
  assumes "time_size mk = 1" and "channel_size mk = channel_size (segments_center_of_mass m)"
    and "length (segments_center_of_mass_actors m) \<le> channel_size mk"
  shows "update_segments_center_of_mass mk m =
     (None,
      m\<lparr>segments_center_of_mass := mk,
        segments_center_of_mass_actors :=
          map (\<lambda>j. sphere_actor mk (segments_center_of_mass_color m) (segments_center_of_mass_opacity m) (segments_center_of_mass_size m) j
                     (segments_center_of_mass_actors m ! j)) [0..<length (segments_center_of_mass_actors m)],
        vtk_calls := vtk_calls m @ map (\<lambda>a. SetInputConnection (aid a)) (segments_center_of_mass_actors m)\<rparr>)"
proof -
  from assms(3) have "length (segments_center_of_mass_actors (m\<lparr>segments_center_of_mass := mk\<rparr>)) \<le> channel_size mk" by simp
  from update_segments_center_of_mass_actor_pass [OF this] update_segments_center_of_mass_pass [OF assms(1,2)] show ?thesis by simp
qed

lemma new_segments_center_of_mass_set_exact:
  assumes "time_size mk = 1" and "time_size mk = 1"
  shows "new_segments_center_of_mass_set mk m =
     (None,
      m\<lparr>segments_center_of_mass := mk,
        segments_center_of_mass_actors :=
          map (\<lambda>j. sphere_actor mk (segments_center_of_mass_color m) (segments_center_of_mass_opacity m) (segments_center_of_mass_size m) j
                     (fresh_actor (next_actor m + j))) [0..<channel_size mk],
        ren_actors := fold add_item (map (\<lambda>j. next_actor m + j) [0..<channel_size mk])
                        (fold remove1 (map aid (segments_center_of_mass_actors m)) (ren_actors m)),
        next_actor := next_actor m + channel_size mk,
        vtk_calls := vtk_calls m @ map (\<lambda>a. RemoveActor (aid a)) (segments_center_of_mass_actors m)
                     @ created_calls (next_actor m) (channel_size mk)
                     @ map (\<lambda>j. SetInputConnection (next_actor m + j)) [0..<channel_size mk]\<rparr>)"
proof -
  let ?c = "segments_center_of_mass_created mk m"
  have "new_segments_center_of_mass_set mk m = update_segments_center_of_mass mk ?c"
    using assms(1) by (simp add: new_segments_center_of_mass_set_unfold)
  also have "\<dots> = (None,
      ?c\<lparr>segments_center_of_mass := mk,
        segments_center_of_mass_actors :=
          map (\<lambda>j. sphere_actor mk (segments_center_of_mass_color ?c) (segments_center_of_mass_opacity ?c) (segments_center_of_mass_size ?c) j
                     (segments_center_of_mass_actors ?c ! j)) [0..<length (segments_center_of_mass_actors ?c)],
        vtk_calls := vtk_calls ?c @ map (\<lambda>a. SetInputConnection (aid a)) (segments_center_of_mass_actors ?c)\<rparr>)"
    using assms(2) by (intro update_segments_center_of_mass_fast) (simp_all add: segments_center_of_mass_created_def)
  finally show ?thesis
    by (simp add: segments_center_of_mass_created_def fresh_actor_def o_def)
qed

lemma new_segments_center_of_mass_set_raise_late:
  assumes "time_size mk = 1" and "time_size mk \<noteq> 1"
  shows "new_segments_center_of_mass_set mk m = (Some IndexError, segments_center_of_mass_created mk m)"
  using assms by (simp add: new_segments_center_of_mass_set_unfold update_segments_center_of_mass_raise)

lemma mask_segments_center_of_mass_created: "mask_segments_center_of_mass (segments_center_of_mass_created mk m) = mask_segments_center_of_mass m"
  by (simp add: mask_segments_center_of_mass_def segments_center_of_mass_created_def)

lemma mask_update_segments_center_of_mass_pass:
  "mask_segments_center_of_mass (snd (for_each (update_segments_center_of_mass_actor mk) is m)) = mask_segments_center_of_mass m"
  by (rule for_each_preserves) (rule update_segments_center_of_mass_actor_keeps)

lemma mask_update_segments_center_of_mass: "mask_segments_center_of_mass (snd (update_segments_center_of_mass mk m)) = mask_segments_center_of_mass m"
proof -
  have pass: "mask_segments_center_of_mass (snd (update_segments_center_of_mass mk s)) = mask_segments_center_of_mass s"
    if "channel_size mk = channel_size (segments_center_of_mass s)" for s
  proof (cases "time_size mk = 1")
    case True
    from update_segments_center_of_mass_pass [OF True that] show ?thesis
      by (simp add: mask_update_segments_center_of_mass_pass) (simp add: mask_segments_center_of_mass_def)
  next
    case False
    then show ?thesis by (simp add: update_segments_center_of_mass_raise)
  qed
  show ?thesis
  proof (cases "time_size mk = 1 \<and> channel_size mk \<noteq> channel_size (segments_center_of_mass m)")
    case True
    then have "update_segments_center_of_mass mk m = new_segments_center_of_mass_set mk m" by (simp add: update_segments_center_of_mass_rebuild)
    moreover have "mask_segments_center_of_mass (snd (update_segments_center_of_mass mk (segments_center_of_mass_created mk m))) = mask_segments_center_of_mass m"
      using pass [of "segments_center_of_mass_created mk m"] by (simp add: segments_center_of_mass_created_def mask_segments_center_of_mass_created [unfolded segments_center_of_mass_created_def])
    ultimately show ?thesis by (simp add: new_segments_center_of_mass_set_unfold)
  next
    case False
    then consider "time_size mk \<noteq> 1" | "channel_size mk = channel_size (segments_center_of_mass m)" by blast
    then show ?thesis
    proof cases
      case 1
      then show ?thesis by (simp add: update_segments_center_of_mass_raise)
    next
      case 2
      then show ?thesis by (rule pass)
    qed
  qed
qed

lemma mask_new_segments_center_of_mass_set: "mask_segments_center_of_mass (snd (new_segments_center_of_mass_set mk m)) = mask_segments_center_of_mass m"
  by (simp add: new_segments_center_of_mass_set_unfold mask_update_segments_center_of_mass mask_segments_center_of_mass_created)





lemma mask_set_segments_center_of_mass:
  "mask_segments_center_of_mass (snd (set_segments_center_of_mass_color c m)) = mask_segments_center_of_mass m"
  "mask_segments_center_of_mass (snd (set_segments_center_of_mass_size x m)) = mask_segments_center_of_mass m"
  "mask_segments_center_of_mass (snd (set_segments_center_of_mass_opacity x m)) = mask_segments_center_of_mass m"
  using mask_update_segments_center_of_mass [of "segments_center_of_mass m" "m\<lparr>segments_center_of_mass_color := c\<rparr>"]
    mask_update_segments_center_of_mass [of "segments_center_of_mass m" "m\<lparr>segments_center_of_mass_size := x\<rparr>"]
    mask_update_segments_center_of_mass [of "segments_center_of_mass m" "m\<lparr>segments_center_of_mass_opacity := x\<rparr>"]
  by (simp_all add: set_segments_center_of_mass_color_def set_segments_center_of_mass_size_def set_segments_center_of_mass_opacity_def mask_segments_center_of_mass_def)


section \<open>The collection categories, step by step\<close>

text \<open>Loops over a list, in the same way.\<close>

lemma for_each_nth:
  assumes "\<And>k. k < length xs \<Longrightarrow> body (xs ! k) (S k) = (None, S (Suc k))"
  shows "for_each body xs (S 0) = (None, S (length xs))"
proof -
  have "for_each body (drop j xs) (S j) = (None, S (length xs))" if "j \<le> length xs" for j
    using that
  proof (induction "length xs - j" arbitrary: j)
    case 0
    then show ?case by simp
  next
    case (Suc d)
    then have lt: "j < length xs" by simp
    from Suc have "for_each body (drop (Suc j) xs) (S (Suc j)) = (None, S (length xs))"
      by simp
    with assms [OF lt] lt show ?case by (simp add: Cons_nth_drop_Suc [symmetric])
  qed
  from this [of 0] show ?thesis by simp
qed

lemma for_each_nth_raise:
  assumes "\<And>k. k < j \<Longrightarrow> body (xs ! k) (S k) = (None, S (Suc k))"
    and "j < length xs" and "body (xs ! j) (S j) = (Some e, s')"
  shows "for_each body xs (S 0) = (Some e, s')"
proof -
  have "for_each body (drop i xs) (S i) = (Some e, s')" if "i \<le> j" for i
    using that
  proof (induction "j - i" arbitrary: i)
    case 0
    then have "i = j" by simp
    with assms(2,3) show ?case by (simp add: Cons_nth_drop_Suc [symmetric])
  next
    case (Suc d)
    then have lt: "i < j" by simp
    from Suc have "for_each body (drop (Suc i) xs) (S (Suc i)) = (Some e, s')" by simp
    with assms(1) [OF lt] lt assms(2) show ?case
      by (simp add: Cons_nth_drop_Suc [symmetric])
  qed
  from this [of 0] show ?thesis by simp
qed

lemma for_each_raises_at:
  assumes "\<And>x s. x \<in> set xs \<Longrightarrow> bad x \<Longrightarrow> fst (body x s) \<noteq> None"
    and "\<exists>x \<in> set xs. bad x"
  shows "fst (for_each body xs s) \<noteq> None"
  using assms
proof (induction xs arbitrary: s)
  case Nil
  then show ?case by simp
next
  case (Cons x xs)
  obtain r s' where b: "body x s = (r, s')" by (cases "body x s")
  show ?case
  proof (cases r)
    case (Some e)
    with b show ?thesis by simp
  next
    case None
    with b Cons.prems(1) [of x s] have "\<not> bad x" by auto
    with Cons.prems(2) have "\<exists>y \<in> set xs. bad y" by auto
    with Cons.IH [of s'] Cons.prems(1) have "fst (for_each body xs s') \<noteq> None" by auto
    with b None show ?thesis by simp
  qed
qed

subsection \<open>Meshes\<close>

declare new_mesh_set.simps(2) [simp del] update_mesh.simps(2) [simp del]

text \<open>A list scanned against itself never asks for the rebuild.\<close>

lemma scan_meshes_self:
  "scan_meshes (pre @ ms) (length pre) ms \<noteq> ScanRebuild"
proof (induction ms arbitrary: pre)
  case Nil
  show ?case by simp
next
  case (Cons x ms)
  from Cons.IH [of "pre @ [x]"] show ?case by simp
qed

lemma scan_meshes_same: "scan_meshes ms 0 ms \<noteq> ScanRebuild"
  using scan_meshes_self [of "[]" ms] by simp

text \<open>The closed polyline of a column of three rows.\<close>

lemma closed_polyline_3:
  "closed_polyline [a, b, c] = Some (PolyLine [Some a, Some b, Some c, Some a])"
  by (simp add: eval_nat_numeral upt_conv_Cons)

lemma geom_SetPoints_mesh_geom [simp]:
  "geom_SetPoints (points mesh) (mesh_geom mesh) = mesh_geom mesh"
  by (simp add: mesh_geom_def)

lemma new_mesh_actor_step:
  assumes "mesh_ok mesh"
  shows "new_mesh_actor mesh s =
     (None,
      s\<lparr>mesh_color := mesh_color_after (mesh_color s) [mesh],
        mesh_actors := mesh_actors s @
          [(fresh_actor (next_actor s))
             \<lparr>a_input := mesh_geom mesh,
              a_color := mesh_color_after (mesh_color s) [mesh],
              a_opacity := mesh_opacity s\<rparr>],
        ren_actors := add_item (next_actor s) (ren_actors s),
        next_actor := Suc (next_actor s),
        vtk_calls := vtk_calls s @ [AddActor (next_actor s), ResetCamera]\<rparr>)"
proof (cases "outline_branch mesh")
  case True
  with assms obtain cells where "closed_polylines (triangles mesh) = Some cells"
    by (auto simp: mesh_ok_def)
  with True assms show ?thesis
    by (simp add: new_mesh_actor_def mesh_ok_def add_mesh_actor_def vtkActor_def
        ren_AddActor_def ren_ResetCamera_def fresh_actor_def mesh_geom_def mesh_color_after_def)
next
  case False
  with assms show ?thesis
    by (simp add: new_mesh_actor_def mesh_ok_def add_mesh_actor_def vtkActor_def
        ren_AddActor_def ren_ResetCamera_def fresh_actor_def mesh_geom_def mesh_color_after_def)
qed

lemma new_mesh_actor_stop:
  "\<not> mesh_ok mesh \<Longrightarrow> new_mesh_actor mesh s = (Some IndexError, s)"
  by (auto simp: new_mesh_actor_def mesh_ok_def split: option.splits if_splits)

lemma mesh_color_after_snoc:
  "mesh_color_after (mesh_color_after c ms) [mesh] = mesh_color_after c (ms @ [mesh])"
  by (simp add: mesh_color_after_def)

lemma new_mesh_actor_rounds:
  fixes m :: model and ms :: "mesh list"
  defines "S \<equiv> \<lambda>k. m\<lparr>mesh_color := mesh_color_after (mesh_color m) (take k ms),
        mesh_actors := mesh_actors m @
          map (mesh_actor_built (mesh_color m) (mesh_opacity m) (next_actor m) ms) [0..<k],
        ren_actors := fold add_item (map (\<lambda>j. next_actor m + j) [0..<k]) (ren_actors m),
        next_actor := next_actor m + k,
        vtk_calls := vtk_calls m @ created_calls (next_actor m) k\<rparr>"
  assumes "k < length ms" and "mesh_ok (ms ! k)"
  shows "new_mesh_actor (ms ! k) (S k) = (None, S (Suc k))"
proof -
  have t: "take (Suc k) ms = take k ms @ [ms ! k]"
    using assms(2) by (simp add: take_Suc_conv_app_nth)
  show ?thesis
    unfolding new_mesh_actor_step [OF assms(3)] S_def
    by (simp add: mesh_color_after_snoc t mesh_actor_built_def created_calls_def)
qed

lemma new_mesh_actor_loop:
  assumes "list_all mesh_ok ms"
  shows "for_each new_mesh_actor ms
           ((fold ren_RemoveActor (mesh_actors m) (m\<lparr>all_meshes := ms\<rparr>))\<lparr>mesh_actors := []\<rparr>)
         = (None, meshes_created ms m)"
proof -
  define m3 where
    "m3 = (fold ren_RemoveActor (mesh_actors m) (m\<lparr>all_meshes := ms\<rparr>))\<lparr>mesh_actors := []\<rparr>"
  define S where "S = (\<lambda>k. m3\<lparr>mesh_color := mesh_color_after (mesh_color m3) (take k ms),
        mesh_actors := mesh_actors m3 @
          map (mesh_actor_built (mesh_color m3) (mesh_opacity m3) (next_actor m3) ms) [0..<k],
        ren_actors := fold add_item (map (\<lambda>j. next_actor m3 + j) [0..<k]) (ren_actors m3),
        next_actor := next_actor m3 + k,
        vtk_calls := vtk_calls m3 @ created_calls (next_actor m3) k\<rparr>)"
  have "for_each new_mesh_actor ms (S 0) = (None, S (length ms))"
  proof (rule for_each_nth)
    fix k assume k: "k < length ms"
    with assms have "mesh_ok (ms ! k)" by (simp add: list_all_length)
    with k show "new_mesh_actor (ms ! k) (S k) = (None, S (Suc k))"
      unfolding S_def by (rule new_mesh_actor_rounds)
  qed
  moreover have "S 0 = m3"
    unfolding S_def by (simp add: mesh_color_after_def created_calls_def)
  moreover have "S (length ms) = meshes_created ms m"
    unfolding S_def m3_def meshes_created_def by (simp add: fold_ren_RemoveActor)
  ultimately show ?thesis unfolding m3_def by (simp only:)
qed

lemma new_mesh_actor_loop_raise:
  assumes "\<not> list_all mesh_ok ms"
  shows "fst (for_each new_mesh_actor ms s) \<noteq> None"
proof (rule for_each_raises_at [where bad = "\<lambda>mesh. \<not> mesh_ok mesh"])
  fix x s assume "\<not> mesh_ok x"
  then show "fst (new_mesh_actor x s) \<noteq> None" by (simp add: new_mesh_actor_stop)
next
  from assms show "\<exists>x \<in> set ms. \<not> mesh_ok x" by (simp add: list_all_iff)
qed

text \<open>The three ways out of the first loop of \<^verbatim>\<open>update_mesh\<close>.\<close>

lemma update_mesh_raise:
  "scan_meshes (all_meshes m) 0 ms = ScanRaise \<Longrightarrow>
   update_mesh (Many ms) m = (Some IndexError, m)"
  by (subst update_mesh.simps(2)) simp

lemma update_mesh_rebuild:
  "scan_meshes (all_meshes m) 0 ms = ScanRebuild \<Longrightarrow>
   update_mesh (Many ms) m = new_mesh_set (Many ms) m"
  by (subst update_mesh.simps(2)) simp

lemma update_mesh_pass:
  "scan_meshes (all_meshes m) 0 ms = ScanDone \<Longrightarrow>
   update_mesh (Many ms) m =
     for_each update_mesh_actor [0..<length ms] (m\<lparr>all_meshes := ms\<rparr>)"
  by (subst update_mesh.simps(2)) (simp add: Let_def)

lemma scan_meshes_ok:
  "list_all (\<lambda>mesh. time_size mesh = 1) ms \<Longrightarrow>
   scan_meshes (pre @ ms) (length pre) ms = ScanDone"
proof (induction ms arbitrary: pre)
  case Nil
  show ?case by simp
next
  case (Cons x ms)
  from Cons.prems Cons.IH [of "pre @ [x]"] show ?case by simp
qed

lemma scan_meshes_same_ok:
  "list_all mesh_ok ms \<Longrightarrow> scan_meshes ms 0 ms = ScanDone"
proof -
  assume "list_all mesh_ok ms"
  then have "list_all (\<lambda>mesh. time_size mesh = 1) ms"
    by (simp add: list_all_iff mesh_ok_def)
  from scan_meshes_ok [OF this, of "[]"] show ?thesis by simp
qed

lemma update_mesh_actor_step:
  "k < length (mesh_actors s) \<Longrightarrow>
   update_mesh_actor k s =
     (None,
      s\<lparr>mesh_actors := (mesh_actors s)
           [k := moved_actor (points (all_meshes s ! k)) (mesh_actors s ! k)],
        vtk_calls := vtk_calls s @ [SetPoints (aid (mesh_actors s ! k))]\<rparr>)"
  by (simp add: update_mesh_actor_def Let_def moved_actor_def)

lemma update_mesh_actor_stop:
  "\<not> k < length (mesh_actors s) \<Longrightarrow> update_mesh_actor k s = (Some IndexError, s)"
  by (simp add: update_mesh_actor_def)

lemma update_mesh_actor_rounds:
  fixes m :: model
  defines "as \<equiv> mesh_actors m"
  defines "S \<equiv> \<lambda>k. m\<lparr>mesh_actors :=
        map (\<lambda>j. if j < k then moved_actor (points (all_meshes m ! j)) (as ! j) else as ! j)
          [0..<length as],
        vtk_calls := vtk_calls m @ map (\<lambda>j. SetPoints (aid (as ! j))) [0..<k]\<rparr>"
  assumes "k < length as"
  shows "update_mesh_actor k (S k) = (None, S (Suc k))"
proof -
  let ?f = "\<lambda>k j. if j < k then moved_actor (points (all_meshes m ! j)) (as ! j) else as ! j"
  have l: "(map (?f k) [0..<length as])[k := moved_actor (points (all_meshes m ! k)) (as ! k)]
          = map (?f (Suc k)) [0..<length as]"
    using assms(3) by (intro nth_equalityI) (auto simp: nth_list_update less_Suc_eq)
  have "k < length (mesh_actors (S k))" using assms(3) by (simp add: S_def)
  from update_mesh_actor_step [OF this]
  have "update_mesh_actor k (S k) =
     (None, (S k)\<lparr>mesh_actors := (map (?f k) [0..<length as])
                    [k := moved_actor (points (all_meshes m ! k)) (as ! k)],
                  vtk_calls := vtk_calls (S k) @ [SetPoints (aid (as ! k))]\<rparr>)"
    using assms(3) by (simp add: S_def)
  also have "\<dots> = (None, S (Suc k))"
    by (simp add: S_def l)
  finally show ?thesis .
qed

lemma update_mesh_actor_loop:
  assumes "length (all_meshes m) \<le> length (mesh_actors m)"
  shows "for_each update_mesh_actor [0..<length (all_meshes m)] m =
     (None,
      m\<lparr>mesh_actors := moved_actors (all_meshes m) (mesh_actors m),
        vtk_calls := vtk_calls m
          @ map (\<lambda>a. SetPoints (aid a)) (take (length (all_meshes m)) (mesh_actors m))\<rparr>)"
proof -
  define as where "as = mesh_actors m"
  define n where "n = length (all_meshes m)"
  define S where "S = (\<lambda>k. m\<lparr>mesh_actors :=
        map (\<lambda>j. if j < k then moved_actor (points (all_meshes m ! j)) (as ! j) else as ! j)
          [0..<length as],
        vtk_calls := vtk_calls m @ map (\<lambda>j. SetPoints (aid (as ! j))) [0..<k]\<rparr>)"
  have "for_each update_mesh_actor [0..<n] (S 0) = (None, S n)"
  proof (rule for_each_upt)
    fix k assume "k < n"
    with assms have "k < length (mesh_actors m)" by (simp add: n_def)
    then show "update_mesh_actor k (S k) = (None, S (Suc k))"
      unfolding S_def as_def by (rule update_mesh_actor_rounds)
  qed
  moreover have "S 0 = m"
    unfolding S_def as_def by (simp add: map_nth)
  moreover have "S n =
      m\<lparr>mesh_actors := moved_actors (all_meshes m) as,
        vtk_calls := vtk_calls m @ map (\<lambda>a. SetPoints (aid a)) (take n as)\<rparr>"
  proof -
    have "map (\<lambda>j. SetPoints (aid (as ! j))) [0..<n] = map (\<lambda>a. SetPoints (aid a)) (take n as)"
      using assms by (intro nth_equalityI) (simp_all add: n_def as_def)
    then show ?thesis unfolding S_def moved_actors_def n_def by (simp only:)
  qed
  ultimately show ?thesis unfolding as_def n_def by (simp only:)
qed

lemma update_mesh_actor_loop_raise:
  assumes "length (mesh_actors m) < length (all_meshes m)"
  shows "fst (for_each update_mesh_actor [0..<length (all_meshes m)] m) = Some IndexError"
proof -
  define as where "as = mesh_actors m"
  define S where "S = (\<lambda>k. m\<lparr>mesh_actors :=
        map (\<lambda>j. if j < k then moved_actor (points (all_meshes m ! j)) (as ! j) else as ! j)
          [0..<length as],
        vtk_calls := vtk_calls m @ map (\<lambda>j. SetPoints (aid (as ! j))) [0..<k]\<rparr>)"
  have "\<not> length as < length (mesh_actors (S (length as)))" by (simp add: S_def as_def)
  from update_mesh_actor_stop [OF this]
  have last: "update_mesh_actor (length as) (S (length as)) = (Some IndexError, S (length as))" .
  have "for_each update_mesh_actor [0..<length (all_meshes m)] (S 0)
        = (Some IndexError, S (length as))"
  proof (rule for_each_upt_raise [where j = "length as"])
    fix k assume "k < length as"
    then have "k < length (mesh_actors m)" by (simp add: as_def)
    then show "update_mesh_actor k (S k) = (None, S (Suc k))"
      unfolding S_def as_def by (rule update_mesh_actor_rounds)
  next
    show "length as < length (all_meshes m)" using assms by (simp add: as_def)
  next
    show "update_mesh_actor (length as) (S (length as)) = (Some IndexError, S (length as))"
      by (rule last)
  qed
  moreover have "S 0 = m"
    unfolding S_def as_def by (simp add: map_nth)
  ultimately show ?thesis by (simp only: fst_conv)
qed

lemma update_mesh_fast:
  assumes "scan_meshes (all_meshes m) 0 ms = ScanDone"
    and "length ms \<le> length (mesh_actors m)"
  shows "update_mesh (Many ms) m =
     (None,
      m\<lparr>all_meshes := ms,
        mesh_actors := moved_actors ms (mesh_actors m),
        vtk_calls := vtk_calls m
          @ map (\<lambda>a. SetPoints (aid a)) (take (length ms) (mesh_actors m))\<rparr>)"
proof -
  have "length (all_meshes (m\<lparr>all_meshes := ms\<rparr>))
        \<le> length (mesh_actors (m\<lparr>all_meshes := ms\<rparr>))"
    using assms(2) by simp
  from update_mesh_actor_loop [OF this] update_mesh_pass [OF assms(1)]
  show ?thesis by simp
qed

lemma update_mesh_fast_raise:
  assumes "scan_meshes (all_meshes m) 0 ms = ScanDone"
    and "length (mesh_actors m) < length ms"
  shows "fst (update_mesh (Many ms) m) = Some IndexError"
proof -
  have "length (mesh_actors (m\<lparr>all_meshes := ms\<rparr>))
        < length (all_meshes (m\<lparr>all_meshes := ms\<rparr>))"
    using assms(2) by simp
  from update_mesh_actor_loop_raise [OF this] update_mesh_pass [OF assms(1)]
  show ?thesis by simp
qed

text \<open>The rebuild: the loop, then the update of the list just stored.\<close>

lemma new_mesh_set_unfold:
  "new_mesh_set (Many ms) m =
     (case for_each new_mesh_actor ms
             ((fold ren_RemoveActor (mesh_actors m) (m\<lparr>all_meshes := ms\<rparr>))
                \<lparr>mesh_actors := []\<rparr>) of
        (Some e, m4) \<Rightarrow> (Some e, m4)
      | (None, m4) \<Rightarrow> update_mesh (Many (all_meshes m4)) m4)"
  by (subst new_mesh_set.simps(2)) (simp add: Let_def fold_ren_RemoveActor)

lemma moved_actors_built:
  "moved_actors ms (map (mesh_actor_built c opa first ms) [0..<length ms])
   = map (mesh_actor_built c opa first ms) [0..<length ms]"
  by (intro nth_equalityI)
     (simp_all add: moved_actors_def moved_actor_def mesh_actor_built_def)

lemma new_mesh_set_exact:
  assumes "list_all mesh_ok ms"
  shows "new_mesh_set (Many ms) m =
     (None,
      (meshes_created ms m)
        \<lparr>vtk_calls := vtk_calls (meshes_created ms m)
           @ map (\<lambda>j. SetPoints (next_actor m + j)) [0..<length ms]\<rparr>)"
proof -
  let ?ms = "ms"
  let ?c = "meshes_created ?ms m"
  have c: "all_meshes ?c = ?ms" "length (mesh_actors ?c) = length ?ms"
    by (simp_all add: meshes_created_def)
  have "new_mesh_set (Many ms) m = update_mesh (Many ?ms) ?c"
    by (simp add: new_mesh_set_unfold new_mesh_actor_loop [OF assms] c)
  also have "\<dots> = (None,
      ?c\<lparr>all_meshes := ?ms,
        mesh_actors := moved_actors (?ms) (mesh_actors ?c),
        vtk_calls := vtk_calls ?c
          @ map (\<lambda>a. SetPoints (aid a)) (take (length (?ms)) (mesh_actors ?c))\<rparr>)"
    using assms by (intro update_mesh_fast) (simp_all add: c scan_meshes_same_ok)
  also have "\<dots> = (None,
      ?c\<lparr>vtk_calls := vtk_calls ?c @ map (\<lambda>j. SetPoints (next_actor m + j)) [0..<length ?ms]\<rparr>)"
  proof -
    have ma: "moved_actors ?ms (mesh_actors ?c) = mesh_actors ?c"
      by (simp add: meshes_created_def moved_actors_built)
    have tr: "map (\<lambda>a. SetPoints (aid a)) (take (length ?ms) (mesh_actors ?c))
          = map (\<lambda>j. SetPoints (next_actor m + j)) [0..<length ?ms]"
      by (intro nth_equalityI)
         (simp_all add: meshes_created_def mesh_actor_built_def fresh_actor_def)
    show ?thesis
      unfolding ma tr by (simp add: meshes_created_def)
  qed
  finally show ?thesis .
qed

lemma new_mesh_set_raise:
  assumes "\<not> list_all mesh_ok ms"
  shows "fst (new_mesh_set (Many ms) m) \<noteq> None"
proof -
  let ?m3 = "(fold ren_RemoveActor (mesh_actors m) (m\<lparr>all_meshes := ms\<rparr>))
                \<lparr>mesh_actors := []\<rparr>"
  obtain r m4 where l: "for_each new_mesh_actor ms ?m3 = (r, m4)"
    by (cases "for_each new_mesh_actor ms ?m3")
  with new_mesh_actor_loop_raise [OF assms, of ?m3] obtain e where "r = Some e" by auto
  with l show ?thesis by (simp add: new_mesh_set_unfold)
qed

lemma mask_mesh_rounds:
  "mask_mesh (snd (new_mesh_actor mesh s)) = mask_mesh s"
  "mask_mesh (snd (update_mesh_actor k s)) = mask_mesh s"
proof -
  show "mask_mesh (snd (new_mesh_actor mesh s)) = mask_mesh s"
  proof (cases "mesh_ok mesh")
    case True
    from new_mesh_actor_step [OF this, of s] show ?thesis by (simp add: mask_mesh_def)
  next
    case False
    then show ?thesis by (simp add: new_mesh_actor_stop)
  qed
  show "mask_mesh (snd (update_mesh_actor k s)) = mask_mesh s"
    by (simp add: update_mesh_actor_def Let_def mask_mesh_def)
qed

lemma mask_update_mesh_same:
  assumes "scan_meshes (all_meshes m) 0 ms \<noteq> ScanRebuild"
  shows "mask_mesh (snd (update_mesh (Many ms) m)) = mask_mesh m"
proof (cases "scan_meshes (all_meshes m) 0 ms")
  case ScanRaise
  then show ?thesis by (simp add: update_mesh_raise)
next
  case ScanRebuild
  with assms show ?thesis by simp
next
  case ScanDone
  have "mask_mesh (snd (for_each update_mesh_actor [0..<length ms]
          (m\<lparr>all_meshes := ms\<rparr>))) = mask_mesh (m\<lparr>all_meshes := ms\<rparr>)"
    by (rule for_each_preserves) (rule mask_mesh_rounds)
  with update_mesh_pass [OF ScanDone] show ?thesis by (simp add: mask_mesh_def)
qed

lemma mask_new_mesh_set_list: "mask_mesh (snd (new_mesh_set (Many ms) m)) = mask_mesh m"
proof -
  let ?m3 = "(fold ren_RemoveActor (mesh_actors m) (m\<lparr>all_meshes := ms\<rparr>))
                \<lparr>mesh_actors := []\<rparr>"
  obtain r m4 where l: "for_each new_mesh_actor ms ?m3 = (r, m4)"
    by (cases "for_each new_mesh_actor ms ?m3")
  have "mask_mesh (snd (for_each new_mesh_actor ms ?m3)) = mask_mesh ?m3"
    by (rule for_each_preserves) (rule mask_mesh_rounds)
  with l have m4: "mask_mesh m4 = mask_mesh m"
    by (simp add: fold_ren_RemoveActor mask_mesh_def)
  show ?thesis
  proof (cases r)
    case (Some e)
    with l m4 show ?thesis by (simp add: new_mesh_set_unfold)
  next
    case None
    have "mask_mesh (snd (update_mesh (Many (all_meshes m4)) m4)) = mask_mesh m4"
      by (rule mask_update_mesh_same) (simp add: scan_meshes_same)
    with None l m4 show ?thesis by (simp add: new_mesh_set_unfold)
  qed
qed

lemma mask_update_mesh_list: "mask_mesh (snd (update_mesh (Many ms) m)) = mask_mesh m"
proof (cases "scan_meshes (all_meshes m) 0 ms = ScanRebuild")
  case True
  then show ?thesis by (simp add: update_mesh_rebuild mask_new_mesh_set_list)
next
  case False
  then show ?thesis by (rule mask_update_mesh_same)
qed

lemma mask_new_mesh_set: "mask_mesh (snd (new_mesh_set arg m)) = mask_mesh m"
  by (cases arg) (simp_all add: mask_new_mesh_set_list)

lemma mask_update_mesh: "mask_mesh (snd (update_mesh arg m)) = mask_mesh m"
  by (cases arg) (simp_all add: mask_update_mesh_list)

lemma mask_set_mesh:
  "mask_mesh (snd (set_mesh_color c m)) = mask_mesh m"
  "mask_mesh (snd (set_mesh_opacity x m)) = mask_mesh m"
  using mask_update_mesh [of "Many (all_meshes m)" "m\<lparr>mesh_color := c\<rparr>"]
    mask_update_mesh [of "Many (all_meshes m)" "m\<lparr>mesh_opacity := x\<rparr>"]
  by (simp_all add: set_mesh_color_def set_mesh_opacity_def mask_mesh_def)

subsection \<open>Muscles\<close>

declare new_muscle_set.simps(2) [simp del] update_muscle.simps(2) [simp del]

lemma new_muscle_actor_step:
  assumes "muscle_ok mesh"
  shows "new_muscle_actor mesh s =
     (None,
      s\<lparr>muscle_actors := muscle_actors s @
          [(fresh_actor (next_actor s))
             \<lparr>a_input := muscle_geom mesh, a_color := muscle_color s,
              a_opacity := muscle_opacity s, a_line_width := 5\<rparr>],
        ren_actors := add_item (next_actor s) (ren_actors s),
        next_actor := Suc (next_actor s),
        vtk_calls := vtk_calls s @ [AddActor (next_actor s), ResetCamera]\<rparr>)"
proof -
  from assms obtain cells where "closed_polylines (triangles mesh) = Some cells"
    by (auto simp: muscle_ok_def)
  with assms show ?thesis
    by (simp add: new_muscle_actor_def muscle_ok_def add_muscle_actor_def vtkActor_def
        ren_AddActor_def ren_ResetCamera_def fresh_actor_def muscle_geom_def outline_cells_def)
qed

lemma new_muscle_actor_stop:
  "\<not> muscle_ok mesh \<Longrightarrow> new_muscle_actor mesh s = (Some IndexError, s)"
  by (auto simp: new_muscle_actor_def muscle_ok_def split: option.splits if_splits)

lemma new_muscle_actor_rounds:
  fixes m :: model and ms :: "mesh list"
  defines "S \<equiv> \<lambda>k. m\<lparr>muscle_actors := muscle_actors m @
          map (muscle_actor_built (muscle_color m) (muscle_opacity m) (next_actor m) ms) [0..<k],
        ren_actors := fold add_item (map (\<lambda>j. next_actor m + j) [0..<k]) (ren_actors m),
        next_actor := next_actor m + k,
        vtk_calls := vtk_calls m @ created_calls (next_actor m) k\<rparr>"
  assumes "k < length ms" and "muscle_ok (ms ! k)"
  shows "new_muscle_actor (ms ! k) (S k) = (None, S (Suc k))"
  unfolding new_muscle_actor_step [OF assms(3)] S_def
  by (simp add: muscle_actor_built_def created_calls_def)

lemma new_muscle_actor_loop:
  assumes "list_all muscle_ok ms"
  shows "for_each new_muscle_actor ms
           ((fold ren_RemoveActor (muscle_actors m) (m\<lparr>all_muscles := ms\<rparr>))\<lparr>muscle_actors := []\<rparr>)
         = (None, muscles_created ms m)"
proof -
  define m3 where
    "m3 = (fold ren_RemoveActor (muscle_actors m) (m\<lparr>all_muscles := ms\<rparr>))\<lparr>muscle_actors := []\<rparr>"
  define S where "S = (\<lambda>k. m3\<lparr>muscle_actors := muscle_actors m3 @
          map (muscle_actor_built (muscle_color m3) (muscle_opacity m3) (next_actor m3) ms) [0..<k],
        ren_actors := fold add_item (map (\<lambda>j. next_actor m3 + j) [0..<k]) (ren_actors m3),
        next_actor := next_actor m3 + k,
        vtk_calls := vtk_calls m3 @ created_calls (next_actor m3) k\<rparr>)"
  have "for_each new_muscle_actor ms (S 0) = (None, S (length ms))"
  proof (rule for_each_nth)
    fix k assume k: "k < length ms"
    with assms have "muscle_ok (ms ! k)" by (simp add: list_all_length)
    with k show "new_muscle_actor (ms ! k) (S k) = (None, S (Suc k))"
      unfolding S_def by (rule new_muscle_actor_rounds)
  qed
  moreover have "S 0 = m3"
    unfolding S_def by (simp add: created_calls_def)
  moreover have "S (length ms) = muscles_created ms m"
    unfolding S_def m3_def muscles_created_def by (simp add: fold_ren_RemoveActor)
  ultimately show ?thesis unfolding m3_def by (simp only:)
qed

lemma new_muscle_actor_loop_raise:
  assumes "\<not> list_all muscle_ok ms"
  shows "fst (for_each new_muscle_actor ms s) \<noteq> None"
proof (rule for_each_raises_at [where bad = "\<lambda>mesh. \<not> muscle_ok mesh"])
  fix x s assume "\<not> muscle_ok x"
  then show "fst (new_muscle_actor x s) \<noteq> None" by (simp add: new_muscle_actor_stop)
next
  from assms show "\<exists>x \<in> set ms. \<not> muscle_ok x" by (simp add: list_all_iff)
qed

text \<open>The three ways out of the first loop of \<^verbatim>\<open>update_muscle\<close>.\<close>

lemma update_muscle_raise:
  "scan_meshes (all_muscles m) 0 ms = ScanRaise \<Longrightarrow>
   update_muscle (Many ms) m = (Some IndexError, m)"
  by (subst update_muscle.simps(2)) simp

lemma update_muscle_rebuild:
  "scan_meshes (all_muscles m) 0 ms = ScanRebuild \<Longrightarrow>
   update_muscle (Many ms) m = new_muscle_set (Many ms) m"
  by (subst update_muscle.simps(2)) simp

lemma update_muscle_pass:
  "scan_meshes (all_muscles m) 0 ms = ScanDone \<Longrightarrow>
   update_muscle (Many ms) m =
     for_each update_muscle_actor [0..<length ms] (m\<lparr>all_muscles := ms\<rparr>)"
  by (subst update_muscle.simps(2)) (simp add: Let_def)

lemma scan_muscles_same_ok:
  "list_all muscle_ok ms \<Longrightarrow> scan_meshes ms 0 ms = ScanDone"
proof -
  assume "list_all muscle_ok ms"
  then have "list_all (\<lambda>mesh. time_size mesh = 1) ms"
    by (simp add: list_all_iff muscle_ok_def)
  from scan_meshes_ok [OF this, of "[]"] show ?thesis by simp
qed

text \<open>The second loop of \<^verbatim>\<open>update_muscle\<close>.\<close>

lemma update_muscle_actor_step:
  "k < length (muscle_actors s) \<Longrightarrow>
   update_muscle_actor k s =
     (None,
      s\<lparr>muscle_actors := (muscle_actors s)
           [k := moved_actor (points (all_muscles s ! k)) (muscle_actors s ! k)],
        vtk_calls := vtk_calls s @ [SetPoints (aid (muscle_actors s ! k))]\<rparr>)"
  by (simp add: update_muscle_actor_def Let_def moved_actor_def)

lemma update_muscle_actor_stop:
  "\<not> k < length (muscle_actors s) \<Longrightarrow> update_muscle_actor k s = (Some IndexError, s)"
  by (simp add: update_muscle_actor_def)

lemma update_muscle_actor_rounds:
  fixes m :: model
  defines "as \<equiv> muscle_actors m"
  defines "S \<equiv> \<lambda>k. m\<lparr>muscle_actors :=
        map (\<lambda>j. if j < k then moved_actor (points (all_muscles m ! j)) (as ! j) else as ! j)
          [0..<length as],
        vtk_calls := vtk_calls m @ map (\<lambda>j. SetPoints (aid (as ! j))) [0..<k]\<rparr>"
  assumes "k < length as"
  shows "update_muscle_actor k (S k) = (None, S (Suc k))"
proof -
  let ?f = "\<lambda>k j. if j < k then moved_actor (points (all_muscles m ! j)) (as ! j) else as ! j"
  have l: "(map (?f k) [0..<length as])[k := moved_actor (points (all_muscles m ! k)) (as ! k)]
          = map (?f (Suc k)) [0..<length as]"
    using assms(3) by (intro nth_equalityI) (auto simp: nth_list_update less_Suc_eq)
  have "k < length (muscle_actors (S k))" using assms(3) by (simp add: S_def)
  from update_muscle_actor_step [OF this]
  have "update_muscle_actor k (S k) =
     (None, (S k)\<lparr>muscle_actors := (map (?f k) [0..<length as])
                    [k := moved_actor (points (all_muscles m ! k)) (as ! k)],
                  vtk_calls := vtk_calls (S k) @ [SetPoints (aid (as ! k))]\<rparr>)"
    using assms(3) by (simp add: S_def)
  also have "\<dots> = (None, S (Suc k))"
    by (simp add: S_def l)
  finally show ?thesis .
qed

lemma update_muscle_actor_loop:
  assumes "length (all_muscles m) \<le> length (muscle_actors m)"
  shows "for_each update_muscle_actor [0..<length (all_muscles m)] m =
     (None,
      m\<lparr>muscle_actors := moved_actors (all_muscles m) (muscle_actors m),
        vtk_calls := vtk_calls m
          @ map (\<lambda>a. SetPoints (aid a)) (take (length (all_muscles m)) (muscle_actors m))\<rparr>)"
proof -
  define as where "as = muscle_actors m"
  define n where "n = length (all_muscles m)"
  define S where "S = (\<lambda>k. m\<lparr>muscle_actors :=
        map (\<lambda>j. if j < k then moved_actor (points (all_muscles m ! j)) (as ! j) else as ! j)
          [0..<length as],
        vtk_calls := vtk_calls m @ map (\<lambda>j. SetPoints (aid (as ! j))) [0..<k]\<rparr>)"
  have "for_each update_muscle_actor [0..<n] (S 0) = (None, S n)"
  proof (rule for_each_upt)
    fix k assume "k < n"
    with assms have "k < length (muscle_actors m)" by (simp add: n_def)
    then show "update_muscle_actor k (S k) = (None, S (Suc k))"
      unfolding S_def as_def by (rule update_muscle_actor_rounds)
  qed
  moreover have "S 0 = m"
    unfolding S_def as_def by (simp add: map_nth)
  moreover have "S n =
      m\<lparr>muscle_actors := moved_actors (all_muscles m) as,
        vtk_calls := vtk_calls m @ map (\<lambda>a. SetPoints (aid a)) (take n as)\<rparr>"
  proof -
    have "map (\<lambda>j. SetPoints (aid (as ! j))) [0..<n] = map (\<lambda>a. SetPoints (aid a)) (take n as)"
      using assms by (intro nth_equalityI) (simp_all add: n_def as_def)
    then show ?thesis unfolding S_def moved_actors_def n_def by (simp only:)
  qed
  ultimately show ?thesis unfolding as_def n_def by (simp only:)
qed

lemma update_muscle_actor_loop_raise:
  assumes "length (muscle_actors m) < length (all_muscles m)"
  shows "fst (for_each update_muscle_actor [0..<length (all_muscles m)] m) = Some IndexError"
proof -
  define as where "as = muscle_actors m"
  define S where "S = (\<lambda>k. m\<lparr>muscle_actors :=
        map (\<lambda>j. if j < k then moved_actor (points (all_muscles m ! j)) (as ! j) else as ! j)
          [0..<length as],
        vtk_calls := vtk_calls m @ map (\<lambda>j. SetPoints (aid (as ! j))) [0..<k]\<rparr>)"
  have "\<not> length as < length (muscle_actors (S (length as)))" by (simp add: S_def as_def)
  from update_muscle_actor_stop [OF this]
  have last: "update_muscle_actor (length as) (S (length as)) = (Some IndexError, S (length as))" .
  have "for_each update_muscle_actor [0..<length (all_muscles m)] (S 0)
        = (Some IndexError, S (length as))"
  proof (rule for_each_upt_raise [where j = "length as"])
    fix k assume "k < length as"
    then have "k < length (muscle_actors m)" by (simp add: as_def)
    then show "update_muscle_actor k (S k) = (None, S (Suc k))"
      unfolding S_def as_def by (rule update_muscle_actor_rounds)
  next
    show "length as < length (all_muscles m)" using assms by (simp add: as_def)
  next
    show "update_muscle_actor (length as) (S (length as)) = (Some IndexError, S (length as))"
      by (rule last)
  qed
  moreover have "S 0 = m"
    unfolding S_def as_def by (simp add: map_nth)
  ultimately show ?thesis by (simp only: fst_conv)
qed

lemma update_muscle_fast:
  assumes "scan_meshes (all_muscles m) 0 ms = ScanDone"
    and "length ms \<le> length (muscle_actors m)"
  shows "update_muscle (Many ms) m =
     (None,
      m\<lparr>all_muscles := ms,
        muscle_actors := moved_actors ms (muscle_actors m),
        vtk_calls := vtk_calls m
          @ map (\<lambda>a. SetPoints (aid a)) (take (length ms) (muscle_actors m))\<rparr>)"
proof -
  have "length (all_muscles (m\<lparr>all_muscles := ms\<rparr>))
        \<le> length (muscle_actors (m\<lparr>all_muscles := ms\<rparr>))"
    using assms(2) by simp
  from update_muscle_actor_loop [OF this] update_muscle_pass [OF assms(1)]
  show ?thesis by simp
qed

lemma update_muscle_fast_raise:
  assumes "scan_meshes (all_muscles m) 0 ms = ScanDone"
    and "length (muscle_actors m) < length ms"
  shows "fst (update_muscle (Many ms) m) = Some IndexError"
proof -
  have "length (muscle_actors (m\<lparr>all_muscles := ms\<rparr>))
        < length (all_muscles (m\<lparr>all_muscles := ms\<rparr>))"
    using assms(2) by simp
  from update_muscle_actor_loop_raise [OF this] update_muscle_pass [OF assms(1)]
  show ?thesis by simp
qed

text \<open>The rebuild: the loop, then the update of the list just stored.\<close>

lemma new_muscle_set_unfold:
  "new_muscle_set (Many ms) m =
     (case for_each new_muscle_actor ms
             ((fold ren_RemoveActor (muscle_actors m) (m\<lparr>all_muscles := ms\<rparr>))
                \<lparr>muscle_actors := []\<rparr>) of
        (Some e, m4) \<Rightarrow> (Some e, m4)
      | (None, m4) \<Rightarrow> update_muscle (Many (all_muscles m4)) m4)"
  by (subst new_muscle_set.simps(2)) (simp add: Let_def fold_ren_RemoveActor)

lemma new_muscle_set_exact:
  assumes "list_all muscle_ok ms"
  shows "new_muscle_set (Many ms) m =
     (None,
      (muscles_created ms m)
        \<lparr>muscle_actors :=
           moved_actors ms (muscle_actors (muscles_created ms m)),
         vtk_calls := vtk_calls (muscles_created ms m)
           @ map (\<lambda>j. SetPoints (next_actor m + j)) [0..<length ms]\<rparr>)"
proof -
  let ?ms = "ms"
  let ?c = "muscles_created ?ms m"
  have c: "all_muscles ?c = ?ms" "length (muscle_actors ?c) = length ?ms"
    by (simp_all add: muscles_created_def)
  have "new_muscle_set (Many ms) m = update_muscle (Many ?ms) ?c"
    by (simp add: new_muscle_set_unfold new_muscle_actor_loop [OF assms] c)
  also have "\<dots> = (None,
      ?c\<lparr>all_muscles := ?ms,
        muscle_actors := moved_actors (?ms) (muscle_actors ?c),
        vtk_calls := vtk_calls ?c
          @ map (\<lambda>a. SetPoints (aid a)) (take (length (?ms)) (muscle_actors ?c))\<rparr>)"
    using assms by (intro update_muscle_fast) (simp_all add: c scan_muscles_same_ok)
  also have "\<dots> = (None,
      ?c\<lparr>muscle_actors := moved_actors ?ms (muscle_actors ?c),
         vtk_calls := vtk_calls ?c @ map (\<lambda>j. SetPoints (next_actor m + j)) [0..<length ?ms]\<rparr>)"
  proof -
    have tr: "map (\<lambda>a. SetPoints (aid a)) (take (length ?ms) (muscle_actors ?c))
          = map (\<lambda>j. SetPoints (next_actor m + j)) [0..<length ?ms]"
      by (intro nth_equalityI)
         (simp_all add: muscles_created_def muscle_actor_built_def fresh_actor_def)
    show ?thesis
      unfolding tr by (simp add: muscles_created_def)
  qed
  finally show ?thesis .
qed

lemma new_muscle_set_raise:
  assumes "\<not> list_all muscle_ok ms"
  shows "fst (new_muscle_set (Many ms) m) \<noteq> None"
proof -
  let ?m3 = "(fold ren_RemoveActor (muscle_actors m) (m\<lparr>all_muscles := ms\<rparr>))
                \<lparr>muscle_actors := []\<rparr>"
  obtain r m4 where l: "for_each new_muscle_actor ms ?m3 = (r, m4)"
    by (cases "for_each new_muscle_actor ms ?m3")
  with new_muscle_actor_loop_raise [OF assms, of ?m3] obtain e where "r = Some e" by auto
  with l show ?thesis by (simp add: new_muscle_set_unfold)
qed

lemma mask_muscle_rounds:
  "mask_muscle (snd (new_muscle_actor mesh s)) = mask_muscle s"
  "mask_muscle (snd (update_muscle_actor k s)) = mask_muscle s"
proof -
  show "mask_muscle (snd (new_muscle_actor mesh s)) = mask_muscle s"
  proof (cases "muscle_ok mesh")
    case True
    from new_muscle_actor_step [OF this, of s] show ?thesis by (simp add: mask_muscle_def)
  next
    case False
    then show ?thesis by (simp add: new_muscle_actor_stop)
  qed
  show "mask_muscle (snd (update_muscle_actor k s)) = mask_muscle s"
    by (simp add: update_muscle_actor_def Let_def mask_muscle_def)
qed

lemma mask_update_muscle_same:
  assumes "scan_meshes (all_muscles m) 0 ms \<noteq> ScanRebuild"
  shows "mask_muscle (snd (update_muscle (Many ms) m)) = mask_muscle m"
proof (cases "scan_meshes (all_muscles m) 0 ms")
  case ScanRaise
  then show ?thesis by (simp add: update_muscle_raise)
next
  case ScanRebuild
  with assms show ?thesis by simp
next
  case ScanDone
  have "mask_muscle (snd (for_each update_muscle_actor [0..<length ms]
          (m\<lparr>all_muscles := ms\<rparr>))) = mask_muscle (m\<lparr>all_muscles := ms\<rparr>)"
    by (rule for_each_preserves) (rule mask_muscle_rounds)
  with update_muscle_pass [OF ScanDone] show ?thesis by (simp add: mask_muscle_def)
qed

lemma mask_new_muscle_set_list: "mask_muscle (snd (new_muscle_set (Many ms) m)) = mask_muscle m"
proof -
  let ?m3 = "(fold ren_RemoveActor (muscle_actors m) (m\<lparr>all_muscles := ms\<rparr>))
                \<lparr>muscle_actors := []\<rparr>"
  obtain r m4 where l: "for_each new_muscle_actor ms ?m3 = (r, m4)"
    by (cases "for_each new_muscle_actor ms ?m3")
  have "mask_muscle (snd (for_each new_muscle_actor ms ?m3)) = mask_muscle ?m3"
    by (rule for_each_preserves) (rule mask_muscle_rounds)
  with l have m4: "mask_muscle m4 = mask_muscle m"
    by (simp add: fold_ren_RemoveActor mask_muscle_def)
  show ?thesis
  proof (cases r)
    case (Some e)
    with l m4 show ?thesis by (simp add: new_muscle_set_unfold)
  next
    case None
    have "mask_muscle (snd (update_muscle (Many (all_muscles m4)) m4)) = mask_muscle m4"
      by (rule mask_update_muscle_same) (simp add: scan_meshes_same)
    with None l m4 show ?thesis by (simp add: new_muscle_set_unfold)
  qed
qed

lemma mask_update_muscle_list: "mask_muscle (snd (update_muscle (Many ms) m)) = mask_muscle m"
proof (cases "scan_meshes (all_muscles m) 0 ms = ScanRebuild")
  case True
  then show ?thesis by (simp add: update_muscle_rebuild mask_new_muscle_set_list)
next
  case False
  then show ?thesis by (rule mask_update_muscle_same)
qed

lemma mask_new_muscle_set: "mask_muscle (snd (new_muscle_set arg m)) = mask_muscle m"
  by (cases arg) (simp_all add: mask_new_muscle_set_list)

lemma mask_update_muscle: "mask_muscle (snd (update_muscle arg m)) = mask_muscle m"
  by (cases arg) (simp_all add: mask_update_muscle_list)

lemma mask_set_muscle:
  "mask_muscle (snd (set_muscle_color c m)) = mask_muscle m"
  "mask_muscle (snd (set_muscle_opacity x m)) = mask_muscle m"
  using mask_update_muscle [of "Many (all_muscles m)" "m\<lparr>muscle_opacity := x\<rparr>"]
  by (simp_all add: set_muscle_color_def set_muscle_opacity_def mask_muscle_def)

subsection \<open>Systems of axes\<close>

declare new_rt_set.simps(2) [simp del] update_rt.simps(2) [simp del]

lemma for_each_raises_inv:
  assumes "I s"
    and "\<And>x s. I s \<Longrightarrow> I (snd (body x s))"
    and "\<And>x s. x \<in> set xs \<Longrightarrow> bad x \<Longrightarrow> I s \<Longrightarrow> fst (body x s) \<noteq> None"
    and "\<exists>x \<in> set xs. bad x"
  shows "fst (for_each body xs s) \<noteq> None"
  using assms(1,3,4)
proof (induction xs arbitrary: s)
  case Nil
  then show ?case by simp
next
  case (Cons x xs)
  obtain r s' where b: "body x s = (r, s')" by (cases "body x s")
  from assms(2) [OF Cons.prems(1), of x] b have i': "I s'" by simp
  show ?case
  proof (cases r)
    case (Some e)
    with b show ?thesis by simp
  next
    case None
    with b Cons.prems(2) [of x s] Cons.prems(1) have "\<not> bad x" by auto
    with Cons.prems(3) have "\<exists>y \<in> set xs. bad y" by auto
    with Cons.IH [OF i'] Cons.prems(2) have "fst (for_each body xs s') \<noteq> None" by auto
    with b None show ?thesis by simp
  qed
qed

lemma new_rt_actor_step:
  assumes "rt_ok rt"
  shows "new_rt_actor rt s =
     (None,
      s\<lparr>rt_actors := rt_actors s @ [rt_actor_built (rt_width s) (next_actor s) 0],
        ren_actors := add_item (next_actor s) (ren_actors s),
        next_actor := Suc (next_actor s),
        vtk_calls := vtk_calls s @ [AddActor (next_actor s), ResetCamera]\<rparr>)"
  using assms
  by (simp add: new_rt_actor_def rt_ok_def vtkActor_def ren_AddActor_def ren_ResetCamera_def
      fresh_actor_def rt_actor_built_def)

lemma new_rt_actor_stop:
  "\<not> rt_ok rt \<Longrightarrow> new_rt_actor rt s = (Some IndexError, s)"
  by (simp add: new_rt_actor_def rt_ok_def)

lemma new_rt_actor_rounds:
  fixes m :: model and rts :: "rototrans list"
  defines "S \<equiv> \<lambda>k. m\<lparr>rt_actors := rt_actors m @
          map (rt_actor_built (rt_width m) (next_actor m)) [0..<k],
        ren_actors := fold add_item (map (\<lambda>j. next_actor m + j) [0..<k]) (ren_actors m),
        next_actor := next_actor m + k,
        vtk_calls := vtk_calls m @ created_calls (next_actor m) k\<rparr>"
  assumes "rt_ok rt"
  shows "new_rt_actor rt (S k) = (None, S (Suc k))"
  unfolding new_rt_actor_step [OF assms(2)] S_def
  by (simp add: rt_actor_built_def created_calls_def)

lemma new_rt_actor_loop:
  assumes "list_all rt_ok rts"
  shows "for_each new_rt_actor rts ((fold ren_RemoveActor (rt_actors m) m)\<lparr>rt_actors := []\<rparr>)
         = (None, rts_created rts m)"
proof -
  define m2 where "m2 = (fold ren_RemoveActor (rt_actors m) m)\<lparr>rt_actors := []\<rparr>"
  define S where "S = (\<lambda>k. m2\<lparr>rt_actors := rt_actors m2 @
          map (rt_actor_built (rt_width m2) (next_actor m2)) [0..<k],
        ren_actors := fold add_item (map (\<lambda>j. next_actor m2 + j) [0..<k]) (ren_actors m2),
        next_actor := next_actor m2 + k,
        vtk_calls := vtk_calls m2 @ created_calls (next_actor m2) k\<rparr>)"
  have "for_each new_rt_actor rts (S 0) = (None, S (length rts))"
  proof (rule for_each_nth)
    fix k assume k: "k < length rts"
    with assms have "rt_ok (rts ! k)" by (simp add: list_all_length)
    then show "new_rt_actor (rts ! k) (S k) = (None, S (Suc k))"
      unfolding S_def by (rule new_rt_actor_rounds)
  qed
  moreover have "S 0 = m2"
    unfolding S_def by (simp add: created_calls_def)
  moreover have "S (length rts) = rts_created rts m"
    unfolding S_def m2_def rts_created_def by (simp add: fold_ren_RemoveActor)
  ultimately show ?thesis unfolding m2_def by (simp only:)
qed

lemma new_rt_actor_loop_raise:
  assumes "\<not> list_all rt_ok rts"
  shows "fst (for_each new_rt_actor rts s) \<noteq> None"
proof (rule for_each_raises_at [where bad = "\<lambda>rt. \<not> rt_ok rt"])
  fix x s assume "\<not> rt_ok x"
  then show "fst (new_rt_actor x s) \<noteq> None" by (simp add: new_rt_actor_stop)
next
  from assms show "\<exists>x \<in> set rts. \<not> rt_ok x" by (simp add: list_all_iff)
qed

text \<open>The two ways through \<^verbatim>\<open>update_rt\<close>.\<close>

lemma update_rt_rebuild:
  "length ms \<noteq> n_rt m \<Longrightarrow> update_rt (Many ms) m = new_rt_set (Many ms) m"
  by (subst update_rt.simps(2)) simp

lemma update_rt_pass:
  "length ms = n_rt m \<Longrightarrow>
   update_rt (Many ms) m =
     for_each update_rt_actor [0..<length ms] (m\<lparr>all_rt := ms\<rparr>)"
  by (subst update_rt.simps(2)) (simp add: Let_def)

lemma update_rt_actor_step:
  "k < length (rt_actors s) \<Longrightarrow> rt_ok (all_rt s ! k) \<Longrightarrow>
   update_rt_actor k s =
     (None,
      s\<lparr>rt_actors := (rt_actors s)
           [k := moved_actor (rt_points (rt_length s) (all_rt s ! k)) (rt_actors s ! k)],
        vtk_calls := vtk_calls s @ [SetPoints (aid (rt_actors s ! k))]\<rparr>)"
  by (simp add: update_rt_actor_def Let_def moved_actor_def rt_points_def rt_ok_def)

lemma update_rt_actor_stop:
  "\<not> (k < length (rt_actors s) \<and> rt_ok (all_rt s ! k)) \<Longrightarrow>
   update_rt_actor k s = (Some IndexError, s)"
  by (auto simp: update_rt_actor_def Let_def rt_ok_def)

lemma update_rt_actor_keeps:
  "length (rt_actors (snd (update_rt_actor k s))) = length (rt_actors s)"
  "all_rt (snd (update_rt_actor k s)) = all_rt s"
  "mask_rt (snd (update_rt_actor k s)) = mask_rt s"
  by (simp_all add: update_rt_actor_def Let_def mask_rt_def)

lemma update_rt_actor_rounds:
  fixes m :: model
  defines "as \<equiv> rt_actors m"
  defines "S \<equiv> \<lambda>k. m\<lparr>rt_actors :=
        map (\<lambda>j. if j < k then moved_actor (rt_points (rt_length m) (all_rt m ! j)) (as ! j)
                  else as ! j) [0..<length as],
        vtk_calls := vtk_calls m @ map (\<lambda>j. SetPoints (aid (as ! j))) [0..<k]\<rparr>"
  assumes "k < length as" and "rt_ok (all_rt m ! k)"
  shows "update_rt_actor k (S k) = (None, S (Suc k))"
proof -
  let ?f = "\<lambda>k j. if j < k then moved_actor (rt_points (rt_length m) (all_rt m ! j)) (as ! j)
                   else as ! j"
  have l: "(map (?f k) [0..<length as])
             [k := moved_actor (rt_points (rt_length m) (all_rt m ! k)) (as ! k)]
          = map (?f (Suc k)) [0..<length as]"
    using assms(3) by (intro nth_equalityI) (auto simp: nth_list_update less_Suc_eq)
  have "k < length (rt_actors (S k))" "rt_ok (all_rt (S k) ! k)"
    using assms(3,4) by (simp_all add: S_def)
  from update_rt_actor_step [OF this]
  have "update_rt_actor k (S k) =
     (None, (S k)\<lparr>rt_actors := (map (?f k) [0..<length as])
                    [k := moved_actor (rt_points (rt_length m) (all_rt m ! k)) (as ! k)],
                  vtk_calls := vtk_calls (S k) @ [SetPoints (aid (as ! k))]\<rparr>)"
    using assms(3) by (simp add: S_def)
  also have "\<dots> = (None, S (Suc k))"
    by (simp add: S_def l)
  finally show ?thesis .
qed

lemma update_rt_actor_loop:
  assumes "length (all_rt m) \<le> length (rt_actors m)" and "list_all rt_ok (all_rt m)"
  shows "for_each update_rt_actor [0..<length (all_rt m)] m =
     (None,
      m\<lparr>rt_actors := moved_rt_actors (rt_length m) (all_rt m) (rt_actors m),
        vtk_calls := vtk_calls m
          @ map (\<lambda>a. SetPoints (aid a)) (take (length (all_rt m)) (rt_actors m))\<rparr>)"
proof -
  define as where "as = rt_actors m"
  define n where "n = length (all_rt m)"
  define S where "S = (\<lambda>k. m\<lparr>rt_actors :=
        map (\<lambda>j. if j < k then moved_actor (rt_points (rt_length m) (all_rt m ! j)) (as ! j)
                  else as ! j) [0..<length as],
        vtk_calls := vtk_calls m @ map (\<lambda>j. SetPoints (aid (as ! j))) [0..<k]\<rparr>)"
  have "for_each update_rt_actor [0..<n] (S 0) = (None, S n)"
  proof (rule for_each_upt)
    fix k assume k: "k < n"
    with assms(1) have "k < length (rt_actors m)" by (simp add: n_def)
    moreover from k assms(2) have "rt_ok (all_rt m ! k)" by (simp add: n_def list_all_length)
    ultimately show "update_rt_actor k (S k) = (None, S (Suc k))"
      unfolding S_def as_def by (rule update_rt_actor_rounds)
  qed
  moreover have "S 0 = m"
    unfolding S_def as_def by (simp add: map_nth)
  moreover have "S n =
      m\<lparr>rt_actors := moved_rt_actors (rt_length m) (all_rt m) as,
        vtk_calls := vtk_calls m @ map (\<lambda>a. SetPoints (aid a)) (take n as)\<rparr>"
  proof -
    have "map (\<lambda>j. SetPoints (aid (as ! j))) [0..<n] = map (\<lambda>a. SetPoints (aid a)) (take n as)"
      using assms(1) by (intro nth_equalityI) (simp_all add: n_def as_def)
    then show ?thesis unfolding S_def moved_rt_actors_def n_def by (simp only:)
  qed
  ultimately show ?thesis unfolding as_def n_def by (simp only:)
qed

lemma update_rt_actor_loop_raise:
  assumes "\<not> (length (all_rt m) \<le> length (rt_actors m) \<and> list_all rt_ok (all_rt m))"
  shows "fst (for_each update_rt_actor [0..<length (all_rt m)] m) \<noteq> None"
proof (rule for_each_raises_inv
    [where I = "\<lambda>s. length (rt_actors s) = length (rt_actors m) \<and> all_rt s = all_rt m"
       and bad = "\<lambda>k. \<not> (k < length (rt_actors m) \<and> rt_ok (all_rt m ! k))"])
  show "length (rt_actors m) = length (rt_actors m) \<and> all_rt m = all_rt m" by simp
next
  fix x and s :: model
  assume "length (rt_actors s) = length (rt_actors m) \<and> all_rt s = all_rt m"
  then show "length (rt_actors (snd (update_rt_actor x s))) = length (rt_actors m)
             \<and> all_rt (snd (update_rt_actor x s)) = all_rt m"
    by (simp add: update_rt_actor_keeps)
next
  fix x and s :: model
  assume "\<not> (x < length (rt_actors m) \<and> rt_ok (all_rt m ! x))"
    and "length (rt_actors s) = length (rt_actors m) \<and> all_rt s = all_rt m"
  then have "\<not> (x < length (rt_actors s) \<and> rt_ok (all_rt s ! x))" by simp
  then show "fst (update_rt_actor x s) \<noteq> None" by (simp add: update_rt_actor_stop)
next
  from assms consider "length (rt_actors m) < length (all_rt m)" | "\<not> list_all rt_ok (all_rt m)"
    by fastforce
  then show "\<exists>k \<in> set [0..<length (all_rt m)].
               \<not> (k < length (rt_actors m) \<and> rt_ok (all_rt m ! k))"
  proof cases
    case 1
    then show ?thesis by (intro bexI [of _ "length (rt_actors m)"]) simp_all
  next
    case 2
    then obtain k where "k < length (all_rt m)" "\<not> rt_ok (all_rt m ! k)"
      by (auto simp: list_all_length)
    then show ?thesis by (intro bexI [of _ k]) simp_all
  qed
qed

lemma update_rt_fast:
  assumes "length ms = n_rt m"
    and "length ms \<le> length (rt_actors m)"
    and "list_all rt_ok ms"
  shows "update_rt (Many ms) m =
     (None,
      m\<lparr>all_rt := ms,
        rt_actors := moved_rt_actors (rt_length m) ms (rt_actors m),
        vtk_calls := vtk_calls m
          @ map (\<lambda>a. SetPoints (aid a)) (take (length ms) (rt_actors m))\<rparr>)"
proof -
  have "length (all_rt (m\<lparr>all_rt := ms\<rparr>))
        \<le> length (rt_actors (m\<lparr>all_rt := ms\<rparr>))"
    and "list_all rt_ok (all_rt (m\<lparr>all_rt := ms\<rparr>))"
    using assms(2,3) by simp_all
  from update_rt_actor_loop [OF this] update_rt_pass [OF assms(1)]
  show ?thesis by simp
qed

lemma update_rt_fast_raise:
  assumes "length ms = n_rt m"
    and "\<not> (length ms \<le> length (rt_actors m) \<and> list_all rt_ok ms)"
  shows "fst (update_rt (Many ms) m) \<noteq> None"
proof -
  have "\<not> (length (all_rt (m\<lparr>all_rt := ms\<rparr>))
           \<le> length (rt_actors (m\<lparr>all_rt := ms\<rparr>))
         \<and> list_all rt_ok (all_rt (m\<lparr>all_rt := ms\<rparr>)))"
    using assms(2) by simp
  from update_rt_actor_loop_raise [OF this] update_rt_pass [OF assms(1)]
  show ?thesis by simp
qed

lemma new_rt_set_unfold:
  "new_rt_set (Many ms) m =
     (case for_each new_rt_actor ms
             ((fold ren_RemoveActor (rt_actors m) m)\<lparr>rt_actors := []\<rparr>) of
        (Some e, m3) \<Rightarrow> (Some e, m3)
      | (None, m3) \<Rightarrow> update_rt (Many ms) (m3\<lparr>n_rt := length ms\<rparr>))"
  by (subst new_rt_set.simps(2)) (unfold Let_def, rule refl)

lemma new_rt_set_exact:
  assumes "list_all rt_ok ms"
  shows "new_rt_set (Many ms) m =
     (None,
      (rts_created ms m)
        \<lparr>n_rt := length ms,
         all_rt := ms,
         rt_actors := moved_rt_actors (rt_length m) ms
                        (rt_actors (rts_created ms m)),
         vtk_calls := vtk_calls (rts_created ms m)
           @ map (\<lambda>j. SetPoints (next_actor m + j)) [0..<length ms]\<rparr>)"
proof -
  let ?rts = "ms"
  let ?c = "(rts_created ?rts m)\<lparr>n_rt := length ?rts\<rparr>"
  have c: "n_rt ?c = length ?rts" "length (rt_actors ?c) = length ?rts"
    by (simp_all add: rts_created_def)
  have "new_rt_set (Many ms) m = update_rt (Many ?rts) ?c"
    by (simp add: new_rt_set_unfold new_rt_actor_loop [OF assms])
  also have "\<dots> = (None,
      ?c\<lparr>all_rt := ?rts,
        rt_actors := moved_rt_actors (rt_length ?c) (?rts) (rt_actors ?c),
        vtk_calls := vtk_calls ?c
          @ map (\<lambda>a. SetPoints (aid a)) (take (length (?rts)) (rt_actors ?c))\<rparr>)"
    using assms by (intro update_rt_fast) (simp_all add: rts_created_def)
  also have "\<dots> = (None,
      (rts_created ?rts m)
        \<lparr>n_rt := length ?rts,
         all_rt := ?rts,
         rt_actors := moved_rt_actors (rt_length m) ?rts (rt_actors (rts_created ?rts m)),
         vtk_calls := vtk_calls (rts_created ?rts m)
           @ map (\<lambda>j. SetPoints (next_actor m + j)) [0..<length ?rts]\<rparr>)"
  proof -
    have tr: "map (\<lambda>a. SetPoints (aid a)) (take (length ?rts) (rt_actors ?c))
          = map (\<lambda>j. SetPoints (next_actor m + j)) [0..<length ?rts]"
      by (intro nth_equalityI)
         (simp_all add: rts_created_def rt_actor_built_def fresh_actor_def)
    show ?thesis
      unfolding tr by (simp add: rts_created_def)
  qed
  finally show ?thesis .
qed

lemma new_rt_set_raise:
  assumes "\<not> list_all rt_ok ms"
  shows "fst (new_rt_set (Many ms) m) \<noteq> None"
proof -
  let ?m2 = "(fold ren_RemoveActor (rt_actors m) m)\<lparr>rt_actors := []\<rparr>"
  obtain r m3 where l: "for_each new_rt_actor ms ?m2 = (r, m3)"
    by (cases "for_each new_rt_actor ms ?m2")
  with new_rt_actor_loop_raise [OF assms, of ?m2] obtain e where "r = Some e" by auto
  with l show ?thesis by (simp add: new_rt_set_unfold)
qed

lemma mask_rt_rounds:
  "mask_rt (snd (new_rt_actor rt s)) = mask_rt s"
  "mask_rt (snd (update_rt_actor k s)) = mask_rt s"
proof -
  show "mask_rt (snd (new_rt_actor rt s)) = mask_rt s"
  proof (cases "rt_ok rt")
    case True
    from new_rt_actor_step [OF this, of s] show ?thesis by (simp add: mask_rt_def)
  next
    case False
    then show ?thesis by (simp add: new_rt_actor_stop)
  qed
  show "mask_rt (snd (update_rt_actor k s)) = mask_rt s"
    by (rule update_rt_actor_keeps)
qed

lemma mask_update_rt_same:
  assumes "length ms = n_rt m"
  shows "mask_rt (snd (update_rt (Many ms) m)) = mask_rt m"
proof -
  have "mask_rt (snd (for_each update_rt_actor [0..<length ms]
          (m\<lparr>all_rt := ms\<rparr>))) = mask_rt (m\<lparr>all_rt := ms\<rparr>)"
    by (rule for_each_preserves) (rule mask_rt_rounds)
  with update_rt_pass [OF assms] show ?thesis by (simp add: mask_rt_def)
qed

lemma mask_new_rt_set_list: "mask_rt (snd (new_rt_set (Many ms) m)) = mask_rt m"
proof -
  let ?m2 = "(fold ren_RemoveActor (rt_actors m) m)\<lparr>rt_actors := []\<rparr>"
  obtain r m3 where l: "for_each new_rt_actor ms ?m2 = (r, m3)"
    by (cases "for_each new_rt_actor ms ?m2")
  have "mask_rt (snd (for_each new_rt_actor ms ?m2)) = mask_rt ?m2"
    by (rule for_each_preserves) (rule mask_rt_rounds)
  with l have m3: "mask_rt m3 = mask_rt m"
    by (simp add: fold_ren_RemoveActor mask_rt_def)
  show ?thesis
  proof (cases r)
    case (Some e)
    with l m3 show ?thesis by (simp add: new_rt_set_unfold)
  next
    case None
    have "mask_rt (snd (update_rt (Many ms) (m3\<lparr>n_rt := length ms\<rparr>)))
          = mask_rt (m3\<lparr>n_rt := length ms\<rparr>)"
      by (rule mask_update_rt_same) simp
    moreover have "mask_rt (m3\<lparr>n_rt := length ms\<rparr>) = mask_rt m3"
      by (simp add: mask_rt_def)
    ultimately show ?thesis using None l m3 by (simp add: new_rt_set_unfold)
  qed
qed

lemma mask_update_rt_list: "mask_rt (snd (update_rt (Many ms) m)) = mask_rt m"
proof (cases "length ms = n_rt m")
  case True
  then show ?thesis by (rule mask_update_rt_same)
next
  case False
  then show ?thesis by (simp add: update_rt_rebuild mask_new_rt_set_list)
qed

lemma mask_new_rt_set: "mask_rt (snd (new_rt_set arg m)) = mask_rt m"
  by (cases arg) (simp_all add: mask_new_rt_set_list)

lemma mask_update_rt: "mask_rt (snd (update_rt arg m)) = mask_rt m"
  by (cases arg) (simp_all add: mask_update_rt_list)

subsection \<open>Wrappings\<close>

lemma mask_new_wrapping_actor:
  "mask_wrapping (snd (new_wrapping_actor seg w s)) = mask_wrapping s"
  by (simp add: new_wrapping_actor_def add_wrapping_actor_def vtkActor_def ren_AddActor_def
      ren_ResetCamera_def mask_wrapping_def Let_def split: option.splits)

declare new_wrapping_set.simps(2) [simp del] update_wrapping_seg.simps(2) [simp del]

lemma mask_new_wrapping_set:
  "mask_wrapping (snd (new_wrapping_set arg seg m)) = mask_wrapping m"
proof (cases arg)
  case (One x)
  then show ?thesis by simp
next
  case (Many ms)
  have "mask_wrapping (snd (for_each (new_wrapping_actor seg) ws s)) = mask_wrapping s" for ws s
    by (rule for_each_preserves) (rule mask_new_wrapping_actor)
  then show ?thesis
    unfolding Many
    by (simp add: new_wrapping_set.simps(2) Let_def fold_ren_RemoveActor)
       (simp add: mask_wrapping_def)
qed

lemma mask_check_wrapping:
  "mask_wrapping (snd (check_wrapping ws seg iw s)) = mask_wrapping s"
  by (cases iw) (simp add: check_wrapping_def mask_new_wrapping_set)

lemma mask_update_wrapping_actor:
  "mask_wrapping (snd (update_wrapping_actor seg i s)) = mask_wrapping s"
  by (simp add: update_wrapping_actor_def Let_def mask_wrapping_def)

lemma mask_update_wrapping_list:
  "mask_wrapping (snd (update_wrapping_seg (seg, Many ws) s)) = mask_wrapping s"
proof -
  obtain r s1 where c: "for_each (check_wrapping ws seg) (enumerate 0 ws) s = (r, s1)"
    by (cases "for_each (check_wrapping ws seg) (enumerate 0 ws) s")
  have "mask_wrapping (snd (for_each (check_wrapping ws seg) (enumerate 0 ws) s)) = mask_wrapping s"
    by (rule for_each_preserves) (rule mask_check_wrapping)
  with c have s1: "mask_wrapping s1 = mask_wrapping s" by simp
  have pass: "mask_wrapping (snd (for_each (update_wrapping_actor seg) is s2)) = mask_wrapping s2"
    for "is" s2
    by (rule for_each_preserves) (rule mask_update_wrapping_actor)
  have upd: "mask_wrapping (s1\<lparr>all_wrappings := x\<rparr>) = mask_wrapping s1" for x
    by (simp add: mask_wrapping_def)
  show ?thesis
  proof (cases r)
    case (Some e)
    with c s1 show ?thesis by (simp add: update_wrapping_seg.simps(2))
  next
    case None
    with c s1 show ?thesis
      by (simp add: update_wrapping_seg.simps(2) Let_def pass upd)
  qed
qed

lemma mask_update_wrapping_seg:
  "mask_wrapping (snd (update_wrapping_seg sw s)) = mask_wrapping s"
proof (cases sw)
  case (Pair seg arg)
  then show ?thesis by (cases arg) (simp_all add: mask_update_wrapping_list)
qed

lemma mask_update_wrapping:
  "mask_wrapping (snd (update_wrapping aw m)) = mask_wrapping m"
proof -
  have "mask_wrapping (snd (for_each update_wrapping_seg xs s)) = mask_wrapping s" for xs s
    by (rule for_each_preserves) (rule mask_update_wrapping_seg)
  then show ?thesis
    by (simp add: update_wrapping_def Let_def) (simp add: mask_wrapping_def)
qed

lemma mask_set_wrapping:
  "mask_wrapping (snd (set_wrapping_color c m)) = mask_wrapping m"
  "mask_wrapping (snd (set_wrapping_opacity x m)) = mask_wrapping m"
  using mask_update_wrapping [of "map Many (all_wrappings m)" "m\<lparr>wrapping_color := c\<rparr>"]
    mask_update_wrapping [of "map Many (all_wrappings m)" "m\<lparr>wrapping_opacity := x\<rparr>"]
  by (simp_all add: set_wrapping_color_def set_wrapping_opacity_def mask_wrapping_def)

subsection \<open>What a call leaves alone\<close>

lemma mask_create_global_ref_frame:
  "mask_ref_frame (snd (create_global_ref_frame m)) = mask_ref_frame m"
  by (simp add: create_global_ref_frame_def vtkActor_def ren_AddActor_def ren_ResetCamera_def
      mask_ref_frame_def Let_def)

lemmas mask_defs =
  mask_markers_def mask_contacts_def mask_global_center_of_mass_def
  mask_segments_center_of_mass_def mask_mesh_def mask_muscle_def mask_wrapping_def
  mask_rt_def mask_ref_frame_def

lemma run_mask: "mask_of (category_of c) (snd (run c m)) = mask_of (category_of c) m"
  by (cases c)
     (simp_all add: mask_update_markers mask_new_marker_set mask_set_markers
        mask_update_contacts mask_new_contact_set mask_set_contacts
        mask_update_global_center_of_mass mask_new_global_center_of_mass_set
        mask_set_global_center_of_mass
        mask_update_segments_center_of_mass mask_new_segments_center_of_mass_set
        mask_set_segments_center_of_mass
        mask_update_mesh mask_new_mesh_set mask_set_mesh
        mask_update_muscle mask_new_muscle_set mask_set_muscle
        mask_update_wrapping mask_new_wrapping_set mask_set_wrapping
        mask_update_rt mask_new_rt_set mask_create_global_ref_frame)

lemma run_keeps:
  assumes "\<And>s. f (mask_of (category_of c) s) = f s"
  shows "f (snd (run c m)) = f m"
proof -
  have "f (snd (run c m)) = f (mask_of (category_of c) (snd (run c m)))"
    by (simp add: assms)
  also have "\<dots> = f (mask_of (category_of c) m)" by (simp add: run_mask)
  also have "\<dots> = f m" by (simp add: assms)
  finally show ?thesis .
qed

subsection \<open>After a rebuild, and an update twice\<close>

lemma new_marker_set_returns:
  assumes "fst (new_marker_set mk m) = None"
  shows "time_size mk = 1" and "time_size mk = 1"
proof -
  show g: "time_size mk = 1"
    using assms by (cases "time_size mk = 1") (simp_all add: new_marker_set_unfold)
  show "time_size mk = 1"
    using assms g by (cases "time_size mk = 1") (simp_all add: new_marker_set_raise_late)
qed

lemma new_marker_set_post:
  assumes "fst (new_marker_set mk m) = None"
  shows "markers_actors (snd (new_marker_set mk m)) =
           map (\<lambda>j. \<lparr>aid = next_actor m + j,
                      a_input = SphereSource (points mk ! j) (markers_size m),
                      a_color = markers_color m, a_opacity = markers_opacity m,
                      a_line_width = 1\<rparr>) [0..<channel_size mk]"
    and "vtk_calls (snd (new_marker_set mk m)) =
           vtk_calls m @ map (\<lambda>a. RemoveActor (aid a)) (markers_actors m)
           @ created_calls (next_actor m) (channel_size mk)
           @ map (\<lambda>j. SetInputConnection (next_actor m + j)) [0..<channel_size mk]"
    and "markers (snd (new_marker_set mk m)) = mk"
  using new_marker_set_exact [OF new_marker_set_returns [OF assms], of m]
  by (simp_all add: sphere_actor_def fresh_actor_def)

lemma update_markers_twice:
  assumes "time_size mk = 1" and "channel_size mk = channel_size (markers m)"
    and "fst (update_markers mk m) = None"
  shows "update_markers mk (snd (update_markers mk m)) =
     (None,
      (snd (update_markers mk m))
        \<lparr>vtk_calls := vtk_calls (snd (update_markers mk m))
           @ map (\<lambda>a. SetInputConnection (aid a)) (markers_actors m)\<rparr>)"
proof -
  have le: "length (markers_actors m) \<le> channel_size mk"
  proof (rule ccontr)
    assume "\<not> length (markers_actors m) \<le> channel_size mk"
    then have "channel_size mk < length (markers_actors (m\<lparr>markers := mk\<rparr>))" by simp
    from update_marker_actor_pass_raise [OF this] update_markers_pass [OF assms(1,2)] assms(3)
    show False by simp
  qed
  define m1 where "m1 =
      m\<lparr>markers := mk,
        markers_actors :=
          map (\<lambda>j. sphere_actor mk (markers_color m) (markers_opacity m) (markers_size m) j
                     (markers_actors m ! j)) [0..<length (markers_actors m)],
        vtk_calls := vtk_calls m @ map (\<lambda>a. SetInputConnection (aid a)) (markers_actors m)\<rparr>"
  have first: "update_markers mk m = (None, m1)"
    unfolding m1_def using assms(1,2) le by (rule update_markers_fast)
  have "update_markers mk m1 =
     (None,
      m1\<lparr>markers := mk,
        markers_actors :=
          map (\<lambda>j. sphere_actor mk (markers_color m1) (markers_opacity m1) (markers_size m1) j
                     (markers_actors m1 ! j)) [0..<length (markers_actors m1)],
        vtk_calls := vtk_calls m1 @ map (\<lambda>a. SetInputConnection (aid a)) (markers_actors m1)\<rparr>)"
    using assms(1) le by (intro update_markers_fast) (simp_all add: m1_def)
  also have "\<dots> = (None,
      m1\<lparr>vtk_calls := vtk_calls m1 @ map (\<lambda>a. SetInputConnection (aid a)) (markers_actors m)\<rparr>)"
  proof -
    have a: "map (\<lambda>j. sphere_actor mk (markers_color m1) (markers_opacity m1) (markers_size m1) j
                     (markers_actors m1 ! j)) [0..<length (markers_actors m1)] = markers_actors m1"
      by (intro nth_equalityI) (simp_all add: m1_def sphere_actor_def)
    have b: "map (\<lambda>a. SetInputConnection (aid a)) (markers_actors m1)
             = map (\<lambda>a. SetInputConnection (aid a)) (markers_actors m)"
      by (intro nth_equalityI) (simp_all add: m1_def sphere_actor_def)
    show ?thesis unfolding a b by (simp add: m1_def)
  qed
  finally show ?thesis by (simp add: first)
qed

lemma new_contact_set_returns:
  assumes "fst (new_contact_set mk m) = None"
  shows "time_size mk = 1" and "time_size mk = 1"
proof -
  show g: "time_size mk = 1"
    using assms by (cases "time_size mk = 1") (simp_all add: new_contact_set_unfold)
  show "time_size mk = 1"
    using assms g by (cases "time_size mk = 1") (simp_all add: new_contact_set_raise_late)
qed

lemma new_contact_set_post:
  assumes "fst (new_contact_set mk m) = None"
  shows "contacts_actors (snd (new_contact_set mk m)) =
           map (\<lambda>j. \<lparr>aid = next_actor m + j,
                      a_input = SphereSource (points mk ! j) (contacts_size m),
                      a_color = contacts_color m, a_opacity = contacts_opacity m,
                      a_line_width = 1\<rparr>) [0..<channel_size mk]"
    and "vtk_calls (snd (new_contact_set mk m)) =
           vtk_calls m @ map (\<lambda>a. RemoveActor (aid a)) (contacts_actors m)
           @ created_calls (next_actor m) (channel_size mk)
           @ map (\<lambda>j. SetInputConnection (next_actor m + j)) [0..<channel_size mk]"
    and "contacts (snd (new_contact_set mk m)) = mk"
  using new_contact_set_exact [OF new_contact_set_returns [OF assms], of m]
  by (simp_all add: sphere_actor_def fresh_actor_def)

lemma update_contacts_twice:
  assumes "time_size mk = 1" and "channel_size mk = channel_size (contacts m)"
    and "fst (update_contacts mk m) = None"
  shows "update_contacts mk (snd (update_contacts mk m)) =
     (None,
      (snd (update_contacts mk m))
        \<lparr>vtk_calls := vtk_calls (snd (update_contacts mk m))
           @ map (\<lambda>a. SetInputConnection (aid a)) (contacts_actors m)\<rparr>)"
proof -
  have le: "length (contacts_actors m) \<le> channel_size mk"
  proof (rule ccontr)
    assume "\<not> length (contacts_actors m) \<le> channel_size mk"
    then have "channel_size mk < length (contacts_actors (m\<lparr>contacts := mk\<rparr>))" by simp
    from update_contact_actor_pass_raise [OF this] update_contacts_pass [OF assms(1,2)] assms(3)
    show False by simp
  qed
  define m1 where "m1 =
      m\<lparr>contacts := mk,
        contacts_actors :=
          map (\<lambda>j. sphere_actor mk (contacts_color m) (contacts_opacity m) (contacts_size m) j
                     (contacts_actors m ! j)) [0..<length (contacts_actors m)],
        vtk_calls := vtk_calls m @ map (\<lambda>a. SetInputConnection (aid a)) (contacts_actors m)\<rparr>"
  have first: "update_contacts mk m = (None, m1)"
    unfolding m1_def using assms(1,2) le by (rule update_contacts_fast)
  have "update_contacts mk m1 =
     (None,
      m1\<lparr>contacts := mk,
        contacts_actors :=
          map (\<lambda>j. sphere_actor mk (contacts_color m1) (contacts_opacity m1) (contacts_size m1) j
                     (contacts_actors m1 ! j)) [0..<length (contacts_actors m1)],
        vtk_calls := vtk_calls m1 @ map (\<lambda>a. SetInputConnection (aid a)) (contacts_actors m1)\<rparr>)"
    using assms(1) le by (intro update_contacts_fast) (simp_all add: m1_def)
  also have "\<dots> = (None,
      m1\<lparr>vtk_calls := vtk_calls m1 @ map (\<lambda>a. SetInputConnection (aid a)) (contacts_actors m)\<rparr>)"
  proof -
    have a: "map (\<lambda>j. sphere_actor mk (contacts_color m1) (contacts_opacity m1) (contacts_size m1) j
                     (contacts_actors m1 ! j)) [0..<length (contacts_actors m1)] = contacts_actors m1"
      by (intro nth_equalityI) (simp_all add: m1_def sphere_actor_def)
    have b: "map (\<lambda>a. SetInputConnection (aid a)) (contacts_actors m1)
             = map (\<lambda>a. SetInputConnection (aid a)) (contacts_actors m)"
      by (intro nth_equalityI) (simp_all add: m1_def sphere_actor_def)
    show ?thesis unfolding a b by (simp add: m1_def)
  qed
  finally show ?thesis by (simp add: first)
qed

lemma new_global_center_of_mass_set_returns:
  assumes "fst (new_global_center_of_mass_set mk m) = None"
  shows "channel_size mk = 1" and "time_size mk = 1"
proof -
  show g: "channel_size mk = 1"
    using assms by (cases "channel_size mk = 1") (simp_all add: new_global_center_of_mass_set_unfold)
  show "time_size mk = 1"
    using assms g by (cases "time_size mk = 1") (simp_all add: new_global_center_of_mass_set_raise_late)
qed

lemma new_global_center_of_mass_set_post:
  assumes "fst (new_global_center_of_mass_set mk m) = None"
  shows "global_center_of_mass_actors (snd (new_global_center_of_mass_set mk m)) =
           map (\<lambda>j. \<lparr>aid = next_actor m + j,
                      a_input = SphereSource (points mk ! j) (global_center_of_mass_size m),
                      a_color = global_center_of_mass_color m, a_opacity = global_center_of_mass_opacity m,
                      a_line_width = 1\<rparr>) [0..<channel_size mk]"
    and "vtk_calls (snd (new_global_center_of_mass_set mk m)) =
           vtk_calls m @ map (\<lambda>a. RemoveActor (aid a)) (global_center_of_mass_actors m)
           @ created_calls (next_actor m) (channel_size mk)
           @ map (\<lambda>j. SetInputConnection (next_actor m + j)) [0..<channel_size mk]"
    and "global_center_of_mass (snd (new_global_center_of_mass_set mk m)) = mk"
  using new_global_center_of_mass_set_exact [OF new_global_center_of_mass_set_returns [OF assms], of m]
  by (simp_all add: sphere_actor_def fresh_actor_def)

lemma update_global_center_of_mass_twice:
  assumes "time_size mk = 1" and "channel_size mk = channel_size (global_center_of_mass m)"
    and "fst (update_global_center_of_mass mk m) = None"
  shows "update_global_center_of_mass mk (snd (update_global_center_of_mass mk m)) =
     (None,
      (snd (update_global_center_of_mass mk m))
        \<lparr>vtk_calls := vtk_calls (snd (update_global_center_of_mass mk m))
           @ map (\<lambda>a. SetInputConnection (aid a)) (global_center_of_mass_actors m)\<rparr>)"
proof -
  have le: "length (global_center_of_mass_actors m) \<le> channel_size mk"
  proof (rule ccontr)
    assume "\<not> length (global_center_of_mass_actors m) \<le> channel_size mk"
    then have "channel_size mk < length (global_center_of_mass_actors (m\<lparr>global_center_of_mass := mk\<rparr>))" by simp
    from update_global_center_of_mass_actor_pass_raise [OF this] update_global_center_of_mass_pass [OF assms(1,2)] assms(3)
    show False by simp
  qed
  define m1 where "m1 =
      m\<lparr>global_center_of_mass := mk,
        global_center_of_mass_actors :=
          map (\<lambda>j. sphere_actor mk (global_center_of_mass_color m) (global_center_of_mass_opacity m) (global_center_of_mass_size m) j
                     (global_center_of_mass_actors m ! j)) [0..<length (global_center_of_mass_actors m)],
        vtk_calls := vtk_calls m @ map (\<lambda>a. SetInputConnection (aid a)) (global_center_of_mass_actors m)\<rparr>"
  have first: "update_global_center_of_mass mk m = (None, m1)"
    unfolding m1_def using assms(1,2) le by (rule update_global_center_of_mass_fast)
  have "update_global_center_of_mass mk m1 =
     (None,
      m1\<lparr>global_center_of_mass := mk,
        global_center_of_mass_actors :=
          map (\<lambda>j. sphere_actor mk (global_center_of_mass_color m1) (global_center_of_mass_opacity m1) (global_center_of_mass_size m1) j
                     (global_center_of_mass_actors m1 ! j)) [0..<length (global_center_of_mass_actors m1)],
        vtk_calls := vtk_calls m1 @ map (\<lambda>a. SetInputConnection (aid a)) (global_center_of_mass_actors m1)\<rparr>)"
    using assms(1) le by (intro update_global_center_of_mass_fast) (simp_all add: m1_def)
  also have "\<dots> = (None,
      m1\<lparr>vtk_calls := vtk_calls m1 @ map (\<lambda>a. SetInputConnection (aid a)) (global_center_of_mass_actors m)\<rparr>)"
  proof -
    have a: "map (\<lambda>j. sphere_actor mk (global_center_of_mass_color m1) (global_center_of_mass_opacity m1) (global_center_of_mass_size m1) j
                     (global_center_of_mass_actors m1 ! j)) [0..<length (global_center_of_mass_actors m1)] = global_center_of_mass_actors m1"
      by (intro nth_equalityI) (simp_all add: m1_def sphere_actor_def)
    have b: "map (\<lambda>a. SetInputConnection (aid a)) (global_center_of_mass_actors m1)
             = map (\<lambda>a. SetInputConnection (aid a)) (global_center_of_mass_actors m)"
      by (intro nth_equalityI) (simp_all add: m1_def sphere_actor_def)
    show ?thesis unfolding a b by (simp add: m1_def)
  qed
  finally show ?thesis by (simp add: first)
qed

lemma new_segments_center_of_mass_set_returns:
  assumes "fst (new_segments_center_of_mass_set mk m) = None"
  shows "time_size mk = 1" and "time_size mk = 1"
proof -
  show g: "time_size mk = 1"
    using assms by (cases "time_size mk = 1") (simp_all add: new_segments_center_of_mass_set_unfold)
  show "time_size mk = 1"
    using assms g by (cases "time_size mk = 1") (simp_all add: new_segments_center_of_mass_set_raise_late)
qed

lemma new_segments_center_of_mass_set_post:
  assumes "fst (new_segments_center_of_mass_set mk m) = None"
  shows "segments_center_of_mass_actors (snd (new_segments_center_of_mass_set mk m)) =
           map (\<lambda>j. \<lparr>aid = next_actor m + j,
                      a_input = SphereSource (points mk ! j) (segments_center_of_mass_size m),
                      a_color = segments_center_of_mass_color m, a_opacity = segments_center_of_mass_opacity m,
                      a_line_width = 1\<rparr>) [0..<channel_size mk]"
    and "vtk_calls (snd (new_segments_center_of_mass_set mk m)) =
           vtk_calls m @ map (\<lambda>a. RemoveActor (aid a)) (segments_center_of_mass_actors m)
           @ created_calls (next_actor m) (channel_size mk)
           @ map (\<lambda>j. SetInputConnection (next_actor m + j)) [0..<channel_size mk]"
    and "segments_center_of_mass (snd (new_segments_center_of_mass_set mk m)) = mk"
  using new_segments_center_of_mass_set_exact [OF new_segments_center_of_mass_set_returns [OF assms], of m]
  by (simp_all add: sphere_actor_def fresh_actor_def)

lemma update_segments_center_of_mass_twice:
  assumes "time_size mk = 1" and "channel_size mk = channel_size (segments_center_of_mass m)"
    and "fst (update_segments_center_of_mass mk m) = None"
  shows "update_segments_center_of_mass mk (snd (update_segments_center_of_mass mk m)) =
     (None,
      (snd (update_segments_center_of_mass mk m))
        \<lparr>vtk_calls := vtk_calls (snd (update_segments_center_of_mass mk m))
           @ map (\<lambda>a. SetInputConnection (aid a)) (segments_center_of_mass_actors m)\<rparr>)"
proof -
  have le: "length (segments_center_of_mass_actors m) \<le> channel_size mk"
  proof (rule ccontr)
    assume "\<not> length (segments_center_of_mass_actors m) \<le> channel_size mk"
    then have "channel_size mk < length (segments_center_of_mass_actors (m\<lparr>segments_center_of_mass := mk\<rparr>))" by simp
    from update_segments_center_of_mass_actor_pass_raise [OF this] update_segments_center_of_mass_pass [OF assms(1,2)] assms(3)
    show False by simp
  qed
  define m1 where "m1 =
      m\<lparr>segments_center_of_mass := mk,
        segments_center_of_mass_actors :=
          map (\<lambda>j. sphere_actor mk (segments_center_of_mass_color m) (segments_center_of_mass_opacity m) (segments_center_of_mass_size m) j
                     (segments_center_of_mass_actors m ! j)) [0..<length (segments_center_of_mass_actors m)],
        vtk_calls := vtk_calls m @ map (\<lambda>a. SetInputConnection (aid a)) (segments_center_of_mass_actors m)\<rparr>"
  have first: "update_segments_center_of_mass mk m = (None, m1)"
    unfolding m1_def using assms(1,2) le by (rule update_segments_center_of_mass_fast)
  have "update_segments_center_of_mass mk m1 =
     (None,
      m1\<lparr>segments_center_of_mass := mk,
        segments_center_of_mass_actors :=
          map (\<lambda>j. sphere_actor mk (segments_center_of_mass_color m1) (segments_center_of_mass_opacity m1) (segments_center_of_mass_size m1) j
                     (segments_center_of_mass_actors m1 ! j)) [0..<length (segments_center_of_mass_actors m1)],
        vtk_calls := vtk_calls m1 @ map (\<lambda>a. SetInputConnection (aid a)) (segments_center_of_mass_actors m1)\<rparr>)"
    using assms(1) le by (intro update_segments_center_of_mass_fast) (simp_all add: m1_def)
  also have "\<dots> = (None,
      m1\<lparr>vtk_calls := vtk_calls m1 @ map (\<lambda>a. SetInputConnection (aid a)) (segments_center_of_mass_actors m)\<rparr>)"
  proof -
    have a: "map (\<lambda>j. sphere_actor mk (segments_center_of_mass_color m1) (segments_center_of_mass_opacity m1) (segments_center_of_mass_size m1) j
                     (segments_center_of_mass_actors m1 ! j)) [0..<length (segments_center_of_mass_actors m1)] = segments_center_of_mass_actors m1"
      by (intro nth_equalityI) (simp_all add: m1_def sphere_actor_def)
    have b: "map (\<lambda>a. SetInputConnection (aid a)) (segments_center_of_mass_actors m1)
             = map (\<lambda>a. SetInputConnection (aid a)) (segments_center_of_mass_actors m)"
      by (intro nth_equalityI) (simp_all add: m1_def sphere_actor_def)
    show ?thesis unfolding a b by (simp add: m1_def)
  qed
  finally show ?thesis by (simp add: first)
qed

subsection \<open>The collections: after a rebuild, and an update twice\<close>

lemma scan_meshes_times:
  "scan_meshes stored i ms = ScanDone \<Longrightarrow> list_all (\<lambda>mesh. time_size mesh = 1) ms"
  by (induction ms arbitrary: i) (auto split: if_splits)

lemma geom_SetPoints_twice [simp]:
  "geom_SetPoints pts (geom_SetPoints pts g) = geom_SetPoints pts g"
  by (cases g) simp_all

lemma moved_actors_twice:
  "moved_actors ms (moved_actors ms as) = moved_actors ms as"
  by (intro nth_equalityI) (simp_all add: moved_actors_def moved_actor_def)

lemma moved_actors_aid:
  "map (\<lambda>a. SetPoints (aid a)) (take n (moved_actors ms as))
   = map (\<lambda>a. SetPoints (aid a)) (take n as)"
  by (intro nth_equalityI) (simp_all add: moved_actors_def moved_actor_def)

lemma moved_rt_actors_twice:
  "moved_rt_actors len rts (moved_rt_actors len rts as) = moved_rt_actors len rts as"
  by (intro nth_equalityI) (simp_all add: moved_rt_actors_def moved_actor_def)

lemma moved_rt_actors_aid:
  "map (\<lambda>a. SetPoints (aid a)) (take n (moved_rt_actors len rts as))
   = map (\<lambda>a. SetPoints (aid a)) (take n as)"
  by (intro nth_equalityI) (simp_all add: moved_rt_actors_def moved_actor_def)

lemma new_mesh_set_returns:
  "fst (new_mesh_set (Many ms) m) = None \<Longrightarrow> list_all mesh_ok ms"
  using new_mesh_set_raise [of ms m] by blast

lemma update_mesh_twice:
  assumes "scan_meshes (all_meshes m) 0 ms = ScanDone"
    and "fst (update_mesh (Many ms) m) = None"
  shows "update_mesh (Many ms) (snd (update_mesh (Many ms) m)) =
     (None,
      (snd (update_mesh (Many ms) m))
        \<lparr>vtk_calls := vtk_calls (snd (update_mesh (Many ms) m))
           @ map (\<lambda>a. SetPoints (aid a)) (take (length ms) (mesh_actors m))\<rparr>)"
proof -
  let ?ms = "ms"
  have le: "length ?ms \<le> length (mesh_actors m)"
  proof (rule ccontr)
    assume "\<not> length ?ms \<le> length (mesh_actors m)"
    then have "length (mesh_actors m) < length ?ms" by simp
    from update_mesh_fast_raise [OF assms(1) this] assms(2) show False by simp
  qed
  define m1 where "m1 =
      m\<lparr>all_meshes := ?ms,
        mesh_actors := moved_actors ?ms (mesh_actors m),
        vtk_calls := vtk_calls m
          @ map (\<lambda>a. SetPoints (aid a)) (take (length ?ms) (mesh_actors m))\<rparr>"
  have first: "update_mesh (Many ms) m = (None, m1)"
    unfolding m1_def using assms(1) le by (rule update_mesh_fast)
  have times: "list_all (\<lambda>mesh. time_size mesh = 1) ?ms"
    using assms(1) by (rule scan_meshes_times)
  have "scan_meshes (all_meshes m1) 0 ?ms = ScanDone"
    using scan_meshes_ok [OF times, of "[]"] by (simp add: m1_def)
  moreover have "length ?ms \<le> length (mesh_actors m1)"
    using le by (simp add: m1_def moved_actors_def)
  ultimately have "update_mesh (Many ms) m1 =
     (None,
      m1\<lparr>all_meshes := ?ms,
        mesh_actors := moved_actors ?ms (mesh_actors m1),
        vtk_calls := vtk_calls m1
          @ map (\<lambda>a. SetPoints (aid a)) (take (length ?ms) (mesh_actors m1))\<rparr>)"
    by (rule update_mesh_fast)
  also have "\<dots> = (None,
      m1\<lparr>vtk_calls := vtk_calls m1
          @ map (\<lambda>a. SetPoints (aid a)) (take (length ?ms) (mesh_actors m))\<rparr>)"
  proof -
    have a: "moved_actors ?ms (mesh_actors m1) = mesh_actors m1"
      by (simp add: m1_def moved_actors_twice)
    have b: "map (\<lambda>a. SetPoints (aid a)) (take (length ?ms) (mesh_actors m1))
             = map (\<lambda>a. SetPoints (aid a)) (take (length ?ms) (mesh_actors m))"
      by (simp add: m1_def moved_actors_aid)
    show ?thesis unfolding a b by (simp add: m1_def)
  qed
  finally show ?thesis by (simp add: first)
qed

lemma new_muscle_set_returns:
  "fst (new_muscle_set (Many ms) m) = None \<Longrightarrow> list_all muscle_ok ms"
  using new_muscle_set_raise [of ms m] by blast

lemma update_muscle_twice:
  assumes "scan_meshes (all_muscles m) 0 ms = ScanDone"
    and "fst (update_muscle (Many ms) m) = None"
  shows "update_muscle (Many ms) (snd (update_muscle (Many ms) m)) =
     (None,
      (snd (update_muscle (Many ms) m))
        \<lparr>vtk_calls := vtk_calls (snd (update_muscle (Many ms) m))
           @ map (\<lambda>a. SetPoints (aid a)) (take (length ms) (muscle_actors m))\<rparr>)"
proof -
  let ?ms = "ms"
  have le: "length ?ms \<le> length (muscle_actors m)"
  proof (rule ccontr)
    assume "\<not> length ?ms \<le> length (muscle_actors m)"
    then have "length (muscle_actors m) < length ?ms" by simp
    from update_muscle_fast_raise [OF assms(1) this] assms(2) show False by simp
  qed
  define m1 where "m1 =
      m\<lparr>all_muscles := ?ms,
        muscle_actors := moved_actors ?ms (muscle_actors m),
        vtk_calls := vtk_calls m
          @ map (\<lambda>a. SetPoints (aid a)) (take (length ?ms) (muscle_actors m))\<rparr>"
  have first: "update_muscle (Many ms) m = (None, m1)"
    unfolding m1_def using assms(1) le by (rule update_muscle_fast)
  have times: "list_all (\<lambda>mesh. time_size mesh = 1) ?ms"
    using assms(1) by (rule scan_meshes_times)
  have "scan_meshes (all_muscles m1) 0 ?ms = ScanDone"
    using scan_meshes_ok [OF times, of "[]"] by (simp add: m1_def)
  moreover have "length ?ms \<le> length (muscle_actors m1)"
    using le by (simp add: m1_def moved_actors_def)
  ultimately have "update_muscle (Many ms) m1 =
     (None,
      m1\<lparr>all_muscles := ?ms,
        muscle_actors := moved_actors ?ms (muscle_actors m1),
        vtk_calls := vtk_calls m1
          @ map (\<lambda>a. SetPoints (aid a)) (take (length ?ms) (muscle_actors m1))\<rparr>)"
    by (rule update_muscle_fast)
  also have "\<dots> = (None,
      m1\<lparr>vtk_calls := vtk_calls m1
          @ map (\<lambda>a. SetPoints (aid a)) (take (length ?ms) (muscle_actors m))\<rparr>)"
  proof -
    have a: "moved_actors ?ms (muscle_actors m1) = muscle_actors m1"
      by (simp add: m1_def moved_actors_twice)
    have b: "map (\<lambda>a. SetPoints (aid a)) (take (length ?ms) (muscle_actors m1))
             = map (\<lambda>a. SetPoints (aid a)) (take (length ?ms) (muscle_actors m))"
      by (simp add: m1_def moved_actors_aid)
    show ?thesis unfolding a b by (simp add: m1_def)
  qed
  finally show ?thesis by (simp add: first)
qed

lemma new_rt_set_returns:
  "fst (new_rt_set (Many ms) m) = None \<Longrightarrow> list_all rt_ok ms"
  using new_rt_set_raise [of ms m] by blast

lemma update_rt_twice:
  assumes "length ms = n_rt m"
    and "fst (update_rt (Many ms) m) = None"
  shows "update_rt (Many ms) (snd (update_rt (Many ms) m)) =
     (None,
      (snd (update_rt (Many ms) m))
        \<lparr>vtk_calls := vtk_calls (snd (update_rt (Many ms) m))
           @ map (\<lambda>a. SetPoints (aid a)) (take (length ms) (rt_actors m))\<rparr>)"
proof -
  let ?rts = "ms"
  have ok: "length ?rts \<le> length (rt_actors m) \<and> list_all rt_ok ?rts"
    using update_rt_fast_raise [OF assms(1)] assms(2) by blast
  define m1 where "m1 =
      m\<lparr>all_rt := ?rts,
        rt_actors := moved_rt_actors (rt_length m) ?rts (rt_actors m),
        vtk_calls := vtk_calls m
          @ map (\<lambda>a. SetPoints (aid a)) (take (length ?rts) (rt_actors m))\<rparr>"
  have first: "update_rt (Many ms) m = (None, m1)"
    unfolding m1_def using assms(1) ok by (intro update_rt_fast) simp_all
  have "update_rt (Many ms) m1 =
     (None,
      m1\<lparr>all_rt := ?rts,
        rt_actors := moved_rt_actors (rt_length m1) ?rts (rt_actors m1),
        vtk_calls := vtk_calls m1
          @ map (\<lambda>a. SetPoints (aid a)) (take (length ?rts) (rt_actors m1))\<rparr>)"
    using assms(1) ok by (intro update_rt_fast) (simp_all add: m1_def moved_rt_actors_def)
  also have "\<dots> = (None,
      m1\<lparr>vtk_calls := vtk_calls m1
          @ map (\<lambda>a. SetPoints (aid a)) (take (length ?rts) (rt_actors m))\<rparr>)"
  proof -
    have l: "rt_length m1 = rt_length m" by (simp add: m1_def)
    have a: "moved_rt_actors (rt_length m) ?rts (rt_actors m1) = rt_actors m1"
      by (simp add: m1_def moved_rt_actors_twice)
    have b: "map (\<lambda>a. SetPoints (aid a)) (take (length ?rts) (rt_actors m1))
             = map (\<lambda>a. SetPoints (aid a)) (take (length ?rts) (rt_actors m))"
      by (simp add: m1_def moved_rt_actors_aid)
    show ?thesis unfolding l a b by (simp add: m1_def)
  qed
  finally show ?thesis by (simp add: first)
qed

subsection \<open>Wrappings on their fast path\<close>

text \<open>
  The first loop of a segment changes nothing when every wrapping pushed has one
  time sample and the channel count of the stored wrapping in its place.
\<close>

lemma check_wrapping_loop:
  assumes "scan_meshes (all_wrappings s ! seg) i ws = ScanDone"
    and "seg < length (all_wrappings s)"
  shows "for_each (check_wrapping ws0 seg) (enumerate i ws) s = (None, s)"
  using assms(1)
proof (induction ws arbitrary: i)
  case Nil
  show ?case by simp
next
  case (Cons w ws)
  from Cons.prems have w: "time_size w = 1"
    "\<not> (length (all_wrappings s ! seg) \<le> i
        \<or> channel_size w \<noteq> channel_size (all_wrappings s ! seg ! i))"
    and rest: "scan_meshes (all_wrappings s ! seg) (Suc i) ws = ScanDone"
    by (auto split: if_splits)
  from w assms(2) have "check_wrapping ws0 seg (i, w) s = (None, s)"
    by (simp add: check_wrapping_def)
  with Cons.IH [OF rest] show ?case by simp
qed

text \<open>The second loop of a segment.\<close>

lemma update_wrapping_actor_step:
  "seg < length (wrapping_actors s) \<Longrightarrow> i < length (wrapping_actors s ! seg) \<Longrightarrow>
   update_wrapping_actor seg i s =
     (None,
      s\<lparr>wrapping_actors := (wrapping_actors s)
           [seg := (wrapping_actors s ! seg)
              [i := moved_actor (points (all_wrappings s ! seg ! i))
                      (wrapping_actors s ! seg ! i)]],
        vtk_calls := vtk_calls s @ [SetPoints (aid (wrapping_actors s ! seg ! i))]\<rparr>)"
  by (simp add: update_wrapping_actor_def Let_def moved_actor_def)

lemma update_wrapping_actor_rounds:
  fixes s :: model and seg :: nat
  defines "ws \<equiv> all_wrappings s ! seg"
  defines "as \<equiv> wrapping_actors s ! seg"
  defines "T \<equiv> \<lambda>i. s\<lparr>wrapping_actors := (wrapping_actors s)
        [seg := map (\<lambda>j. if j < i then moved_actor (points (ws ! j)) (as ! j) else as ! j)
                  [0..<length as]],
        vtk_calls := vtk_calls s @ map (\<lambda>j. SetPoints (aid (as ! j))) [0..<i]\<rparr>"
  assumes "seg < length (wrapping_actors s)" and "i < length as"
  shows "update_wrapping_actor seg i (T i) = (None, T (Suc i))"
proof -
  let ?f = "\<lambda>i j. if j < i then moved_actor (points (ws ! j)) (as ! j) else as ! j"
  have l: "(map (?f i) [0..<length as])[i := moved_actor (points (ws ! i)) (as ! i)]
          = map (?f (Suc i)) [0..<length as]"
    using assms(5) by (intro nth_equalityI) (auto simp: nth_list_update less_Suc_eq)
  have "seg < length (wrapping_actors (T i))" "i < length (wrapping_actors (T i) ! seg)"
    using assms(4,5) by (simp_all add: T_def)
  from update_wrapping_actor_step [OF this]
  have "update_wrapping_actor seg i (T i) =
     (None, (T i)\<lparr>wrapping_actors := (wrapping_actors s)
                    [seg := (map (?f i) [0..<length as])
                       [i := moved_actor (points (ws ! i)) (as ! i)]],
                  vtk_calls := vtk_calls (T i) @ [SetPoints (aid (as ! i))]\<rparr>)"
    using assms(4,5) by (simp add: T_def ws_def)
  also have "\<dots> = (None, T (Suc i))"
    by (simp add: T_def l)
  finally show ?thesis .
qed

lemma update_wrapping_actor_loop:
  assumes "seg < length (wrapping_actors s)"
    and "length (all_wrappings s ! seg) \<le> length (wrapping_actors s ! seg)"
  shows "for_each (update_wrapping_actor seg) [0..<length (all_wrappings s ! seg)] s =
     (None,
      s\<lparr>wrapping_actors := (wrapping_actors s)
           [seg := moved_actors (all_wrappings s ! seg) (wrapping_actors s ! seg)],
        vtk_calls := vtk_calls s
          @ map (\<lambda>a. SetPoints (aid a))
              (take (length (all_wrappings s ! seg)) (wrapping_actors s ! seg))\<rparr>)"
proof -
  define ws where "ws = all_wrappings s ! seg"
  define as where "as = wrapping_actors s ! seg"
  define T where "T = (\<lambda>i. s\<lparr>wrapping_actors := (wrapping_actors s)
        [seg := map (\<lambda>j. if j < i then moved_actor (points (ws ! j)) (as ! j) else as ! j)
                  [0..<length as]],
        vtk_calls := vtk_calls s @ map (\<lambda>j. SetPoints (aid (as ! j))) [0..<i]\<rparr>)"
  have "for_each (update_wrapping_actor seg) [0..<length ws] (T 0) = (None, T (length ws))"
  proof (rule for_each_upt)
    fix i assume "i < length ws"
    with assms(2) have "i < length (wrapping_actors s ! seg)" by (simp add: ws_def)
    with assms(1) show "update_wrapping_actor seg i (T i) = (None, T (Suc i))"
      unfolding T_def ws_def as_def by (rule update_wrapping_actor_rounds)
  qed
  moreover have "T 0 = s"
    unfolding T_def as_def by (simp add: map_nth)
  moreover have "T (length ws) =
      s\<lparr>wrapping_actors := (wrapping_actors s)[seg := moved_actors ws as],
        vtk_calls := vtk_calls s @ map (\<lambda>a. SetPoints (aid a)) (take (length ws) as)\<rparr>"
  proof -
    have "map (\<lambda>j. SetPoints (aid (as ! j))) [0..<length ws]
          = map (\<lambda>a. SetPoints (aid a)) (take (length ws) as)"
      using assms(2) by (intro nth_equalityI) (simp_all add: ws_def as_def)
    then show ?thesis unfolding T_def moved_actors_def by (simp only:)
  qed
  ultimately show ?thesis unfolding ws_def as_def by (simp only:)
qed

lemma update_wrapping_seg_rounds:
  fixes m :: model and aw :: "mesh list list"
  defines "S \<equiv> \<lambda>k. m\<lparr>all_wrappings :=
         map (\<lambda>j. if j < k then aw ! j else all_wrappings m ! j)
           [0..<length (all_wrappings m)],
       wrapping_actors :=
         map (\<lambda>j. if j < k then moved_actors (aw ! j) (wrapping_actors m ! j)
                   else wrapping_actors m ! j)
           [0..<length (wrapping_actors m)],
       vtk_calls := vtk_calls m
         @ concat (map (\<lambda>j. map (\<lambda>a. SetPoints (aid a))
                               (take (length (aw ! j)) (wrapping_actors m ! j)))
                    [0..<k])\<rparr>"
  assumes "wrapping_fast aw m" and "k < length aw"
  shows "update_wrapping_seg (k, Many (aw ! k)) (S k) = (None, S (Suc k))"
proof -
  let ?ws = "aw ! k"
  from assms(2,3) have k1: "k < length (all_wrappings m)" and k2: "k < length (wrapping_actors m)"
    and sc: "scan_meshes (all_wrappings m ! k) 0 ?ws = ScanDone"
    and le: "length ?ws \<le> length (wrapping_actors m ! k)"
    by (simp_all add: wrapping_fast_def list_all_length)
  have sk: "all_wrappings (S k) ! k = all_wrappings m ! k"
    "wrapping_actors (S k) ! k = wrapping_actors m ! k"
    "length (all_wrappings (S k)) = length (all_wrappings m)"
    "length (wrapping_actors (S k)) = length (wrapping_actors m)"
    using k1 k2 by (simp_all add: S_def)
  have chk: "for_each (check_wrapping ?ws k) (enumerate 0 ?ws) (S k) = (None, S k)"
    by (rule check_wrapping_loop) (simp_all add: sk sc k1)
  define s2 where "s2 = (S k)\<lparr>all_wrappings := (all_wrappings (S k))[k := ?ws]\<rparr>"
  have s2: "all_wrappings s2 ! k = ?ws" "wrapping_actors s2 ! k = wrapping_actors m ! k"
    "length (wrapping_actors s2) = length (wrapping_actors m)"
    using k1 by (simp_all add: s2_def sk)
  have "update_wrapping_seg (k, Many ?ws) (S k)
        = for_each (update_wrapping_actor k) [0..<length (all_wrappings s2 ! k)] s2"
    using k1 by (simp add: update_wrapping_seg.simps(2) chk sk s2_def Let_def)
  also have "\<dots> = (None,
      s2\<lparr>wrapping_actors := (wrapping_actors s2)
           [k := moved_actors (all_wrappings s2 ! k) (wrapping_actors s2 ! k)],
        vtk_calls := vtk_calls s2
          @ map (\<lambda>a. SetPoints (aid a))
              (take (length (all_wrappings s2 ! k)) (wrapping_actors s2 ! k))\<rparr>)"
    using k2 le by (intro update_wrapping_actor_loop) (simp_all add: s2)
  also have "\<dots> = (None, S (Suc k))"
  proof -
    have a: "(map (\<lambda>j. if j < k then aw ! j else all_wrappings m ! j)
               [0..<length (all_wrappings m)])[k := aw ! k]
          = map (\<lambda>j. if j < Suc k then aw ! j else all_wrappings m ! j)
               [0..<length (all_wrappings m)]"
      using k1 by (intro nth_equalityI) (auto simp: nth_list_update less_Suc_eq)
    have b: "(map (\<lambda>j. if j < k then moved_actors (aw ! j) (wrapping_actors m ! j)
                        else wrapping_actors m ! j)
               [0..<length (wrapping_actors m)])
               [k := moved_actors (aw ! k) (wrapping_actors m ! k)]
          = map (\<lambda>j. if j < Suc k then moved_actors (aw ! j) (wrapping_actors m ! j)
                      else wrapping_actors m ! j)
               [0..<length (wrapping_actors m)]"
      using k2 by (intro nth_equalityI) (auto simp: nth_list_update less_Suc_eq)
    show ?thesis
      unfolding s2 by (simp add: s2_def S_def a b)
  qed
  finally show ?thesis .
qed

lemma update_wrapping_segs:
  assumes "wrapping_fast aw m"
  shows "for_each update_wrapping_seg (enumerate 0 (map Many aw)) m
         = (None, wrappings_moved aw m)"
proof -
  define S where "S = (\<lambda>k. m\<lparr>all_wrappings :=
         map (\<lambda>j. if j < k then aw ! j else all_wrappings m ! j)
           [0..<length (all_wrappings m)],
       wrapping_actors :=
         map (\<lambda>j. if j < k then moved_actors (aw ! j) (wrapping_actors m ! j)
                   else wrapping_actors m ! j)
           [0..<length (wrapping_actors m)],
       vtk_calls := vtk_calls m
         @ concat (map (\<lambda>j. map (\<lambda>a. SetPoints (aid a))
                               (take (length (aw ! j)) (wrapping_actors m ! j)))
                    [0..<k])\<rparr>)"
  have "for_each update_wrapping_seg (enumerate 0 (map Many aw)) (S 0)
        = (None, S (length (enumerate 0 (map Many aw))))"
  proof (rule for_each_nth)
    fix k assume "k < length (enumerate 0 (map Many aw))"
    then have k: "k < length aw" by simp
    then have "enumerate 0 (map Many aw) ! k = (k, Many (aw ! k))"
      by (simp add: nth_enumerate_eq)
    moreover from assms k
    have "update_wrapping_seg (k, Many (aw ! k)) (S k) = (None, S (Suc k))"
      unfolding S_def by (rule update_wrapping_seg_rounds)
    ultimately
    show "update_wrapping_seg (enumerate 0 (map Many aw) ! k) (S k) = (None, S (Suc k))"
      by simp
  qed
  moreover have "S 0 = m"
    unfolding S_def by (simp add: map_nth)
  moreover have "S (length (enumerate 0 (map Many aw))) = wrappings_moved aw m"
    unfolding S_def wrappings_moved_def by simp
  ultimately show ?thesis by (simp only:)
qed

lemma update_wrapping_fast:
  assumes "wrapping_fast aw m"
  shows "update_wrapping (map Many aw) m =
     (None,
      wrappings_moved aw
        (if all_wrappings m = [] then m\<lparr>wrapping_actors := []\<rparr> else m))"
proof (cases "all_wrappings m = []")
  case True
  with assms have aw: "aw = []" by (simp add: wrapping_fast_def)
  with True show ?thesis
    by (simp add: update_wrapping_def wrappings_moved_def)
next
  case False
  with update_wrapping_segs [OF assms] show ?thesis
    by (simp add: update_wrapping_def)
qed

lemma wrappings_moved_fast:
  assumes "wrapping_fast aw m"
  shows "wrapping_fast aw (wrappings_moved aw m)"
proof -
  have "scan_meshes (aw ! seg) 0 (aw ! seg) = ScanDone" if "seg < length aw" for seg
  proof -
    from assms that have "scan_meshes (all_wrappings m ! seg) 0 (aw ! seg) = ScanDone"
      by (simp add: wrapping_fast_def list_all_length)
    then have "list_all (\<lambda>mesh. time_size mesh = 1) (aw ! seg)" by (rule scan_meshes_times)
    from scan_meshes_ok [OF this, of "[]"] show ?thesis by simp
  qed
  with assms show ?thesis
    by (simp add: wrapping_fast_def wrappings_moved_def list_all_length moved_actors_def)
qed

lemma wrappings_moved_twice:
  assumes "wrapping_fast aw m"
  shows "wrappings_moved aw (wrappings_moved aw m) =
     (wrappings_moved aw m)
       \<lparr>vtk_calls := vtk_calls (wrappings_moved aw m)
          @ concat (map (\<lambda>j. map (\<lambda>a. SetPoints (aid a))
                                (take (length (aw ! j)) (wrapping_actors m ! j)))
                     [0..<length aw])\<rparr>"
proof -
  from assms have l: "length aw \<le> length (all_wrappings m)"
    "length aw \<le> length (wrapping_actors m)"
    by (simp_all add: wrapping_fast_def)
  let ?m1 = "wrappings_moved aw m"
  have a: "map (\<lambda>j. if j < length aw then aw ! j else all_wrappings ?m1 ! j)
             [0..<length (all_wrappings ?m1)] = all_wrappings ?m1"
    by (intro nth_equalityI) (simp_all add: wrappings_moved_def)
  have b: "map (\<lambda>j. if j < length aw then moved_actors (aw ! j) (wrapping_actors ?m1 ! j)
                     else wrapping_actors ?m1 ! j)
             [0..<length (wrapping_actors ?m1)] = wrapping_actors ?m1"
    by (intro nth_equalityI) (simp_all add: wrappings_moved_def moved_actors_twice)
  have c: "map (\<lambda>j. map (\<lambda>a. SetPoints (aid a))
                      (take (length (aw ! j)) (wrapping_actors ?m1 ! j))) [0..<length aw]
           = map (\<lambda>j. map (\<lambda>a. SetPoints (aid a))
                      (take (length (aw ! j)) (wrapping_actors m ! j))) [0..<length aw]"
    using l by (intro nth_equalityI) (simp_all add: wrappings_moved_def moved_actors_aid)
  have "wrappings_moved aw ?m1 =
      ?m1\<lparr>all_wrappings :=
           map (\<lambda>j. if j < length aw then aw ! j else all_wrappings ?m1 ! j)
             [0..<length (all_wrappings ?m1)],
         wrapping_actors :=
           map (\<lambda>j. if j < length aw then moved_actors (aw ! j) (wrapping_actors ?m1 ! j)
                     else wrapping_actors ?m1 ! j)
             [0..<length (wrapping_actors ?m1)],
         vtk_calls := vtk_calls ?m1
           @ concat (map (\<lambda>j. map (\<lambda>a. SetPoints (aid a))
                                 (take (length (aw ! j)) (wrapping_actors ?m1 ! j)))
                      [0..<length aw])\<rparr>"
    by (subst wrappings_moved_def) (rule refl)
  also have "\<dots> = ?m1\<lparr>vtk_calls := vtk_calls ?m1
          @ concat (map (\<lambda>j. map (\<lambda>a. SetPoints (aid a))
                                (take (length (aw ! j)) (wrapping_actors m ! j)))
                     [0..<length aw])\<rparr>"
    unfolding a b c by simp
  finally show ?thesis .
qed

lemma update_wrapping_twice:
  assumes "wrapping_fast aw m"
  shows "fst (update_wrapping (map Many aw) m) = None"
    and "update_wrapping (map Many aw) (snd (update_wrapping (map Many aw) m)) =
     (None,
      (snd (update_wrapping (map Many aw) m))
        \<lparr>vtk_calls := vtk_calls (snd (update_wrapping (map Many aw) m))
           @ concat (map (\<lambda>j. map (\<lambda>a. SetPoints (aid a))
                                 (take (length (aw ! j)) (wrapping_actors m ! j)))
                      [0..<length aw])\<rparr>)"
proof -
  define m0 where "m0 = (if all_wrappings m = [] then m\<lparr>wrapping_actors := []\<rparr> else m)"
  have f0: "wrapping_fast aw m0"
    using assms by (auto simp: m0_def wrapping_fast_def)
  have first: "update_wrapping (map Many aw) m = (None, wrappings_moved aw m0)"
    unfolding m0_def using assms by (rule update_wrapping_fast)
  then show "fst (update_wrapping (map Many aw) m) = None" by simp
  let ?m1 = "wrappings_moved aw m0"
  have f1: "wrapping_fast aw ?m1" using f0 by (rule wrappings_moved_fast)
  have same: "(if all_wrappings ?m1 = [] then ?m1\<lparr>wrapping_actors := []\<rparr> else ?m1) = ?m1"
  proof (cases "all_wrappings m = []")
    case True
    then show ?thesis by (simp add: m0_def wrappings_moved_def)
  next
    case False
    then have "all_wrappings ?m1 \<noteq> []" by (simp add: m0_def wrappings_moved_def)
    then show ?thesis by simp
  qed
  have acts: "map (\<lambda>j. map (\<lambda>a. SetPoints (aid a))
                      (take (length (aw ! j)) (wrapping_actors m0 ! j))) [0..<length aw]
           = map (\<lambda>j. map (\<lambda>a. SetPoints (aid a))
                      (take (length (aw ! j)) (wrapping_actors m ! j))) [0..<length aw]"
  proof (cases "all_wrappings m = []")
    case True
    with assms have "aw = []" by (simp add: wrapping_fast_def)
    then show ?thesis by simp
  next
    case False
    then show ?thesis by (simp add: m0_def)
  qed
  from update_wrapping_fast [OF f1] same
  have "update_wrapping (map Many aw) ?m1 = (None, wrappings_moved aw ?m1)" by simp
  also have "\<dots> = (None,
      ?m1\<lparr>vtk_calls := vtk_calls ?m1
          @ concat (map (\<lambda>j. map (\<lambda>a. SetPoints (aid a))
                                (take (length (aw ! j)) (wrapping_actors m0 ! j)))
                     [0..<length aw])\<rparr>)"
    by (simp only: wrappings_moved_twice [OF f0])
  finally show "update_wrapping (map Many aw) (snd (update_wrapping (map Many aw) m)) =
     (None,
      (snd (update_wrapping (map Many aw) m))
        \<lparr>vtk_calls := vtk_calls (snd (update_wrapping (map Many aw) m))
           @ concat (map (\<lambda>j. map (\<lambda>a. SetPoints (aid a))
                                 (take (length (aw ! j)) (wrapping_actors m ! j)))
                      [0..<length aw])\<rparr>)"
    unfolding acts by (simp add: first)
qed

subsection \<open>The rebuild of a segment's wrappings\<close>

lemma new_wrapping_actor_step:
  assumes "wrapping_ok w"
  shows "new_wrapping_actor seg w s =
     (None,
      s\<lparr>wrapping_actors := (wrapping_actors s)
           [seg := wrapping_actors s ! seg @
              [(fresh_actor (next_actor s))
                 \<lparr>a_input := PolyData (replicate (channel_size w) (0, 0, 0))
                              (outline_cells w) [] [],
                  a_color := wrapping_color s, a_opacity := wrapping_opacity s\<rparr>]],
        ren_actors := add_item (next_actor s) (ren_actors s),
        next_actor := Suc (next_actor s),
        vtk_calls := vtk_calls s @ [AddActor (next_actor s), ResetCamera]\<rparr>)"
proof -
  from assms obtain cells where "closed_polylines (triangles w) = Some cells"
    by (auto simp: wrapping_ok_def)
  with assms show ?thesis
    by (simp add: new_wrapping_actor_def wrapping_ok_def add_wrapping_actor_def vtkActor_def
        ren_AddActor_def ren_ResetCamera_def fresh_actor_def outline_cells_def)
qed

lemma new_wrapping_actor_stop:
  "\<not> wrapping_ok w \<Longrightarrow> new_wrapping_actor seg w s = (Some IndexError, s)"
  by (auto simp: new_wrapping_actor_def wrapping_ok_def split: option.splits if_splits)

lemma new_wrapping_actor_rounds:
  fixes m :: model and ws :: "mesh list" and seg :: nat
  defines "S \<equiv> \<lambda>k. m\<lparr>wrapping_actors := (wrapping_actors m)
          [seg := wrapping_actors m ! seg @
             map (wrapping_actor_built (wrapping_color m) (wrapping_opacity m) (next_actor m) ws)
               [0..<k]],
        ren_actors := fold add_item (map (\<lambda>j. next_actor m + j) [0..<k]) (ren_actors m),
        next_actor := next_actor m + k,
        vtk_calls := vtk_calls m @ created_calls (next_actor m) k\<rparr>"
  assumes "seg < length (wrapping_actors m)" and "wrapping_ok (ws ! k)"
  shows "new_wrapping_actor seg (ws ! k) (S k) = (None, S (Suc k))"
  unfolding new_wrapping_actor_step [OF assms(3)] S_def using assms(2)
  by (simp add: wrapping_actor_built_def created_calls_def)

lemma new_wrapping_set_exact:
  assumes "seg < length (all_wrappings m)" and "seg < length (wrapping_actors m)"
    and "list_all wrapping_ok ms"
  shows "new_wrapping_set (Many ms) seg m =
     (None,
      m\<lparr>all_wrappings := (all_wrappings m)[seg := ms],
        wrapping_actors := (wrapping_actors m)
          [seg := map (wrapping_actor_built (wrapping_color m) (wrapping_opacity m)
                         (next_actor m) ms) [0..<length ms]],
        ren_actors := fold add_item (map (\<lambda>j. next_actor m + j) [0..<length ms])
                        (fold remove1 (map aid (wrapping_actors m ! seg)) (ren_actors m)),
        next_actor := next_actor m + length ms,
        vtk_calls := vtk_calls m @ map (\<lambda>a. RemoveActor (aid a)) (wrapping_actors m ! seg)
                     @ created_calls (next_actor m) (length ms)\<rparr>)"
proof -
  let ?ws = "ms"
  define m3 where "m3 =
    (fold ren_RemoveActor (wrapping_actors m ! seg)
       (m\<lparr>all_wrappings := (all_wrappings m)[seg := ?ws]\<rparr>))
      \<lparr>wrapping_actors := (wrapping_actors m)[seg := []]\<rparr>"
  define S where "S = (\<lambda>k. m3\<lparr>wrapping_actors := (wrapping_actors m3)
          [seg := wrapping_actors m3 ! seg @
             map (wrapping_actor_built (wrapping_color m3) (wrapping_opacity m3) (next_actor m3) ?ws)
               [0..<k]],
        ren_actors := fold add_item (map (\<lambda>j. next_actor m3 + j) [0..<k]) (ren_actors m3),
        next_actor := next_actor m3 + k,
        vtk_calls := vtk_calls m3 @ created_calls (next_actor m3) k\<rparr>)"
  have l3: "seg < length (wrapping_actors m3)" using assms(2) by (simp add: m3_def)
  have "new_wrapping_set (Many ms) seg m = for_each (new_wrapping_actor seg) ?ws m3"
    using assms(1,2)
    by (simp add: new_wrapping_set.simps(2) Let_def fold_ren_RemoveActor m3_def)
  also have "for_each (new_wrapping_actor seg) ?ws (S 0) = (None, S (length ?ws))"
  proof (rule for_each_nth)
    fix k assume k: "k < length ?ws"
    with assms(3) have "wrapping_ok (?ws ! k)" by (simp add: list_all_length)
    with l3 show "new_wrapping_actor seg (?ws ! k) (S k) = (None, S (Suc k))"
      unfolding S_def by (rule new_wrapping_actor_rounds)
  qed
  moreover have "S 0 = m3"
    unfolding S_def using l3 by (simp add: created_calls_def)
  ultimately have "new_wrapping_set (Many ms) seg m = (None, S (length ?ws))" by simp
  moreover have "S (length ?ws) =
      m\<lparr>all_wrappings := (all_wrappings m)[seg := ?ws],
        wrapping_actors := (wrapping_actors m)
          [seg := map (wrapping_actor_built (wrapping_color m) (wrapping_opacity m)
                         (next_actor m) ?ws) [0..<length ?ws]],
        ren_actors := fold add_item (map (\<lambda>j. next_actor m + j) [0..<length ?ws])
                        (fold remove1 (map aid (wrapping_actors m ! seg)) (ren_actors m)),
        next_actor := next_actor m + length ?ws,
        vtk_calls := vtk_calls m @ map (\<lambda>a. RemoveActor (aid a)) (wrapping_actors m ! seg)
                     @ created_calls (next_actor m) (length ?ws)\<rparr>"
    unfolding S_def m3_def using assms(2) by (simp add: fold_ren_RemoveActor)
  ultimately show ?thesis by (simp only:)
qed

lemma new_wrapping_set_returns:
  assumes "fst (new_wrapping_set (Many ms) seg m) = None"
  shows "seg < length (all_wrappings m)" and "seg < length (wrapping_actors m)"
    and "list_all wrapping_ok ms"
proof -
  show a: "seg < length (all_wrappings m)"
    using assms by (cases "seg < length (all_wrappings m)") (simp_all add: new_wrapping_set.simps(2))
  show b: "seg < length (wrapping_actors m)"
    using assms a
    by (cases "seg < length (wrapping_actors m)") (simp_all add: new_wrapping_set.simps(2) Let_def)
  show "list_all wrapping_ok ms"
  proof (rule ccontr)
    assume n: "\<not> list_all wrapping_ok ms"
    have "fst (for_each (new_wrapping_actor seg) ms s) \<noteq> None" for s
    proof (rule for_each_raises_at [where bad = "\<lambda>w. \<not> wrapping_ok w"])
      fix x s assume "\<not> wrapping_ok x"
      then show "fst (new_wrapping_actor seg x s) \<noteq> None"
        by (simp add: new_wrapping_actor_stop)
    next
      from n show "\<exists>x \<in> set ms. \<not> wrapping_ok x" by (simp add: list_all_iff)
    qed
    with assms a b show False
      by (simp add: new_wrapping_set.simps(2) Let_def fold_ren_RemoveActor)
  qed
qed

subsection \<open>An update that returns\<close>





subsection \<open>An update of the wrappings that returns\<close>










section \<open>The claims\<close>

subsection \<open>The global reference frame\<close>

lemma has_global_ref_frame_mask:
  "k \<noteq> CRefFrame \<Longrightarrow> has_global_ref_frame (mask_of k s) = has_global_ref_frame s"
  by (cases k) (simp_all add: mask_defs)

lemma has_global_ref_frame_run:
  "has_global_ref_frame m \<Longrightarrow> has_global_ref_frame (snd (run c m))"
proof (cases "category_of c = CRefFrame")
  case True
  assume "has_global_ref_frame m"
  with True show ?thesis by (cases c) (simp_all add: create_global_ref_frame_def)
next
  case False
  assume h: "has_global_ref_frame m"
  have "has_global_ref_frame (snd (run c m)) = has_global_ref_frame m"
    by (rule run_keeps) (simp add: has_global_ref_frame_mask False)
  with h show ?thesis by simp
qed

lemma has_global_ref_frame_runs:
  "has_global_ref_frame m \<Longrightarrow> has_global_ref_frame (runs cs m)"
  unfolding runs_def
  by (induction cs arbitrary: m) (simp_all add: has_global_ref_frame_run)

text \<open>
  C6.  On a model that has no global reference frame yet,
  \<^verbatim>\<open>create_global_ref_frame\<close> returns without raising, marks the model and
  leaves its new actor in the renderer's collection.  On a model that has one,
  after any further calls whatever, it raises RuntimeError and leaves the model,
  and so every actor, exactly as it was.
\<close>

theorem create_global_ref_frame_once:
  "(\<not> has_global_ref_frame m \<longrightarrow>
      fst (create_global_ref_frame m) = None
      \<and> has_global_ref_frame (snd (create_global_ref_frame m))
      \<and> next_actor m \<in> set (ren_actors (snd (create_global_ref_frame m)))
      \<and> vtk_calls (snd (create_global_ref_frame m))
          = vtk_calls m @ [AddActor (next_actor m), ResetCamera])
   \<and> (has_global_ref_frame m \<longrightarrow>
      create_global_ref_frame (runs cs m) = (Some RuntimeError, runs cs m))"
proof (intro conjI impI)
  assume "\<not> has_global_ref_frame m"
  then show "fst (create_global_ref_frame m) = None"
    and "has_global_ref_frame (snd (create_global_ref_frame m))"
    and "next_actor m \<in> set (ren_actors (snd (create_global_ref_frame m)))"
    and "vtk_calls (snd (create_global_ref_frame m))
          = vtk_calls m @ [AddActor (next_actor m), ResetCamera]"
    by (simp_all add: create_global_ref_frame_def vtkActor_def ren_AddActor_def
        ren_ResetCamera_def add_item_def Let_def)
next
  assume "has_global_ref_frame m"
  then have "has_global_ref_frame (runs cs m)" by (rule has_global_ref_frame_runs)
  then show "create_global_ref_frame (runs cs m) = (Some RuntimeError, runs cs m)"
    by (simp add: create_global_ref_frame_def)
qed

theorem create_global_ref_frame_once_witness:
  "fst (create_global_ref_frame (VtkModel_init 0)) = None
   \<and> create_global_ref_frame
        (runs [Set_markers_size 1] (snd (create_global_ref_frame (VtkModel_init 0))))
      = (Some RuntimeError,
         runs [Set_markers_size 1] (snd (create_global_ref_frame (VtkModel_init 0))))"
proof -
  have a: "\<not> has_global_ref_frame (VtkModel_init 0)"
    by (simp add: VtkModel_init_def)
  from create_global_ref_frame_once [of "VtkModel_init 0" "[]"] a
  have b: "fst (create_global_ref_frame (VtkModel_init 0)) = None"
    and c: "has_global_ref_frame (snd (create_global_ref_frame (VtkModel_init 0)))"
    by simp_all
  from create_global_ref_frame_once
         [of "snd (create_global_ref_frame (VtkModel_init 0))" "[Set_markers_size 1]"] c
  show ?thesis using b by simp
qed

subsection \<open>Update: rebuild or fast path\<close>

text \<open>
  C2.  For the four point categories and a payload of one time sample:
  when its channel count differs from that of the stored frame, the update is
  the rebuild, and a rebuild that goes through (for the global centre of mass:
  of one channel) removes the old actors, adds the new ones and then sets the
  geometry of each new actor once; when the channel counts are equal (and there
  are no more actors than channels) the update changes nothing but the stored
  frame, the colour, opacity and sphere of each actor, and the call trace, to
  which each actor adds one geometry call: the renderer's collection and the
  identities of the actors stay as they are.
\<close>

theorem update_rebuild_or_fast_path:
  assumes "time_size mk = 1"
  shows
   "(channel_size mk \<noteq> channel_size (markers m) \<longrightarrow>
       update_markers mk m = new_marker_set mk m
       \<and> fst (update_markers mk m) = None
       \<and> vtk_calls (snd (update_markers mk m))
           = vtk_calls m @ map (\<lambda>a. RemoveActor (aid a)) (markers_actors m)
             @ created_calls (next_actor m) (channel_size mk)
             @ map (\<lambda>j. SetInputConnection (next_actor m + j)) [0..<channel_size mk])
    \<and> (channel_size mk = channel_size (markers m)
          \<and> length (markers_actors m) \<le> channel_size mk \<longrightarrow>
       update_markers mk m =
         (None,
          m\<lparr>markers := mk,
            markers_actors :=
              map (\<lambda>j. sphere_actor mk (markers_color m) (markers_opacity m) (markers_size m) j
                         (markers_actors m ! j)) [0..<length (markers_actors m)],
            vtk_calls := vtk_calls m
              @ map (\<lambda>a. SetInputConnection (aid a)) (markers_actors m)\<rparr>))
    \<and> (channel_size mk \<noteq> channel_size (contacts m) \<longrightarrow>
       update_contacts mk m = new_contact_set mk m
       \<and> fst (update_contacts mk m) = None
       \<and> vtk_calls (snd (update_contacts mk m))
           = vtk_calls m @ map (\<lambda>a. RemoveActor (aid a)) (contacts_actors m)
             @ created_calls (next_actor m) (channel_size mk)
             @ map (\<lambda>j. SetInputConnection (next_actor m + j)) [0..<channel_size mk])
    \<and> (channel_size mk = channel_size (contacts m)
          \<and> length (contacts_actors m) \<le> channel_size mk \<longrightarrow>
       update_contacts mk m =
         (None,
          m\<lparr>contacts := mk,
            contacts_actors :=
              map (\<lambda>j. sphere_actor mk (contacts_color m) (contacts_opacity m) (contacts_size m) j
                         (contacts_actors m ! j)) [0..<length (contacts_actors m)],
            vtk_calls := vtk_calls m
              @ map (\<lambda>a. SetInputConnection (aid a)) (contacts_actors m)\<rparr>))
    \<and> (channel_size mk \<noteq> channel_size (global_center_of_mass m) \<longrightarrow>
       update_global_center_of_mass mk m = new_global_center_of_mass_set mk m
       \<and> (channel_size mk = 1 \<longrightarrow>
            fst (update_global_center_of_mass mk m) = None
            \<and> vtk_calls (snd (update_global_center_of_mass mk m))
                = vtk_calls m
                  @ map (\<lambda>a. RemoveActor (aid a)) (global_center_of_mass_actors m)
                  @ created_calls (next_actor m) (channel_size mk)
                  @ map (\<lambda>j. SetInputConnection (next_actor m + j)) [0..<channel_size mk]))
    \<and> (channel_size mk = channel_size (global_center_of_mass m)
          \<and> length (global_center_of_mass_actors m) \<le> channel_size mk \<longrightarrow>
       update_global_center_of_mass mk m =
         (None,
          m\<lparr>global_center_of_mass := mk,
            global_center_of_mass_actors :=
              map (\<lambda>j. sphere_actor mk (global_center_of_mass_color m)
                         (global_center_of_mass_opacity m) (global_center_of_mass_size m) j
                         (global_center_of_mass_actors m ! j))
                [0..<length (global_center_of_mass_actors m)],
            vtk_calls := vtk_calls m
              @ map (\<lambda>a. SetInputConnection (aid a)) (global_center_of_mass_actors m)\<rparr>))
    \<and> (channel_size mk \<noteq> channel_size (segments_center_of_mass m) \<longrightarrow>
       update_segments_center_of_mass mk m = new_segments_center_of_mass_set mk m
       \<and> fst (update_segments_center_of_mass mk m) = None
       \<and> vtk_calls (snd (update_segments_center_of_mass mk m))
           = vtk_calls m
             @ map (\<lambda>a. RemoveActor (aid a)) (segments_center_of_mass_actors m)
             @ created_calls (next_actor m) (channel_size mk)
             @ map (\<lambda>j. SetInputConnection (next_actor m + j)) [0..<channel_size mk])
    \<and> (channel_size mk = channel_size (segments_center_of_mass m)
          \<and> length (segments_center_of_mass_actors m) \<le> channel_size mk \<longrightarrow>
       update_segments_center_of_mass mk m =
         (None,
          m\<lparr>segments_center_of_mass := mk,
            segments_center_of_mass_actors :=
              map (\<lambda>j. sphere_actor mk (segments_center_of_mass_color m)
                         (segments_center_of_mass_opacity m) (segments_center_of_mass_size m) j
                         (segments_center_of_mass_actors m ! j))
                [0..<length (segments_center_of_mass_actors m)],
            vtk_calls := vtk_calls m
              @ map (\<lambda>a. SetInputConnection (aid a)) (segments_center_of_mass_actors m)\<rparr>))"
proof (intro conjI impI)
  assume "channel_size mk \<noteq> channel_size (markers m)"
  with assms show r: "update_markers mk m = new_marker_set mk m"
    by (rule update_markers_rebuild)
  from new_marker_set_exact [OF assms assms, of m]
  show "fst (update_markers mk m) = None"
    and "vtk_calls (snd (update_markers mk m))
           = vtk_calls m @ map (\<lambda>a. RemoveActor (aid a)) (markers_actors m)
             @ created_calls (next_actor m) (channel_size mk)
             @ map (\<lambda>j. SetInputConnection (next_actor m + j)) [0..<channel_size mk]"
    by (simp_all add: r)
next
  assume "channel_size mk = channel_size (markers m)
          \<and> length (markers_actors m) \<le> channel_size mk"
  with assms show "update_markers mk m =
         (None,
          m\<lparr>markers := mk,
            markers_actors :=
              map (\<lambda>j. sphere_actor mk (markers_color m) (markers_opacity m) (markers_size m) j
                         (markers_actors m ! j)) [0..<length (markers_actors m)],
            vtk_calls := vtk_calls m
              @ map (\<lambda>a. SetInputConnection (aid a)) (markers_actors m)\<rparr>)"
    by (intro update_markers_fast) simp_all
next
  assume "channel_size mk \<noteq> channel_size (contacts m)"
  with assms show r: "update_contacts mk m = new_contact_set mk m"
    by (rule update_contacts_rebuild)
  from new_contact_set_exact [OF assms assms, of m]
  show "fst (update_contacts mk m) = None"
    and "vtk_calls (snd (update_contacts mk m))
           = vtk_calls m @ map (\<lambda>a. RemoveActor (aid a)) (contacts_actors m)
             @ created_calls (next_actor m) (channel_size mk)
             @ map (\<lambda>j. SetInputConnection (next_actor m + j)) [0..<channel_size mk]"
    by (simp_all add: r)
next
  assume "channel_size mk = channel_size (contacts m)
          \<and> length (contacts_actors m) \<le> channel_size mk"
  with assms show "update_contacts mk m =
         (None,
          m\<lparr>contacts := mk,
            contacts_actors :=
              map (\<lambda>j. sphere_actor mk (contacts_color m) (contacts_opacity m) (contacts_size m) j
                         (contacts_actors m ! j)) [0..<length (contacts_actors m)],
            vtk_calls := vtk_calls m
              @ map (\<lambda>a. SetInputConnection (aid a)) (contacts_actors m)\<rparr>)"
    by (intro update_contacts_fast) simp_all
next
  assume "channel_size mk \<noteq> channel_size (global_center_of_mass m)"
  with assms show r: "update_global_center_of_mass mk m = new_global_center_of_mass_set mk m"
    by (rule update_global_center_of_mass_rebuild)
  assume one: "channel_size mk = 1"
  from new_global_center_of_mass_set_exact [OF one assms, of m]
  show "fst (update_global_center_of_mass mk m) = None"
    and "vtk_calls (snd (update_global_center_of_mass mk m))
                = vtk_calls m
                  @ map (\<lambda>a. RemoveActor (aid a)) (global_center_of_mass_actors m)
                  @ created_calls (next_actor m) (channel_size mk)
                  @ map (\<lambda>j. SetInputConnection (next_actor m + j)) [0..<channel_size mk]"
    by (simp_all add: r)
next
  assume "channel_size mk = channel_size (global_center_of_mass m)
          \<and> length (global_center_of_mass_actors m) \<le> channel_size mk"
  with assms show "update_global_center_of_mass mk m =
         (None,
          m\<lparr>global_center_of_mass := mk,
            global_center_of_mass_actors :=
              map (\<lambda>j. sphere_actor mk (global_center_of_mass_color m)
                         (global_center_of_mass_opacity m) (global_center_of_mass_size m) j
                         (global_center_of_mass_actors m ! j))
                [0..<length (global_center_of_mass_actors m)],
            vtk_calls := vtk_calls m
              @ map (\<lambda>a. SetInputConnection (aid a)) (global_center_of_mass_actors m)\<rparr>)"
    by (intro update_global_center_of_mass_fast) simp_all
next
  assume "channel_size mk \<noteq> channel_size (segments_center_of_mass m)"
  with assms
  show r: "update_segments_center_of_mass mk m = new_segments_center_of_mass_set mk m"
    by (rule update_segments_center_of_mass_rebuild)
  from new_segments_center_of_mass_set_exact [OF assms assms, of m]
  show "fst (update_segments_center_of_mass mk m) = None"
    and "vtk_calls (snd (update_segments_center_of_mass mk m))
           = vtk_calls m
             @ map (\<lambda>a. RemoveActor (aid a)) (segments_center_of_mass_actors m)
             @ created_calls (next_actor m) (channel_size mk)
             @ map (\<lambda>j. SetInputConnection (next_actor m + j)) [0..<channel_size mk]"
    by (simp_all add: r)
next
  assume "channel_size mk = channel_size (segments_center_of_mass m)
          \<and> length (segments_center_of_mass_actors m) \<le> channel_size mk"
  with assms show "update_segments_center_of_mass mk m =
         (None,
          m\<lparr>segments_center_of_mass := mk,
            segments_center_of_mass_actors :=
              map (\<lambda>j. sphere_actor mk (segments_center_of_mass_color m)
                         (segments_center_of_mass_opacity m) (segments_center_of_mass_size m) j
                         (segments_center_of_mass_actors m ! j))
                [0..<length (segments_center_of_mass_actors m)],
            vtk_calls := vtk_calls m
              @ map (\<lambda>a. SetInputConnection (aid a)) (segments_center_of_mass_actors m)\<rparr>)"
    by (intro update_segments_center_of_mass_fast) simp_all
qed

theorem update_rebuild_or_fast_path_witness:
  "fst (update_markers \<lparr>time_size = 1, points = [(0, 0, 0), (1, 1, 1)]\<rparr> (VtkModel_init 0)) = None
   \<and> vtk_calls (snd (update_markers \<lparr>time_size = 1, points = [(0, 0, 0), (1, 1, 1)]\<rparr>
                        (VtkModel_init 0)))
       = [AddActor 0, ResetCamera, AddActor 1, ResetCamera,
          SetInputConnection 0, SetInputConnection 1]
   \<and> update_markers \<lparr>time_size = 1, points = []\<rparr> (VtkModel_init 0)
       = (None, (VtkModel_init 0)\<lparr>markers := \<lparr>time_size = 1, points = []\<rparr>\<rparr>)"
proof -
  let ?two = "\<lparr>time_size = 1, points = [(0, 0, 0), (1, 1, 1) :: vec3]\<rparr>"
  let ?none = "\<lparr>time_size = 1, points = [] :: vec3 list\<rparr>"
  have t: "time_size ?two = 1" "time_size ?none = 1"
    by simp_all
  have i: "markers_actors (VtkModel_init 0) = []" "vtk_calls (VtkModel_init 0) = []"
    "next_actor (VtkModel_init 0) = 0" "channel_size (markers (VtkModel_init 0)) = 0"
    "channel_size ?two = 2" "channel_size ?none = 0"
    by (simp_all add: VtkModel_init_def Markers_empty_def channel_size_def)
  have d: "channel_size ?two \<noteq> channel_size (markers (VtkModel_init 0))"
    and e: "channel_size ?none = channel_size (markers (VtkModel_init 0))
            \<and> length (markers_actors (VtkModel_init 0)) \<le> channel_size ?none"
    by (simp_all add: VtkModel_init_def Markers_empty_def channel_size_def)
  from update_rebuild_or_fast_path [OF t(1), of "VtkModel_init 0"] d
  have a: "fst (update_markers ?two (VtkModel_init 0)) = None"
    and b: "vtk_calls (snd (update_markers ?two (VtkModel_init 0)))
           = vtk_calls (VtkModel_init 0)
             @ map (\<lambda>a. RemoveActor (aid a)) (markers_actors (VtkModel_init 0))
             @ created_calls (next_actor (VtkModel_init 0)) (channel_size ?two)
             @ map (\<lambda>j. SetInputConnection (next_actor (VtkModel_init 0) + j))
                 [0..<channel_size ?two]"
    by blast+
  from update_rebuild_or_fast_path [OF t(2), of "VtkModel_init 0"] e
  have c: "update_markers ?none (VtkModel_init 0) =
         (None,
          (VtkModel_init 0)\<lparr>markers := ?none,
            markers_actors :=
              map (\<lambda>j. sphere_actor ?none (markers_color (VtkModel_init 0))
                         (markers_opacity (VtkModel_init 0)) (markers_size (VtkModel_init 0)) j
                         (markers_actors (VtkModel_init 0) ! j))
                [0..<length (markers_actors (VtkModel_init 0))],
            vtk_calls := vtk_calls (VtkModel_init 0)
              @ map (\<lambda>a. SetInputConnection (aid a)) (markers_actors (VtkModel_init 0))\<rparr>)"
    by blast
  have "vtk_calls (snd (update_markers ?two (VtkModel_init 0)))
       = [AddActor 0, ResetCamera, AddActor 1, ResetCamera,
          SetInputConnection 0, SetInputConnection 1]"
    unfolding b i by (simp add: created_calls_def upt_conv_Cons)
  moreover have "update_markers ?none (VtkModel_init 0)
       = (None, (VtkModel_init 0)\<lparr>markers := ?none\<rparr>)"
    unfolding c i by (simp add: VtkModel_init_def)
  ultimately show ?thesis using a by simp
qed

subsection \<open>Camera resets\<close>

lemma count_ResetCamera [simp]:
  "count_list (created_calls first n) ResetCamera = n"
  "count_list (map (\<lambda>a. RemoveActor (aid a)) as) ResetCamera = 0"
  "count_list (map (\<lambda>j. SetInputConnection (f j)) js) ResetCamera = 0"
  "count_list (map (\<lambda>j. SetPoints (f j)) js) ResetCamera = 0"
proof -
  show "count_list (created_calls first n) ResetCamera = n"
    by (induction n) (simp_all add: created_calls_def)
  show "count_list (map (\<lambda>a. RemoveActor (aid a)) as) ResetCamera = 0"
    by (induction as) simp_all
  show "count_list (map (\<lambda>j. SetInputConnection (f j)) js) ResetCamera = 0"
    by (induction js) simp_all
  show "count_list (map (\<lambda>j. SetPoints (f j)) js) ResetCamera = 0"
    by (induction js) simp_all
qed

text \<open>
  C7, as stated, fails: the rebuild of a marker frame of two channels on a new
  model sends two camera resets to the renderer, not one.
\<close>

theorem rebuild_two_markers_two_resets:
  "fst (new_marker_set \<lparr>time_size = 1, points = [(0, 0, 0), (1, 1, 1)]\<rparr> (VtkModel_init 0)) = None
   \<and> count_list
        (vtk_calls (snd (new_marker_set \<lparr>time_size = 1, points = [(0, 0, 0), (1, 1, 1)]\<rparr>
                           (VtkModel_init 0))))
        ResetCamera = 2"
proof -
  have t: "time_size \<lparr>time_size = 1, points = [(0, 0, 0), (1, 1, 1) :: vec3]\<rparr> = 1"
    by simp
  from new_marker_set_exact [OF t t, of "VtkModel_init 0"] show ?thesis
    by (simp add: channel_size_def VtkModel_init_def)
qed

text \<open>
  C7, amended.  After a rebuild that returns, the number of actors of the
  category is the channel count of the new frame (for meshes, muscles, systems
  of axes and the wrappings of a segment: the number of items pushed), and the
  rebuild has sent the renderer one camera reset for each actor it made.
\<close>

theorem rebuild_count_and_resets:
  "(fst (new_marker_set mk m) = None \<longrightarrow>
      length (markers_actors (snd (new_marker_set mk m))) = channel_size mk
      \<and> count_list (vtk_calls (snd (new_marker_set mk m))) ResetCamera
          = count_list (vtk_calls m) ResetCamera + channel_size mk)
   \<and> (fst (new_contact_set mk m) = None \<longrightarrow>
      length (contacts_actors (snd (new_contact_set mk m))) = channel_size mk
      \<and> count_list (vtk_calls (snd (new_contact_set mk m))) ResetCamera
          = count_list (vtk_calls m) ResetCamera + channel_size mk)
   \<and> (fst (new_global_center_of_mass_set mk m) = None \<longrightarrow>
      length (global_center_of_mass_actors (snd (new_global_center_of_mass_set mk m)))
        = channel_size mk
      \<and> count_list (vtk_calls (snd (new_global_center_of_mass_set mk m))) ResetCamera
          = count_list (vtk_calls m) ResetCamera + channel_size mk)
   \<and> (fst (new_segments_center_of_mass_set mk m) = None \<longrightarrow>
      length (segments_center_of_mass_actors (snd (new_segments_center_of_mass_set mk m)))
        = channel_size mk
      \<and> count_list (vtk_calls (snd (new_segments_center_of_mass_set mk m))) ResetCamera
          = count_list (vtk_calls m) ResetCamera + channel_size mk)
   \<and> (fst (new_mesh_set (Many ms) m) = None \<longrightarrow>
      length (mesh_actors (snd (new_mesh_set (Many ms) m))) = length ms
      \<and> count_list (vtk_calls (snd (new_mesh_set (Many ms) m))) ResetCamera
          = count_list (vtk_calls m) ResetCamera + length ms)
   \<and> (fst (new_muscle_set (Many ms) m) = None \<longrightarrow>
      length (muscle_actors (snd (new_muscle_set (Many ms) m))) = length ms
      \<and> count_list (vtk_calls (snd (new_muscle_set (Many ms) m))) ResetCamera
          = count_list (vtk_calls m) ResetCamera + length ms)
   \<and> (fst (new_rt_set (Many rts) m) = None \<longrightarrow>
      length (rt_actors (snd (new_rt_set (Many rts) m))) = length rts
      \<and> count_list (vtk_calls (snd (new_rt_set (Many rts) m))) ResetCamera
          = count_list (vtk_calls m) ResetCamera + length rts)
   \<and> (fst (new_wrapping_set (Many ms) seg m) = None \<longrightarrow>
      length (wrapping_actors (snd (new_wrapping_set (Many ms) seg m)) ! seg) = length ms
      \<and> count_list (vtk_calls (snd (new_wrapping_set (Many ms) seg m))) ResetCamera
          = count_list (vtk_calls m) ResetCamera + length ms)"
proof (intro conjI impI)
  assume r: "fst (new_marker_set mk m) = None"
  from new_marker_set_post [OF r]
  show "length (markers_actors (snd (new_marker_set mk m))) = channel_size mk"
    and "count_list (vtk_calls (snd (new_marker_set mk m))) ResetCamera
          = count_list (vtk_calls m) ResetCamera + channel_size mk"
    by simp_all
next
  assume r: "fst (new_contact_set mk m) = None"
  from new_contact_set_post [OF r]
  show "length (contacts_actors (snd (new_contact_set mk m))) = channel_size mk"
    and "count_list (vtk_calls (snd (new_contact_set mk m))) ResetCamera
          = count_list (vtk_calls m) ResetCamera + channel_size mk"
    by simp_all
next
  assume r: "fst (new_global_center_of_mass_set mk m) = None"
  from new_global_center_of_mass_set_post [OF r]
  show "length (global_center_of_mass_actors (snd (new_global_center_of_mass_set mk m)))
        = channel_size mk"
    and "count_list (vtk_calls (snd (new_global_center_of_mass_set mk m))) ResetCamera
          = count_list (vtk_calls m) ResetCamera + channel_size mk"
    by simp_all
next
  assume r: "fst (new_segments_center_of_mass_set mk m) = None"
  from new_segments_center_of_mass_set_post [OF r]
  show "length (segments_center_of_mass_actors (snd (new_segments_center_of_mass_set mk m)))
        = channel_size mk"
    and "count_list (vtk_calls (snd (new_segments_center_of_mass_set mk m))) ResetCamera
          = count_list (vtk_calls m) ResetCamera + channel_size mk"
    by simp_all
next
  assume "fst (new_mesh_set (Many ms) m) = None"
  then have "list_all mesh_ok ms" by (rule new_mesh_set_returns)
  from new_mesh_set_exact [OF this, of m]
  show "length (mesh_actors (snd (new_mesh_set (Many ms) m))) = length ms"
    and "count_list (vtk_calls (snd (new_mesh_set (Many ms) m))) ResetCamera
          = count_list (vtk_calls m) ResetCamera + length ms"
    by (simp_all add: meshes_created_def)
next
  assume "fst (new_muscle_set (Many ms) m) = None"
  then have "list_all muscle_ok ms" by (rule new_muscle_set_returns)
  from new_muscle_set_exact [OF this, of m]
  show "length (muscle_actors (snd (new_muscle_set (Many ms) m))) = length ms"
    and "count_list (vtk_calls (snd (new_muscle_set (Many ms) m))) ResetCamera
          = count_list (vtk_calls m) ResetCamera + length ms"
    by (simp_all add: muscles_created_def moved_actors_def)
next
  assume "fst (new_rt_set (Many rts) m) = None"
  then have "list_all rt_ok rts" by (rule new_rt_set_returns)
  from new_rt_set_exact [OF this, of m]
  show "length (rt_actors (snd (new_rt_set (Many rts) m))) = length rts"
    and "count_list (vtk_calls (snd (new_rt_set (Many rts) m))) ResetCamera
          = count_list (vtk_calls m) ResetCamera + length rts"
    by (simp_all add: rts_created_def moved_rt_actors_def)
next
  assume r: "fst (new_wrapping_set (Many ms) seg m) = None"
  note ok = new_wrapping_set_returns [OF r]
  from new_wrapping_set_exact [OF ok] ok(2)
  show "length (wrapping_actors (snd (new_wrapping_set (Many ms) seg m)) ! seg) = length ms"
    and "count_list (vtk_calls (snd (new_wrapping_set (Many ms) seg m))) ResetCamera
          = count_list (vtk_calls m) ResetCamera + length ms"
    by simp_all
qed

theorem rebuild_count_and_resets_witness:
  "length (mesh_actors (snd (new_mesh_set
      (Many [\<lparr>time_size = 1, points = [(0, 0, 0)], triangles = []\<rparr>,
             \<lparr>time_size = 1, points = [(1, 0, 0), (0, 1, 0)], triangles = []\<rparr>])
      (VtkModel_init 0)))) = 2
   \<and> count_list (vtk_calls (snd (new_mesh_set
      (Many [\<lparr>time_size = 1, points = [(0, 0, 0)], triangles = []\<rparr>,
             \<lparr>time_size = 1, points = [(1, 0, 0), (0, 1, 0)], triangles = []\<rparr>])
      (VtkModel_init 0)))) ResetCamera = 2"
proof -
  let ?ms = "[\<lparr>time_size = 1, points = [(0, 0, 0) :: vec3], triangles = []\<rparr>,
             \<lparr>time_size = 1, points = [(1, 0, 0), (0, 1, 0)], triangles = []\<rparr>]"
  have "list_all mesh_ok ?ms"
    by (simp add: mesh_ok_def outline_branch_def)
  from new_mesh_set_exact [OF this, of "VtkModel_init 0"]
  have "fst (new_mesh_set (Many ?ms) (VtkModel_init 0)) = None" by simp
  with rebuild_count_and_resets [of _ "VtkModel_init 0" ?ms] show ?thesis
    by (simp add: VtkModel_init_def)
qed

subsection \<open>Actors and channels\<close>



















text \<open>
  The update of the meshes does not see a list that has become shorter: after
  two meshes, the update with the first of them alone returns, stores the list
  of one and keeps both actors.
\<close>

lemma update_mesh_shorter_list_keeps_actors:
  "fst (update_mesh (Many [\<lparr>time_size = 1, points = [(0, 0, 0)], triangles = []\<rparr>])
     (snd (update_mesh
        (Many [\<lparr>time_size = 1, points = [(0, 0, 0)], triangles = []\<rparr>,
               \<lparr>time_size = 1, points = [(1, 0, 0)], triangles = []\<rparr>])
        (VtkModel_init 0)))) = None
   \<and> length (all_meshes (snd (update_mesh
       (Many [\<lparr>time_size = 1, points = [(0, 0, 0)], triangles = []\<rparr>])
       (snd (update_mesh
          (Many [\<lparr>time_size = 1, points = [(0, 0, 0)], triangles = []\<rparr>,
                 \<lparr>time_size = 1, points = [(1, 0, 0)], triangles = []\<rparr>])
          (VtkModel_init 0)))))) = 1
   \<and> length (mesh_actors (snd (update_mesh
       (Many [\<lparr>time_size = 1, points = [(0, 0, 0)], triangles = []\<rparr>])
       (snd (update_mesh
          (Many [\<lparr>time_size = 1, points = [(0, 0, 0)], triangles = []\<rparr>,
                 \<lparr>time_size = 1, points = [(1, 0, 0)], triangles = []\<rparr>])
          (VtkModel_init 0)))))) = 2"
proof -
  let ?a = "\<lparr>time_size = 1, points = [(0, 0, 0) :: vec3], triangles = []\<rparr>"
  let ?b = "\<lparr>time_size = 1, points = [(1, 0, 0) :: vec3], triangles = []\<rparr>"
  define m1 where "m1 = snd (update_mesh (Many [?a, ?b]) (VtkModel_init 0))"
  have s: "scan_meshes (all_meshes (VtkModel_init 0)) 0 [?a, ?b] = ScanRebuild"
    by (simp add: VtkModel_init_def)
  have "list_all mesh_ok [?a, ?b]"
    by (simp add: mesh_ok_def outline_branch_def)
  from new_mesh_set_exact [OF this, of "VtkModel_init 0"] update_mesh_rebuild [OF s]
  have m1: "all_meshes m1 = [?a, ?b]" "length (mesh_actors m1) = 2"
    by (simp_all add: m1_def meshes_created_def)
  have f: "scan_meshes (all_meshes m1) 0 [?a] = ScanDone"
    by (simp add: m1 channel_size_def)
  have "length [?a] \<le> length (mesh_actors m1)" by (simp add: m1)
  from update_mesh_fast [OF f this]
  have "fst (update_mesh (Many [?a]) m1) = None"
    and "length (all_meshes (snd (update_mesh (Many [?a]) m1))) = 1"
    and "length (mesh_actors (snd (update_mesh (Many [?a]) m1))) = 2"
    by (simp_all add: moved_actors_def m1)
  then show ?thesis unfolding m1_def by simp
qed

text \<open>
  A call that raises may leave its category between two generations.  After an
  update with one system of axes, a rebuild with three of which the last has
  two time samples raises with two actors made and \<^verbatim>\<open>n_rt\<close> still one; the
  update with one system of axes then returns on its fast path and keeps both
  actors.
\<close>

lemma update_rt_after_failed_rebuild:
  "fst (update_rt (Many [\<lparr>rt_time_size = 1, translation = (0, 0, 0), col0 = (1, 0, 0),
                            col1 = (0, 1, 0), col2 = (0, 0, 1)\<rparr>]) (VtkModel_init 0)) = None
   \<and> fst (new_rt_set
        (Many [\<lparr>rt_time_size = 1, translation = (0, 0, 0), col0 = (1, 0, 0),
                 col1 = (0, 1, 0), col2 = (0, 0, 1)\<rparr>,
               \<lparr>rt_time_size = 1, translation = (0, 0, 0), col0 = (1, 0, 0),
                 col1 = (0, 1, 0), col2 = (0, 0, 1)\<rparr>,
               \<lparr>rt_time_size = 2, translation = (0, 0, 0), col0 = (1, 0, 0),
                 col1 = (0, 1, 0), col2 = (0, 0, 1)\<rparr>])
        (snd (update_rt (Many [\<lparr>rt_time_size = 1, translation = (0, 0, 0), col0 = (1, 0, 0),
                                  col1 = (0, 1, 0), col2 = (0, 0, 1)\<rparr>]) (VtkModel_init 0))))
      = Some IndexError
   \<and> (let m3 = snd (update_rt
          (Many [\<lparr>rt_time_size = 1, translation = (0, 0, 0), col0 = (1, 0, 0),
                   col1 = (0, 1, 0), col2 = (0, 0, 1)\<rparr>])
          (snd (new_rt_set
            (Many [\<lparr>rt_time_size = 1, translation = (0, 0, 0), col0 = (1, 0, 0),
                     col1 = (0, 1, 0), col2 = (0, 0, 1)\<rparr>,
                   \<lparr>rt_time_size = 1, translation = (0, 0, 0), col0 = (1, 0, 0),
                     col1 = (0, 1, 0), col2 = (0, 0, 1)\<rparr>,
                   \<lparr>rt_time_size = 2, translation = (0, 0, 0), col0 = (1, 0, 0),
                     col1 = (0, 1, 0), col2 = (0, 0, 1)\<rparr>])
            (snd (update_rt (Many [\<lparr>rt_time_size = 1, translation = (0, 0, 0),
                                      col0 = (1, 0, 0), col1 = (0, 1, 0), col2 = (0, 0, 1)\<rparr>])
                    (VtkModel_init 0))))))
      in length (rt_actors m3) = 2 \<and> length (all_rt m3) = 1)"
  by (simp add: new_rt_set.simps(2) update_rt.simps(2) new_rt_actor_def update_rt_actor_def
      vtkActor_def ren_AddActor_def ren_ResetCamera_def ren_RemoveActor_def add_item_def
      VtkModel_init_def Markers_empty_def Let_def upt_conv_Cons)



subsection \<open>Geometry after a rebuild\<close>

text \<open>
  C8, as stated, fails for the wrappings.  Take the model after a first update
  with one segment and no wrapping on it, and rebuild segment 0 with a list of
  one wrapping of one vertex at (1, 2, 3): the rebuild returns and the new
  actor holds the placeholder point (0, 0, 0).
\<close>

theorem new_wrapping_set_leaves_placeholder:
  "fst (update_wrapping [Many []] (VtkModel_init 0)) = None
   \<and> fst (new_wrapping_set (Many [\<lparr>time_size = 1, points = [(1, 2, 3)], triangles = []\<rparr>]) 0
            (snd (update_wrapping [Many []] (VtkModel_init 0)))) = None
   \<and> map (map a_input)
        (wrapping_actors
          (snd (new_wrapping_set
                  (Many [\<lparr>time_size = 1, points = [(1, 2, 3)], triangles = []\<rparr>]) 0
                  (snd (update_wrapping [Many []] (VtkModel_init 0))))))
      = [[PolyData [(0, 0, 0)] [] [] []]]"
proof -
  have u: "update_wrapping [Many []] (VtkModel_init 0)
           = (None, (VtkModel_init 0)\<lparr>all_wrappings := [[]], wrapping_actors := [[]]\<rparr>)"
    by (simp add: update_wrapping_def update_wrapping_seg.simps(2) VtkModel_init_def
        enumerate_eq_zip)
  show ?thesis
    unfolding u
    by (simp add: new_wrapping_set.simps(2) new_wrapping_actor_def add_wrapping_actor_def
        vtkActor_def ren_AddActor_def ren_ResetCamera_def channel_size_def Let_def)
qed

text \<open>
  C8, amended.  For every category but the wrappings, a rebuild that returns has
  ended with the update pass on the frame it was given.  Each new actor of a
  point category is the sphere of the configured radius at its channel's point,
  in the configured colour and opacity; each new mesh, muscle and system of axes
  holds the points of its item (for a system of axes: the origin and the three
  axis tips, computed in float64).  The trace of the rebuild is: the old actors
  removed, the new ones added with a camera reset each, then the pass, one call
  on the geometry of each new actor.  The rebuild of the wrappings of a segment
  makes no pass: when it returns, every new actor holds one placeholder point
  (0, 0, 0) for each vertex, and its trace ends with the last actor added.
\<close>

theorem rebuild_ends_with_frame_geometry:
  "(fst (new_marker_set mk m) = None \<longrightarrow>
      markers_actors (snd (new_marker_set mk m)) =
        map (\<lambda>j. \<lparr>aid = next_actor m + j,
                   a_input = SphereSource (points mk ! j) (markers_size m),
                   a_color = markers_color m, a_opacity = markers_opacity m,
                   a_line_width = 1\<rparr>) [0..<channel_size mk]
      \<and> vtk_calls (snd (new_marker_set mk m)) =
          vtk_calls m @ map (\<lambda>a. RemoveActor (aid a)) (markers_actors m)
          @ created_calls (next_actor m) (channel_size mk)
          @ map (\<lambda>j. SetInputConnection (next_actor m + j)) [0..<channel_size mk])
   \<and> (fst (new_contact_set mk m) = None \<longrightarrow>
      contacts_actors (snd (new_contact_set mk m)) =
        map (\<lambda>j. \<lparr>aid = next_actor m + j,
                   a_input = SphereSource (points mk ! j) (contacts_size m),
                   a_color = contacts_color m, a_opacity = contacts_opacity m,
                   a_line_width = 1\<rparr>) [0..<channel_size mk]
      \<and> vtk_calls (snd (new_contact_set mk m)) =
          vtk_calls m @ map (\<lambda>a. RemoveActor (aid a)) (contacts_actors m)
          @ created_calls (next_actor m) (channel_size mk)
          @ map (\<lambda>j. SetInputConnection (next_actor m + j)) [0..<channel_size mk])
   \<and> (fst (new_global_center_of_mass_set mk m) = None \<longrightarrow>
      global_center_of_mass_actors (snd (new_global_center_of_mass_set mk m)) =
        map (\<lambda>j. \<lparr>aid = next_actor m + j,
                   a_input = SphereSource (points mk ! j) (global_center_of_mass_size m),
                   a_color = global_center_of_mass_color m, a_opacity = global_center_of_mass_opacity m,
                   a_line_width = 1\<rparr>) [0..<channel_size mk]
      \<and> vtk_calls (snd (new_global_center_of_mass_set mk m)) =
          vtk_calls m @ map (\<lambda>a. RemoveActor (aid a)) (global_center_of_mass_actors m)
          @ created_calls (next_actor m) (channel_size mk)
          @ map (\<lambda>j. SetInputConnection (next_actor m + j)) [0..<channel_size mk])
   \<and> (fst (new_segments_center_of_mass_set mk m) = None \<longrightarrow>
      segments_center_of_mass_actors (snd (new_segments_center_of_mass_set mk m)) =
        map (\<lambda>j. \<lparr>aid = next_actor m + j,
                   a_input = SphereSource (points mk ! j) (segments_center_of_mass_size m),
                   a_color = segments_center_of_mass_color m, a_opacity = segments_center_of_mass_opacity m,
                   a_line_width = 1\<rparr>) [0..<channel_size mk]
      \<and> vtk_calls (snd (new_segments_center_of_mass_set mk m)) =
          vtk_calls m @ map (\<lambda>a. RemoveActor (aid a)) (segments_center_of_mass_actors m)
          @ created_calls (next_actor m) (channel_size mk)
          @ map (\<lambda>j. SetInputConnection (next_actor m + j)) [0..<channel_size mk])
   \<and> (fst (new_mesh_set (Many ms) m) = None \<longrightarrow>
      map a_input (mesh_actors (snd (new_mesh_set (Many ms) m))) = map mesh_geom ms
      \<and> vtk_calls (snd (new_mesh_set (Many ms) m)) =
          vtk_calls m @ map (\<lambda>a. RemoveActor (aid a)) (mesh_actors m)
          @ created_calls (next_actor m) (length ms)
          @ map (\<lambda>j. SetPoints (next_actor m + j)) [0..<length ms])
   \<and> (fst (new_muscle_set (Many ms) m) = None \<longrightarrow>
      map a_input (muscle_actors (snd (new_muscle_set (Many ms) m)))
        = map (\<lambda>mesh. PolyData (points mesh) (outline_cells mesh) [] []) ms
      \<and> vtk_calls (snd (new_muscle_set (Many ms) m)) =
          vtk_calls m @ map (\<lambda>a. RemoveActor (aid a)) (muscle_actors m)
          @ created_calls (next_actor m) (length ms)
          @ map (\<lambda>j. SetPoints (next_actor m + j)) [0..<length ms])
   \<and> (fst (new_rt_set (Many rts) m) = None \<longrightarrow>
      map a_input (rt_actors (snd (new_rt_set (Many rts) m)))
        = map (\<lambda>rt. PolyData
                 [translation rt,
                  vadd (translation rt) (vscale (col0 rt) (rt_length m)),
                  vadd (translation rt) (vscale (col1 rt) (rt_length m)),
                  vadd (translation rt) (vscale (col2 rt) (rt_length m))]
                 axes_lines [] axes_colors) rts
      \<and> vtk_calls (snd (new_rt_set (Many rts) m)) =
          vtk_calls m @ map (\<lambda>a. RemoveActor (aid a)) (rt_actors m)
          @ created_calls (next_actor m) (length rts)
          @ map (\<lambda>j. SetPoints (next_actor m + j)) [0..<length rts])
   \<and> (fst (new_wrapping_set (Many ws) seg m) = None \<longrightarrow>
      map a_input (wrapping_actors (snd (new_wrapping_set (Many ws) seg m)) ! seg)
        = map (\<lambda>w. PolyData (replicate (channel_size w) (0, 0, 0)) (outline_cells w) [] []) ws
      \<and> vtk_calls (snd (new_wrapping_set (Many ws) seg m)) =
          vtk_calls m @ map (\<lambda>a. RemoveActor (aid a)) (wrapping_actors m ! seg)
          @ created_calls (next_actor m) (length ws))"
proof (intro conjI impI)
  assume r: "fst (new_marker_set mk m) = None"
  from new_marker_set_post(1) [OF r]
  show "markers_actors (snd (new_marker_set mk m)) =
        map (\<lambda>j. \<lparr>aid = next_actor m + j,
                   a_input = SphereSource (points mk ! j) (markers_size m),
                   a_color = markers_color m, a_opacity = markers_opacity m,
                   a_line_width = 1\<rparr>) [0..<channel_size mk]" .
  from new_marker_set_post(2) [OF r]
  show "vtk_calls (snd (new_marker_set mk m)) =
          vtk_calls m @ map (\<lambda>a. RemoveActor (aid a)) (markers_actors m)
          @ created_calls (next_actor m) (channel_size mk)
          @ map (\<lambda>j. SetInputConnection (next_actor m + j)) [0..<channel_size mk]" .
next
  assume r: "fst (new_contact_set mk m) = None"
  from new_contact_set_post(1) [OF r]
  show "contacts_actors (snd (new_contact_set mk m)) =
        map (\<lambda>j. \<lparr>aid = next_actor m + j,
                   a_input = SphereSource (points mk ! j) (contacts_size m),
                   a_color = contacts_color m, a_opacity = contacts_opacity m,
                   a_line_width = 1\<rparr>) [0..<channel_size mk]" .
  from new_contact_set_post(2) [OF r]
  show "vtk_calls (snd (new_contact_set mk m)) =
          vtk_calls m @ map (\<lambda>a. RemoveActor (aid a)) (contacts_actors m)
          @ created_calls (next_actor m) (channel_size mk)
          @ map (\<lambda>j. SetInputConnection (next_actor m + j)) [0..<channel_size mk]" .
next
  assume r: "fst (new_global_center_of_mass_set mk m) = None"
  from new_global_center_of_mass_set_post(1) [OF r]
  show "global_center_of_mass_actors (snd (new_global_center_of_mass_set mk m)) =
        map (\<lambda>j. \<lparr>aid = next_actor m + j,
                   a_input = SphereSource (points mk ! j) (global_center_of_mass_size m),
                   a_color = global_center_of_mass_color m, a_opacity = global_center_of_mass_opacity m,
                   a_line_width = 1\<rparr>) [0..<channel_size mk]" .
  from new_global_center_of_mass_set_post(2) [OF r]
  show "vtk_calls (snd (new_global_center_of_mass_set mk m)) =
          vtk_calls m @ map (\<lambda>a. RemoveActor (aid a)) (global_center_of_mass_actors m)
          @ created_calls (next_actor m) (channel_size mk)
          @ map (\<lambda>j. SetInputConnection (next_actor m + j)) [0..<channel_size mk]" .
next
  assume r: "fst (new_segments_center_of_mass_set mk m) = None"
  from new_segments_center_of_mass_set_post(1) [OF r]
  show "segments_center_of_mass_actors (snd (new_segments_center_of_mass_set mk m)) =
        map (\<lambda>j. \<lparr>aid = next_actor m + j,
                   a_input = SphereSource (points mk ! j) (segments_center_of_mass_size m),
                   a_color = segments_center_of_mass_color m, a_opacity = segments_center_of_mass_opacity m,
                   a_line_width = 1\<rparr>) [0..<channel_size mk]" .
  from new_segments_center_of_mass_set_post(2) [OF r]
  show "vtk_calls (snd (new_segments_center_of_mass_set mk m)) =
          vtk_calls m @ map (\<lambda>a. RemoveActor (aid a)) (segments_center_of_mass_actors m)
          @ created_calls (next_actor m) (channel_size mk)
          @ map (\<lambda>j. SetInputConnection (next_actor m + j)) [0..<channel_size mk]" .
next
  assume "fst (new_mesh_set (Many ms) m) = None"
  then have ok: "list_all mesh_ok ms" by (rule new_mesh_set_returns)
  from new_mesh_set_exact [OF ok, of m]
  show "map a_input (mesh_actors (snd (new_mesh_set (Many ms) m))) = map mesh_geom ms"
    by (simp add: meshes_created_def) (intro nth_equalityI, simp_all add: mesh_actor_built_def)
  from new_mesh_set_exact [OF ok, of m]
  show "vtk_calls (snd (new_mesh_set (Many ms) m)) =
          vtk_calls m @ map (\<lambda>a. RemoveActor (aid a)) (mesh_actors m)
          @ created_calls (next_actor m) (length ms)
          @ map (\<lambda>j. SetPoints (next_actor m + j)) [0..<length ms]"
    by (simp add: meshes_created_def)
next
  assume "fst (new_muscle_set (Many ms) m) = None"
  then have ok: "list_all muscle_ok ms" by (rule new_muscle_set_returns)
  from new_muscle_set_exact [OF ok, of m]
  show "map a_input (muscle_actors (snd (new_muscle_set (Many ms) m)))
        = map (\<lambda>mesh. PolyData (points mesh) (outline_cells mesh) [] []) ms"
    by (simp add: muscles_created_def)
       (intro nth_equalityI,
        simp_all add: moved_actors_def moved_actor_def muscle_actor_built_def muscle_geom_def)
  from new_muscle_set_exact [OF ok, of m]
  show "vtk_calls (snd (new_muscle_set (Many ms) m)) =
          vtk_calls m @ map (\<lambda>a. RemoveActor (aid a)) (muscle_actors m)
          @ created_calls (next_actor m) (length ms)
          @ map (\<lambda>j. SetPoints (next_actor m + j)) [0..<length ms]"
    by (simp add: muscles_created_def)
next
  assume "fst (new_rt_set (Many rts) m) = None"
  then have ok: "list_all rt_ok rts" by (rule new_rt_set_returns)
  from new_rt_set_exact [OF ok, of m]
  show "map a_input (rt_actors (snd (new_rt_set (Many rts) m)))
        = map (\<lambda>rt. PolyData
                 [translation rt,
                  vadd (translation rt) (vscale (col0 rt) (rt_length m)),
                  vadd (translation rt) (vscale (col1 rt) (rt_length m)),
                  vadd (translation rt) (vscale (col2 rt) (rt_length m))]
                 axes_lines [] axes_colors) rts"
    by (simp add: rts_created_def)
       (intro nth_equalityI,
        simp_all add: moved_rt_actors_def moved_actor_def rt_actor_built_def rt_points_def)
  from new_rt_set_exact [OF ok, of m]
  show "vtk_calls (snd (new_rt_set (Many rts) m)) =
          vtk_calls m @ map (\<lambda>a. RemoveActor (aid a)) (rt_actors m)
          @ created_calls (next_actor m) (length rts)
          @ map (\<lambda>j. SetPoints (next_actor m + j)) [0..<length rts]"
    by (simp add: rts_created_def)
next
  assume r: "fst (new_wrapping_set (Many ws) seg m) = None"
  note ok = new_wrapping_set_returns [OF r]
  from new_wrapping_set_exact [OF ok] ok(2)
  show "map a_input (wrapping_actors (snd (new_wrapping_set (Many ws) seg m)) ! seg)
        = map (\<lambda>w. PolyData (replicate (channel_size w) (0, 0, 0)) (outline_cells w) [] []) ws"
    by (simp, intro nth_equalityI, simp_all add: wrapping_actor_built_def fresh_actor_def)
  from new_wrapping_set_exact [OF ok]
  show "vtk_calls (snd (new_wrapping_set (Many ws) seg m)) =
          vtk_calls m @ map (\<lambda>a. RemoveActor (aid a)) (wrapping_actors m ! seg)
          @ created_calls (next_actor m) (length ws)"
    by simp
qed

theorem rebuild_ends_with_frame_geometry_witness:
  "map a_input (muscle_actors (snd (new_muscle_set
      (Many [\<lparr>time_size = 1, points = [(1, 2, 3), (4, 5, 6)], triangles = []\<rparr>,
             \<lparr>time_size = 1, points = [(7, 8, 9)], triangles = []\<rparr>])
      (VtkModel_init 0))))
   = [PolyData [(1, 2, 3), (4, 5, 6)] [] [] [], PolyData [(7, 8, 9)] [] [] []]
   \<and> vtk_calls (snd (new_muscle_set
      (Many [\<lparr>time_size = 1, points = [(1, 2, 3), (4, 5, 6)], triangles = []\<rparr>,
             \<lparr>time_size = 1, points = [(7, 8, 9)], triangles = []\<rparr>])
      (VtkModel_init 0)))
   = [AddActor 0, ResetCamera, AddActor 1, ResetCamera, SetPoints 0, SetPoints 1]"
proof -
  let ?ms = "[\<lparr>time_size = 1, points = [(1, 2, 3), (4, 5, 6) :: vec3], triangles = []\<rparr>,
             \<lparr>time_size = 1, points = [(7, 8, 9)], triangles = []\<rparr>]"
  have "list_all muscle_ok ?ms" by (simp add: muscle_ok_def)
  from new_muscle_set_exact [OF this, of "VtkModel_init 0"]
  have "fst (new_muscle_set (Many ?ms) (VtkModel_init 0)) = None" by simp
  with rebuild_ends_with_frame_geometry [of _ "VtkModel_init 0" ?ms]
  have "map a_input (muscle_actors (snd (new_muscle_set (Many ?ms) (VtkModel_init 0))))
        = map (\<lambda>mesh. PolyData (points mesh) (outline_cells mesh) [] []) ?ms"
    and "vtk_calls (snd (new_muscle_set (Many ?ms) (VtkModel_init 0))) =
          vtk_calls (VtkModel_init 0)
          @ map (\<lambda>a. RemoveActor (aid a)) (muscle_actors (VtkModel_init 0))
          @ created_calls (next_actor (VtkModel_init 0)) (length ?ms)
          @ map (\<lambda>j. SetPoints (next_actor (VtkModel_init 0) + j)) [0..<length ?ms]"
    by blast+
  then show ?thesis
    by (simp add: outline_cells_def VtkModel_init_def created_calls_def upt_conv_Cons)
qed

subsection \<open>The colour of the meshes\<close>

lemma for_each_invariant:
  assumes "I s" and "\<And>x s. I s \<Longrightarrow> I (snd (body x s))"
  shows "I (snd (for_each body xs s))"
  using assms(1)
proof (induction xs arbitrary: s)
  case Nil
  then show ?case by simp
next
  case (Cons x xs)
  obtain r s' where b: "body x s = (r, s')" by (cases "body x s")
  from assms(2) [OF Cons.prems, of x] b have i': "I s'" by simp
  show ?case
  proof (cases r)
    case None
    with b Cons.IH [OF i'] show ?thesis by simp
  next
    case (Some e)
    with b i' show ?thesis by simp
  qed
qed

lemma new_mesh_actor_black:
  "mesh_color s = (0, 0, 0) \<Longrightarrow> mesh_color (snd (new_mesh_actor mesh s)) = (0, 0, 0)"
proof (cases "mesh_ok mesh")
  case True
  assume "mesh_color s = (0, 0, 0)"
  with new_mesh_actor_step [OF True, of s] show ?thesis
    by (simp add: mesh_color_after_def)
next
  case False
  assume "mesh_color s = (0, 0, 0)"
  with False show ?thesis by (simp add: new_mesh_actor_stop)
qed

lemma new_mesh_actors_black:
  "mesh_color s = (0, 0, 0) \<Longrightarrow>
   mesh_color (snd (for_each new_mesh_actor ms s)) = (0, 0, 0)"
  by (rule for_each_invariant [where I = "\<lambda>s. mesh_color s = (0, 0, 0)"])
     (simp_all add: new_mesh_actor_black)

lemma new_mesh_actors_outline:
  assumes "i < length ms" and "list_all mesh_ok (take (Suc i) ms)"
    and "outline_branch (ms ! i)"
  shows "mesh_color (snd (for_each new_mesh_actor ms s)) = (0, 0, 0)"
  using assms
proof (induction ms arbitrary: i s)
  case Nil
  then show ?case by simp
next
  case (Cons x xs)
  from Cons.prems(2) have ok: "mesh_ok x" by simp
  note step = new_mesh_actor_step [OF ok, of s]
  show ?case
  proof (cases i)
    case 0
    with Cons.prems(3) have "outline_branch x" by simp
    then have "mesh_color (snd (new_mesh_actor x s)) = (0, 0, 0)"
      by (simp add: step mesh_color_after_def)
    from new_mesh_actors_black [OF this, of xs] show ?thesis
      by (simp add: step)
  next
    case (Suc j)
    with Cons.prems have "j < length xs" "list_all mesh_ok (take (Suc j) xs)"
      "outline_branch (xs ! j)"
      by simp_all
    from Cons.IH [OF this] show ?thesis by (simp add: step)
  qed
qed

lemma update_mesh_same_color:
  assumes "scan_meshes (all_meshes m) 0 ms \<noteq> ScanRebuild"
  shows "mesh_color (snd (update_mesh (Many ms) m)) = mesh_color m"
proof (cases "scan_meshes (all_meshes m) 0 ms")
  case ScanRaise
  then show ?thesis by (simp add: update_mesh_raise)
next
  case ScanRebuild
  with assms show ?thesis by simp
next
  case ScanDone
  have "mesh_color (snd (for_each update_mesh_actor [0..<length ms]
          (m\<lparr>all_meshes := ms\<rparr>))) = mesh_color (m\<lparr>all_meshes := ms\<rparr>)"
    by (rule for_each_preserves) (simp add: update_mesh_actor_def Let_def)
  with update_mesh_pass [OF ScanDone] show ?thesis by simp
qed

lemma new_mesh_set_color:
  "mesh_color (snd (new_mesh_set (Many ms) m))
   = mesh_color (snd (for_each new_mesh_actor ms
       ((fold ren_RemoveActor (mesh_actors m) (m\<lparr>all_meshes := ms\<rparr>))
          \<lparr>mesh_actors := []\<rparr>)))"
proof -
  let ?m3 = "(fold ren_RemoveActor (mesh_actors m) (m\<lparr>all_meshes := ms\<rparr>))
                \<lparr>mesh_actors := []\<rparr>"
  obtain r m4 where l: "for_each new_mesh_actor ms ?m3 = (r, m4)"
    by (cases "for_each new_mesh_actor ms ?m3")
  show ?thesis
  proof (cases r)
    case (Some e)
    with l show ?thesis by (simp add: new_mesh_set_unfold)
  next
    case None
    have "mesh_color (snd (update_mesh (Many (all_meshes m4)) m4)) = mesh_color m4"
      by (rule update_mesh_same_color) (simp add: scan_meshes_same)
    with None l show ?thesis by (simp add: new_mesh_set_unfold)
  qed
qed

lemma mesh_calls_black:
  assumes "mesh_color m = (0, 0, 0)"
  shows "mesh_color (snd (new_mesh_set arg m)) = (0, 0, 0)"
    and "mesh_color (snd (update_mesh arg m)) = (0, 0, 0)"
    and "mesh_color (snd (set_mesh_opacity x m)) = (0, 0, 0)"
proof -
  have n: "mesh_color (snd (new_mesh_set (Many ms) s)) = (0, 0, 0)"
    if "mesh_color s = (0, 0, 0)" for ms s
    unfolding new_mesh_set_color
    by (rule new_mesh_actors_black) (simp add: fold_ren_RemoveActor that)
  have u: "mesh_color (snd (update_mesh (Many ms) s)) = (0, 0, 0)"
    if "mesh_color s = (0, 0, 0)" for ms s
  proof (cases "scan_meshes (all_meshes s) 0 ms = ScanRebuild")
    case True
    with n [OF that] show ?thesis by (simp add: update_mesh_rebuild)
  next
    case False
    with that show ?thesis by (simp add: update_mesh_same_color)
  qed
  from assms n show "mesh_color (snd (new_mesh_set arg m)) = (0, 0, 0)"
    by (cases arg) simp_all
  from assms u show "mesh_color (snd (update_mesh arg m)) = (0, 0, 0)"
    by (cases arg) simp_all
  from assms u [of "m\<lparr>mesh_opacity := x\<rparr>" "all_meshes m"]
  show "mesh_color (snd (set_mesh_opacity x m)) = (0, 0, 0)"
    by (simp add: set_mesh_opacity_def)
qed

lemma mesh_color_mask:
  "k \<noteq> CMesh \<Longrightarrow> mesh_color (mask_of k s) = mesh_color s"
  by (cases k) (simp_all add: mask_defs)

lemma mesh_color_run_black:
  assumes "mesh_color m = (0, 0, 0)" and "\<not> is_set_mesh_color c"
  shows "mesh_color (snd (run c m)) = (0, 0, 0)"
proof (cases "category_of c = CMesh")
  case True
  with assms show ?thesis by (cases c) (simp_all add: mesh_calls_black)
next
  case False
  have "mesh_color (snd (run c m)) = mesh_color m"
    by (rule run_keeps) (simp add: mesh_color_mask False)
  with assms show ?thesis by simp
qed

lemma mesh_color_runs_black:
  "mesh_color m = (0, 0, 0) \<Longrightarrow> list_all (\<lambda>c. \<not> is_set_mesh_color c) cs \<Longrightarrow>
   mesh_color (runs cs m) = (0, 0, 0)"
  unfolding runs_def
  by (induction cs arbitrary: m) (simp_all add: mesh_color_run_black)

text \<open>
  C10.  When the rebuild of the meshes reaches a mesh for which it takes the
  outline branch (every mesh up to and including it is accepted), the stored
  mesh colour is black when the rebuild ends, whatever it was.  From a model
  whose mesh colour is black, every sequence of calls without
  \<^verbatim>\<open>set_mesh_color\<close> leaves it black, and every rebuild that returns makes one
  actor for each mesh of its list and gives each of them the colour black,
  whichever branch built it.
\<close>

theorem outline_branch_blackens_mesh_color:
  "(i < length ms \<and> list_all mesh_ok (take (Suc i) ms) \<and> outline_branch (ms ! i) \<longrightarrow>
      mesh_color (snd (new_mesh_set (Many ms) m)) = (0, 0, 0))
   \<and> (mesh_color m = (0, 0, 0) \<and> list_all (\<lambda>c. \<not> is_set_mesh_color c) cs \<longrightarrow>
      mesh_color (runs cs m) = (0, 0, 0))
   \<and> (mesh_color m = (0, 0, 0) \<and> fst (new_mesh_set (Many ms) m) = None \<longrightarrow>
      map a_color (mesh_actors (snd (new_mesh_set (Many ms) m)))
        = replicate (length ms) (0, 0, 0))"
proof (intro conjI impI)
  assume "i < length ms \<and> list_all mesh_ok (take (Suc i) ms) \<and> outline_branch (ms ! i)"
  then show "mesh_color (snd (new_mesh_set (Many ms) m)) = (0, 0, 0)"
    unfolding new_mesh_set_color by (intro new_mesh_actors_outline [of i]) simp_all
next
  assume "mesh_color m = (0, 0, 0) \<and> list_all (\<lambda>c. \<not> is_set_mesh_color c) cs"
  then show "mesh_color (runs cs m) = (0, 0, 0)"
    by (simp add: mesh_color_runs_black)
next
  assume a: "mesh_color m = (0, 0, 0) \<and> fst (new_mesh_set (Many ms) m) = None"
  then have "fst (new_mesh_set (Many ms) m) = None" by simp
  then have "list_all mesh_ok ms" by (rule new_mesh_set_returns)
  from new_mesh_set_exact [OF this, of m] a
  show "map a_color (mesh_actors (snd (new_mesh_set (Many ms) m)))
        = replicate (length ms) (0, 0, 0)"
    by (intro nth_equalityI)
       (simp_all add: meshes_created_def mesh_actor_built_def mesh_color_after_def)
qed

theorem outline_branch_blackens_mesh_color_witness:
  "mesh_color (VtkModel_init 0) = (0.89, 0.855, 0.788)
   \<and> mesh_color (snd (new_mesh_set
        (Many [\<lparr>time_size = 1, points = [(0, 0, 0), (1, 0, 0), (0, 1, 0)],
                triangles = [[0, 1, 2]]\<rparr>]) (VtkModel_init 0))) = (0, 0, 0)
   \<and> map a_color (mesh_actors (snd (new_mesh_set
        (Many [\<lparr>time_size = 1, points = [(0, 0, 0)], triangles = [[]]\<rparr>,
               \<lparr>time_size = 1, points = [(1, 0, 0), (0, 1, 0)], triangles = [[]]\<rparr>])
        (runs [Set_mesh_opacity 1, Update_markers \<lparr>time_size = 1, points = []\<rparr>]
           (snd (new_mesh_set
              (Many [\<lparr>time_size = 1, points = [(0, 0, 0), (1, 0, 0), (0, 1, 0)],
                      triangles = [[0, 1, 2]]\<rparr>]) (VtkModel_init 0)))))))
     = [(0, 0, 0), (0, 0, 0)]
   \<and> \<not> outline_branch \<lparr>time_size = 1, points = [(0, 0, 0)], triangles = [[]]\<rparr>"
proof -
  let ?ms = "[\<lparr>time_size = 1, points = [(0, 0, 0), (1, 0, 0), (0, 1, 0) :: vec3],
               triangles = [[0, 1, 2]]\<rparr>]"
  let ?later = "[\<lparr>time_size = 1, points = [(0, 0, 0) :: vec3], triangles = [[]]\<rparr>,
               \<lparr>time_size = 1, points = [(1, 0, 0), (0, 1, 0)], triangles = [[]]\<rparr>]"
  let ?cs = "[Set_mesh_opacity 1, Update_markers \<lparr>time_size = 1, points = []\<rparr>]"
  define m1 where "m1 = snd (new_mesh_set (Many ?ms) (VtkModel_init 0))"
  define m2 where "m2 = runs ?cs m1"
  have h: "0 < length ?ms \<and> list_all mesh_ok (take (Suc 0) ?ms) \<and> outline_branch (?ms ! 0)"
    by (simp add: mesh_ok_def outline_branch_def np_unique_def closed_polyline_3
        del: closed_polyline.simps)
  from outline_branch_blackens_mesh_color [of 0 ?ms "VtkModel_init 0"] h
  have b: "mesh_color m1 = (0, 0, 0)"
    unfolding m1_def by blast
  have "list_all (\<lambda>c. \<not> is_set_mesh_color c) ?cs" by simp
  with outline_branch_blackens_mesh_color [of _ _ m1 ?cs] b
  have b2: "mesh_color m2 = (0, 0, 0)"
    unfolding m2_def by blast
  have surf: "\<not> outline_branch \<lparr>time_size = 1, points = [(0, 0, 0) :: vec3], triangles = [[]]\<rparr>"
    by (simp add: outline_branch_def np_unique_def)
  have "list_all mesh_ok ?later"
    by (simp add: mesh_ok_def outline_branch_def np_unique_def)
  from new_mesh_set_exact [OF this, of m2]
  have r: "fst (new_mesh_set (Many ?later) m2) = None" by simp
  from outline_branch_blackens_mesh_color [of _ ?later m2] b2 r
  have "map a_color (mesh_actors (snd (new_mesh_set (Many ?later) m2)))
        = replicate (length ?later) (0, 0, 0)"
    by blast
  then have c: "map a_color (mesh_actors (snd (new_mesh_set (Many ?later) m2)))
        = [(0, 0, 0), (0, 0, 0)]"
    by (simp add: numeral_2_eq_2)
  have i: "mesh_color (VtkModel_init 0) = (0.89, 0.855, 0.788)"
    by (simp add: VtkModel_init_def)
  from i b c surf show ?thesis unfolding m2_def m1_def by (simp only: simp_thms)
qed

subsection \<open>The same frame twice\<close>

text \<open>
  C9.  A payload on the fast path of its category (one time sample, the channel
  count of the stored frame; for meshes and muscles item by item; for systems of
  axes the stored number of transforms; for wrappings segment by segment, with
  an actor for each wrapping), pushed a second time after a first push that
  returned, returns again and gives back the model of the first push: the only
  difference is the call trace, which the second pass has extended.
\<close>

theorem same_frame_twice:
  "(time_size mk = 1 \<and> channel_size mk = channel_size (markers m)
      \<and> fst (update_markers mk m) = None \<longrightarrow>
      update_markers mk (snd (update_markers mk m)) =
        (None,
         (snd (update_markers mk m))
           \<lparr>vtk_calls := vtk_calls (snd (update_markers mk m))
              @ map (\<lambda>a. SetInputConnection (aid a)) (markers_actors m)\<rparr>))
   \<and> (time_size mk = 1 \<and> channel_size mk = channel_size (contacts m)
      \<and> fst (update_contacts mk m) = None \<longrightarrow>
      update_contacts mk (snd (update_contacts mk m)) =
        (None,
         (snd (update_contacts mk m))
           \<lparr>vtk_calls := vtk_calls (snd (update_contacts mk m))
              @ map (\<lambda>a. SetInputConnection (aid a)) (contacts_actors m)\<rparr>))
   \<and> (time_size mk = 1 \<and> channel_size mk = channel_size (global_center_of_mass m)
      \<and> fst (update_global_center_of_mass mk m) = None \<longrightarrow>
      update_global_center_of_mass mk (snd (update_global_center_of_mass mk m)) =
        (None,
         (snd (update_global_center_of_mass mk m))
           \<lparr>vtk_calls := vtk_calls (snd (update_global_center_of_mass mk m))
              @ map (\<lambda>a. SetInputConnection (aid a)) (global_center_of_mass_actors m)\<rparr>))
   \<and> (time_size mk = 1 \<and> channel_size mk = channel_size (segments_center_of_mass m)
      \<and> fst (update_segments_center_of_mass mk m) = None \<longrightarrow>
      update_segments_center_of_mass mk (snd (update_segments_center_of_mass mk m)) =
        (None,
         (snd (update_segments_center_of_mass mk m))
           \<lparr>vtk_calls := vtk_calls (snd (update_segments_center_of_mass mk m))
              @ map (\<lambda>a. SetInputConnection (aid a)) (segments_center_of_mass_actors m)\<rparr>))
   \<and> (scan_meshes (all_meshes m) 0 ms = ScanDone
      \<and> fst (update_mesh (Many ms) m) = None \<longrightarrow>
      update_mesh (Many ms) (snd (update_mesh (Many ms) m)) =
        (None,
         (snd (update_mesh (Many ms) m))
           \<lparr>vtk_calls := vtk_calls (snd (update_mesh (Many ms) m))
              @ map (\<lambda>a. SetPoints (aid a)) (take (length ms) (mesh_actors m))\<rparr>))
   \<and> (scan_meshes (all_muscles m) 0 ms = ScanDone
      \<and> fst (update_muscle (Many ms) m) = None \<longrightarrow>
      update_muscle (Many ms) (snd (update_muscle (Many ms) m)) =
        (None,
         (snd (update_muscle (Many ms) m))
           \<lparr>vtk_calls := vtk_calls (snd (update_muscle (Many ms) m))
              @ map (\<lambda>a. SetPoints (aid a)) (take (length ms) (muscle_actors m))\<rparr>))
   \<and> (length rts = n_rt m \<and> fst (update_rt (Many rts) m) = None \<longrightarrow>
      update_rt (Many rts) (snd (update_rt (Many rts) m)) =
        (None,
         (snd (update_rt (Many rts) m))
           \<lparr>vtk_calls := vtk_calls (snd (update_rt (Many rts) m))
              @ map (\<lambda>a. SetPoints (aid a)) (take (length rts) (rt_actors m))\<rparr>))
   \<and> (wrapping_fast aw m \<longrightarrow>
      fst (update_wrapping (map Many aw) m) = None
      \<and> update_wrapping (map Many aw) (snd (update_wrapping (map Many aw) m)) =
        (None,
         (snd (update_wrapping (map Many aw) m))
           \<lparr>vtk_calls := vtk_calls (snd (update_wrapping (map Many aw) m))
              @ concat (map (\<lambda>j. map (\<lambda>a. SetPoints (aid a))
                                    (take (length (aw ! j)) (wrapping_actors m ! j)))
                         [0..<length aw])\<rparr>))"
proof (intro conjI impI)
  assume "time_size mk = 1 \<and> channel_size mk = channel_size (markers m)
      \<and> fst (update_markers mk m) = None"
  then show "update_markers mk (snd (update_markers mk m)) =
        (None,
         (snd (update_markers mk m))
           \<lparr>vtk_calls := vtk_calls (snd (update_markers mk m))
              @ map (\<lambda>a. SetInputConnection (aid a)) (markers_actors m)\<rparr>)"
    by (intro update_markers_twice) simp_all
next
  assume "time_size mk = 1 \<and> channel_size mk = channel_size (contacts m)
      \<and> fst (update_contacts mk m) = None"
  then show "update_contacts mk (snd (update_contacts mk m)) =
        (None,
         (snd (update_contacts mk m))
           \<lparr>vtk_calls := vtk_calls (snd (update_contacts mk m))
              @ map (\<lambda>a. SetInputConnection (aid a)) (contacts_actors m)\<rparr>)"
    by (intro update_contacts_twice) simp_all
next
  assume "time_size mk = 1 \<and> channel_size mk = channel_size (global_center_of_mass m)
      \<and> fst (update_global_center_of_mass mk m) = None"
  then show "update_global_center_of_mass mk (snd (update_global_center_of_mass mk m)) =
        (None,
         (snd (update_global_center_of_mass mk m))
           \<lparr>vtk_calls := vtk_calls (snd (update_global_center_of_mass mk m))
              @ map (\<lambda>a. SetInputConnection (aid a)) (global_center_of_mass_actors m)\<rparr>)"
    by (intro update_global_center_of_mass_twice) simp_all
next
  assume "time_size mk = 1 \<and> channel_size mk = channel_size (segments_center_of_mass m)
      \<and> fst (update_segments_center_of_mass mk m) = None"
  then show "update_segments_center_of_mass mk (snd (update_segments_center_of_mass mk m)) =
        (None,
         (snd (update_segments_center_of_mass mk m))
           \<lparr>vtk_calls := vtk_calls (snd (update_segments_center_of_mass mk m))
              @ map (\<lambda>a. SetInputConnection (aid a)) (segments_center_of_mass_actors m)\<rparr>)"
    by (intro update_segments_center_of_mass_twice) simp_all
next
  assume "scan_meshes (all_meshes m) 0 ms = ScanDone
      \<and> fst (update_mesh (Many ms) m) = None"
  then show "update_mesh (Many ms) (snd (update_mesh (Many ms) m)) =
        (None,
         (snd (update_mesh (Many ms) m))
           \<lparr>vtk_calls := vtk_calls (snd (update_mesh (Many ms) m))
              @ map (\<lambda>a. SetPoints (aid a)) (take (length ms) (mesh_actors m))\<rparr>)"
    by (intro update_mesh_twice) simp_all
next
  assume "scan_meshes (all_muscles m) 0 ms = ScanDone
      \<and> fst (update_muscle (Many ms) m) = None"
  then show "update_muscle (Many ms) (snd (update_muscle (Many ms) m)) =
        (None,
         (snd (update_muscle (Many ms) m))
           \<lparr>vtk_calls := vtk_calls (snd (update_muscle (Many ms) m))
              @ map (\<lambda>a. SetPoints (aid a)) (take (length ms) (muscle_actors m))\<rparr>)"
    by (intro update_muscle_twice) simp_all
next
  assume "length rts = n_rt m \<and> fst (update_rt (Many rts) m) = None"
  then show "update_rt (Many rts) (snd (update_rt (Many rts) m)) =
        (None,
         (snd (update_rt (Many rts) m))
           \<lparr>vtk_calls := vtk_calls (snd (update_rt (Many rts) m))
              @ map (\<lambda>a. SetPoints (aid a)) (take (length rts) (rt_actors m))\<rparr>)"
    by (intro update_rt_twice) simp_all
next
  assume w: "wrapping_fast aw m"
  then show "fst (update_wrapping (map Many aw) m) = None" by (rule update_wrapping_twice)
  from w show "update_wrapping (map Many aw) (snd (update_wrapping (map Many aw) m)) =
        (None,
         (snd (update_wrapping (map Many aw) m))
           \<lparr>vtk_calls := vtk_calls (snd (update_wrapping (map Many aw) m))
              @ concat (map (\<lambda>j. map (\<lambda>a. SetPoints (aid a))
                                    (take (length (aw ! j)) (wrapping_actors m ! j)))
                         [0..<length aw])\<rparr>)"
    by (rule update_wrapping_twice)
qed

theorem same_frame_twice_witness:
  "fst (update_markers \<lparr>time_size = 1, points = [(0, 0, 0), (1, 1, 1)]\<rparr>
          (snd (update_markers \<lparr>time_size = 1, points = [(0, 0, 0), (1, 1, 1)]\<rparr>
             (snd (new_marker_set \<lparr>time_size = 1, points = [(0, 0, 0), (1, 1, 1)]\<rparr>
                (VtkModel_init 0)))))) = None
   \<and> markers_actors
       (snd (update_markers \<lparr>time_size = 1, points = [(0, 0, 0), (1, 1, 1)]\<rparr>
          (snd (update_markers \<lparr>time_size = 1, points = [(0, 0, 0), (1, 1, 1)]\<rparr>
             (snd (new_marker_set \<lparr>time_size = 1, points = [(0, 0, 0), (1, 1, 1)]\<rparr>
                (VtkModel_init 0)))))))
     = markers_actors
         (snd (update_markers \<lparr>time_size = 1, points = [(0, 0, 0), (1, 1, 1)]\<rparr>
            (snd (new_marker_set \<lparr>time_size = 1, points = [(0, 0, 0), (1, 1, 1)]\<rparr>
               (VtkModel_init 0)))))"
proof -
  let ?mk = "\<lparr>time_size = 1, points = [(0, 0, 0), (1, 1, 1) :: vec3]\<rparr>"
  define m where "m = snd (new_marker_set ?mk (VtkModel_init 0))"
  have t: "time_size ?mk = 1" by simp
  from new_marker_set_exact [OF t t, of "VtkModel_init 0"]
  have r: "fst (new_marker_set ?mk (VtkModel_init 0)) = None" by simp
  from new_marker_set_post [OF r]
  have c: "channel_size ?mk = channel_size (markers m)"
    and l: "length (markers_actors m) \<le> channel_size ?mk"
    by (simp_all add: m_def)
  from update_markers_fast [OF t c l] have u: "fst (update_markers ?mk m) = None" by simp
  from same_frame_twice [of ?mk m] t c u
  have "update_markers ?mk (snd (update_markers ?mk m)) =
        (None,
         (snd (update_markers ?mk m))
           \<lparr>vtk_calls := vtk_calls (snd (update_markers ?mk m))
              @ map (\<lambda>a. SetInputConnection (aid a)) (markers_actors m)\<rparr>)"
    by blast
  then show ?thesis unfolding m_def by simp
qed

subsection \<open>Three slips of the code\<close>

text \<open>
  C5.  A style setter stores the value and calls the category's update, which
  succeeds.  Not so for \<^verbatim>\<open>set_muscle_color\<close>: whatever the model and the colour,
  the call ends in AttributeError (the colour is stored, no update runs).
\<close>

theorem set_muscle_color_raises:
  "set_muscle_color c m = (Some AttributeError, m\<lparr>muscle_color := c\<rparr>)
   \<and> muscle_actors (snd (set_muscle_color c m)) = muscle_actors m
   \<and> vtk_calls (snd (set_muscle_color c m)) = vtk_calls m"
  by (simp add: set_muscle_color_def)

text \<open>
  C4.  Update and rebuild raise exactly for a payload of more than one time
  sample.  Not so for the global centre of mass: on a new model, a payload of
  one time sample and two channels raises IndexError, in the rebuild and in the
  update that calls it, and leaves the model as it was.
\<close>

theorem global_center_of_mass_one_sample_raises:
  "time_size \<lparr>time_size = 1, points = [(0, 0, 0), (1, 1, 1)]\<rparr> = 1
   \<and> new_global_center_of_mass_set \<lparr>time_size = 1, points = [(0, 0, 0), (1, 1, 1)]\<rparr>
         (VtkModel_init t0) = (Some IndexError, VtkModel_init t0)
   \<and> update_global_center_of_mass \<lparr>time_size = 1, points = [(0, 0, 0), (1, 1, 1)]\<rparr>
         (VtkModel_init t0) = (Some IndexError, VtkModel_init t0)"
  by (simp add: update_global_center_of_mass_rebuild new_global_center_of_mass_set_unfold
      channel_size_def VtkModel_init_def Markers_empty_def)

text \<open>
  The test of \<^verbatim>\<open>new_mesh_set\<close> holds for a table without columns and for every
  table whose first column has an entry: the polygons are built only for a table
  with columns and no row.
\<close>

lemma outline_branch_iff:
  "outline_branch mesh \<longleftrightarrow> triangles mesh = [] \<or> hd (triangles mesh) \<noteq> []"
  by (cases "triangles mesh") (simp_all add: outline_branch_def np_unique_def)

text \<open>
  C3.  A mesh whose table is not degenerate gets a triangulated surface.  Not so:
  on a new model, the mesh of four points with the two triangles (0, 1, 2) and
  (1, 2, 3), whose table has no constant row and no constant column, gets two
  closed polylines and the colour black, and no polygon.
\<close>

theorem new_mesh_set_triangles_outlined:
  "new_mesh_actor
     \<lparr>time_size = 1, points = [(0, 0, 0), (1, 0, 0), (0, 1, 0), (1, 1, 0)],
      triangles = [[0, 1, 2], [1, 2, 3]]\<rparr> (VtkModel_init t0)
   = (None, add_mesh_actor
        (PolyData [(0, 0, 0), (1, 0, 0), (0, 1, 0), (1, 1, 0)]
           [PolyLine [Some 0, Some 1, Some 2, Some 0],
            PolyLine [Some 1, Some 2, Some 3, Some 1]] [] [])
        ((VtkModel_init t0)\<lparr>mesh_color := (0, 0, 0)\<rparr>))
   \<and> fst (new_mesh_set
        (Many [\<lparr>time_size = 1, points = [(0, 0, 0), (1, 0, 0), (0, 1, 0), (1, 1, 0)],
                triangles = [[0, 1, 2], [1, 2, 3]]\<rparr>]) (VtkModel_init t0)) = None
   \<and> map (\<lambda>a. (a_input a, a_color a))
     (mesh_actors (snd (new_mesh_set
        (Many [\<lparr>time_size = 1, points = [(0, 0, 0), (1, 0, 0), (0, 1, 0), (1, 1, 0)],
                triangles = [[0, 1, 2], [1, 2, 3]]\<rparr>]) (VtkModel_init t0))))
   = [(PolyData [(0, 0, 0), (1, 0, 0), (0, 1, 0), (1, 1, 0)]
         [PolyLine [Some 0, Some 1, Some 2, Some 0],
          PolyLine [Some 1, Some 2, Some 3, Some 1]] [] [], (0, 0, 0))]"
  by (simp add: new_mesh_set.simps(2) update_mesh.simps(2) closed_polyline_3 new_mesh_actor_def
      outline_branch_def np_unique_def add_mesh_actor_def vtkActor_def ren_AddActor_def
      ren_ResetCamera_def update_mesh_actor_def channel_size_def VtkModel_init_def
      Markers_empty_def Let_def upt_conv_Cons del: closed_polyline.simps)

end
